(* ===== verification/Prelude.thy ===== *)
theory Prelude
  imports Main
    "HOL-Library.Char_ord"
    "HOL-Library.List_Lexorder"
    "HOL-Library.Product_Lexorder"
    "HOL-Library.AList"
    "HOL-Library.Multiset"
    "HOL-Library.Code_Target_Numeral"
begin

text \<open>
  The shared base of the development: the result type that every fallible Go function
  returns, the collections the component proofs draw on, and generic facts on lists,
  association lists and sorting.

  A Go \<open>string\<close> and a Go \<open>[]byte\<close> are both sequences of bytes and are both
  modelled by \<open>string\<close>, that is \<open>char list\<close>: an Isabelle character is one byte.
  With \<open>Char_ord\<close> and \<open>List_Lexorder\<close> the order on them is the bytewise
  lexicographic order of Go's \<open><\<close>, of \<open>bytes.Compare\<close> and of \<open>sort.Strings\<close>.

  A Go \<open>map\<close> whose keys the code enumerates is an association list, and a Go set
  (\<open>map[string]struct{}\<close>) a duplicate-free list. Go leaves the order of a map
  iteration open; the code sorts the keys at once each time it iterates.

  \<open>Code_Target_Numeral\<close> makes \<open>code_simp\<close> compute with binary numerals, on which the
  order of characters rests; no code is generated.
\<close>

section \<open>Collections of facts\<close>

named_theorems go_string "characterisations of the functions of package strings"
named_theorems result_simps "rewrite rules for fallible computations"

section \<open>Results\<close>

type_synonym bytes = string

text \<open>A Go function \<open>func f(...) (T, error)\<close>: \<open>Inl\<close> is the error return.\<close>

type_synonym ('e, 'a) result = "'e + 'a"

definition res_bind :: "('e, 'a) result \<Rightarrow> ('a \<Rightarrow> ('e, 'b) result) \<Rightarrow> ('e, 'b) result" where
  "res_bind r f = (case r of Inl e \<Rightarrow> Inl e | Inr x \<Rightarrow> f x)"

lemma res_bind_simps [simp, result_simps]:
  "res_bind (Inl e) f = Inl e"
  "res_bind (Inr x) f = f x"
  by (simp_all add: res_bind_def)

lemma res_bind_Inr_iff [result_simps]:
  "res_bind r f = Inr y \<longleftrightarrow> (\<exists>x. r = Inr x \<and> f x = Inr y)"
  by (cases r) auto

lemma res_bind_Inl_iff [result_simps]:
  "res_bind r f = Inl e \<longleftrightarrow> r = Inl e \<or> (\<exists>x. r = Inr x \<and> f x = Inl e)"
  by (cases r) auto

text \<open>
  A loop that appends the result of each iteration and returns at the first error.
\<close>

fun res_map :: "('a \<Rightarrow> ('e, 'b) result) \<Rightarrow> 'a list \<Rightarrow> ('e, 'b list) result" where
  "res_map f [] = Inr []"
| "res_map f (x # xs) = res_bind (f x) (\<lambda>y. res_bind (res_map f xs) (\<lambda>ys. Inr (y # ys)))"

lemma res_map_Inr_iff [result_simps]:
  "res_map f xs = Inr ys \<longleftrightarrow> list_all2 (\<lambda>x y. f x = Inr y) xs ys"
  by (induction xs arbitrary: ys) (auto simp: res_bind_Inr_iff list_all2_Cons1)

lemma res_map_set:
  "res_map f xs = Inr ys \<Longrightarrow> y \<in> set ys \<Longrightarrow> \<exists>x \<in> set xs. f x = Inr y"
  by (induction xs arbitrary: ys) (auto simp: res_bind_Inr_iff)

lemma res_map_set_conv:
  "res_map f xs = Inr ys \<Longrightarrow> x \<in> set xs \<Longrightarrow> \<exists>y \<in> set ys. f x = Inr y"
  by (induction xs arbitrary: ys) (auto simp: res_bind_Inr_iff)

lemma res_map_total:
  "(\<And>x. x \<in> set xs \<Longrightarrow> \<exists>y. f x = Inr y) \<Longrightarrow> \<exists>ys. res_map f xs = Inr ys"
proof (induction xs)
  case (Cons x xs)
  then obtain y ys where "f x = Inr y" and "res_map f xs = Inr ys" by fastforce
  then show ?case by simp
qed simp

text \<open>A search loop that returns the first value it finds.\<close>

fun first_some :: "('a \<Rightarrow> 'b option) \<Rightarrow> 'a list \<Rightarrow> 'b option" where
  "first_some f [] = None"
| "first_some f (x # xs) = (case f x of None \<Rightarrow> first_some f xs | Some y \<Rightarrow> Some y)"

lemma first_some_append:
  "first_some f (xs @ ys) = (case first_some f xs of None \<Rightarrow> first_some f ys | Some y \<Rightarrow> Some y)"
  by (induction xs) (auto split: option.splits)

lemma first_some_None_iff: "first_some f xs = None \<longleftrightarrow> (\<forall>x \<in> set xs. f x = None)"
  by (induction xs) (auto split: option.splits)

section \<open>Sorting\<close>

text \<open>
  \<open>sort.Strings\<close> is \<open>sort\<close>, and \<open>sort.SliceStable\<close> with a comparison of keys is
  \<open>sort_key\<close>, which is stable.
\<close>

lemma sort_eq_if_set_eq:
  assumes "distinct xs" and "distinct ys" and "set xs = set ys"
  shows "sort xs = sort (ys :: 'a :: linorder list)"
  by (rule sorted_distinct_set_unique) (use assms in auto)

lemma filter_key_singleton:
  assumes "distinct (map f zs)" and "k \<in> set zs"
  shows "filter (\<lambda>x. f k = f x) zs = [k]"
  using assms
proof (induction zs)
  case (Cons z zs)
  show ?case
  proof (cases "k = z")
    case True
    with Cons.prems(1) have "filter (\<lambda>x. f k = f x) zs = []"
      by (auto simp: filter_empty_conv)
    with True show ?thesis by simp
  next
    case False
    with Cons.prems have "k \<in> set zs" and "f k \<noteq> f z" by (auto simp: image_iff)
    with Cons show ?thesis by simp
  qed
qed simp

lemma sort_key_eq_if_distinct:
  assumes eq: "mset xs = mset ys" and d: "distinct (map f xs)"
  shows "sort_key f xs = sort_key (f :: 'a \<Rightarrow> 'b :: linorder) ys"
proof (rule properties_for_sort_key [symmetric])
  show "mset (sort_key f xs) = mset ys" by (simp add: eq)
  show "sorted (map f (sort_key f xs))" by simp
  have "mset (map f xs) = mset (map f ys)" using eq by simp
  with d have dy: "distinct (map f ys)" by (metis mset_eq_imp_distinct_iff)
  have "mset (map f xs) = mset (map f (sort_key f xs))" by simp
  with d have ds: "distinct (map f (sort_key f xs))" by (metis mset_eq_imp_distinct_iff)
  fix k
  assume k: "k \<in> set (sort_key f xs)"
  then have "k \<in> set ys" using eq by (auto dest: mset_eq_setD)
  with k ds dy show "filter (\<lambda>x. f k = f x) (sort_key f xs) = filter (\<lambda>x. f k = f x) ys"
    by (simp only: filter_key_singleton)
qed

section \<open>Association lists\<close>

text \<open>The keys and the pairs a map of sets stands for.\<close>

definition pairs_of :: "('k \<times> 'v list) list \<Rightarrow> ('k \<times> 'v) set" where
  "pairs_of m = {(k, v). \<exists>vs. map_of m k = Some vs \<and> v \<in> set vs}"

lemma pairs_of_Nil [simp]: "pairs_of [] = {}"
  by (simp add: pairs_of_def)

lemma pairs_of_iff: "(k, v) \<in> pairs_of m \<longleftrightarrow> (\<exists>vs. map_of m k = Some vs \<and> v \<in> set vs)"
  by (simp add: pairs_of_def)

lemma set_eq_map_of_keys: "k \<in> set (map fst m) \<longleftrightarrow> (\<exists>v. map_of m k = Some v)"
  by (metis domIff dom_map_of_conv_image_fst list.set_map option.exhaust option.distinct(1))

section \<open>Simulation\<close>

text \<open>
  A simulation by a function: each step is none or one of the abstract system. What an invariant of
  the concrete steps needs besides is left to the client.
\<close>

locale simulation =
  fixes step :: "'s \<Rightarrow> 's \<Rightarrow> bool" and inv :: "'s \<Rightarrow> bool" and abs :: "'s \<Rightarrow> 'a" and astep :: "'a \<Rightarrow> 'a \<Rightarrow> bool"
  assumes inv_step: "inv s \<Longrightarrow> step s s' \<Longrightarrow> inv s'"
    and sim_step: "inv s \<Longrightarrow> step s s' \<Longrightarrow> abs s' = abs s \<or> astep (abs s) (abs s')"
begin

lemma runs: "step\<^sup>*\<^sup>* s s' \<Longrightarrow> inv s \<Longrightarrow> inv s' \<and> astep\<^sup>*\<^sup>* (abs s) (abs s')"
proof (induction rule: rtranclp_induct)
  case (step t u)
  then show ?case using inv_step sim_step by (metis rtranclp.rtrancl_into_rtrancl)
qed simp

end

end
