(* ===== verification/GoStrings.thy ===== *)
theory GoStrings
  imports Prelude
begin

text \<open>
  The functions of the Go packages \<open>strings\<close>, \<open>bytes\<close> and \<open>encoding/hex\<close> that the
  operator calls, on byte strings, each with the lemma that characterises it. The two
  functions of \<open>strings\<close> that consult the Unicode tables, \<open>ToLower\<close> and
  \<open>TrimSpace\<close>, are in theory \<open>Platform\<close>.
\<close>

section \<open>Prefixes and suffixes\<close>

definition HasPrefix :: "string \<Rightarrow> string \<Rightarrow> bool" where
  "HasPrefix s p = (length p \<le> length s \<and> take (length p) s = p)"

definition HasSuffix :: "string \<Rightarrow> string \<Rightarrow> bool" where
  "HasSuffix s x = (length x \<le> length s \<and> drop (length s - length x) s = x)"

definition TrimPrefix :: "string \<Rightarrow> string \<Rightarrow> string" where
  "TrimPrefix s p = (if HasPrefix s p then drop (length p) s else s)"

definition TrimSuffix :: "string \<Rightarrow> string \<Rightarrow> string" where
  "TrimSuffix s x = (if HasSuffix s x then take (length s - length x) s else s)"

text \<open>\<open>CutPrefix\<close> returns the rest and whether the prefix was there: an option.\<close>

definition CutPrefix :: "string \<Rightarrow> string \<Rightarrow> string option" where
  "CutPrefix s p = (if HasPrefix s p then Some (drop (length p) s) else None)"

lemma HasPrefix_iff [go_string]: "HasPrefix s p \<longleftrightarrow> (\<exists>t. s = p @ t)"
  by (auto simp: HasPrefix_def) (metis append_take_drop_id)

lemma HasSuffix_iff [go_string]: "HasSuffix s x \<longleftrightarrow> (\<exists>t. s = t @ x)"
  by (auto simp: HasSuffix_def) (metis append_take_drop_id)

lemma HasPrefix_append [simp]: "HasPrefix (p @ t) p"
  by (simp add: HasPrefix_def)

lemma HasSuffix_append [simp]: "HasSuffix (t @ x) x"
  by (simp add: HasSuffix_def)

lemma TrimPrefix_append [simp]: "TrimPrefix (p @ t) p = t"
  by (simp add: TrimPrefix_def)

lemma TrimSuffix_append [simp]: "TrimSuffix (t @ x) x = t"
  by (simp add: TrimSuffix_def)

lemma CutPrefix_Some_iff [go_string]: "CutPrefix s p = Some t \<longleftrightarrow> s = p @ t"
  by (auto simp: CutPrefix_def HasPrefix_iff)

lemma CutPrefix_None_iff [go_string]: "CutPrefix s p = None \<longleftrightarrow> \<not> HasPrefix s p"
  by (auto simp: CutPrefix_def)

lemma length_TrimSuffix_le: "length (TrimSuffix s x) \<le> length s"
  by (simp add: TrimSuffix_def)

lemma set_TrimSuffix: "set (TrimSuffix s x) \<subseteq> set s"
  by (auto simp: TrimSuffix_def dest: in_set_takeD)

section \<open>Searching\<close>

text \<open>\<open>Index\<close> is the position of the first occurrence; Go's -1 is \<open>None\<close>.\<close>

fun Index :: "string \<Rightarrow> string \<Rightarrow> nat option" where
  "Index [] sep = (if sep = [] then Some 0 else None)"
| "Index (c # s) sep = (if HasPrefix (c # s) sep then Some 0 else map_option Suc (Index s sep))"

definition Contains :: "string \<Rightarrow> string \<Rightarrow> bool" where
  "Contains s sep = (Index s sep \<noteq> None)"

text \<open>\<open>Cut\<close>: the text before and after the first separator, \<open>None\<close> if there is none.\<close>

definition Cut :: "string \<Rightarrow> string \<Rightarrow> (string \<times> string) option" where
  "Cut s sep = map_option (\<lambda>i. (take i s, drop (i + length sep) s)) (Index s sep)"

lemma Index_Some_split: "Index s sep = Some i \<Longrightarrow> s = take i s @ sep @ drop (i + length sep) s"
proof (induction s arbitrary: i)
  case (Cons c s)
  show ?case
  proof (cases "HasPrefix (c # s) sep")
    case True
    with Cons.prems show ?thesis by (auto simp: HasPrefix_iff)
  next
    case False
    with Cons.prems obtain j where "Index s sep = Some j" and "i = Suc j" by auto
    with Cons.IH show ?thesis by simp
  qed
qed (simp split: if_splits)

lemma Index_char: "Index s [c] = (if c \<in> set s then Some (length (takeWhile (\<lambda>x. x \<noteq> c) s)) else None)"
  by (induction s) (auto simp: HasPrefix_def)

lemma Contains_char [go_string]: "Contains s [c] \<longleftrightarrow> c \<in> set s"
  by (simp add: Contains_def Index_char)

lemma Cut_char [go_string]:
  "Cut s [c] = (if c \<in> set s then Some (takeWhile (\<lambda>x. x \<noteq> c) s, tl (dropWhile (\<lambda>x. x \<noteq> c) s)) else None)"
  by (simp add: Cut_def Index_char takeWhile_eq_take [symmetric] dropWhile_eq_drop drop_Suc tl_drop)

lemma Cut_char_Some:
  assumes "Cut s [c] = Some (a, b)"
  shows "s = a @ c # b" and "c \<notin> set a"
proof -
  from assms have c: "c \<in> set s"
    and ab: "a = takeWhile (\<lambda>x. x \<noteq> c) s" "b = tl (dropWhile (\<lambda>x. x \<noteq> c) s)"
    by (auto simp: Cut_char split: if_splits)
  from c have "dropWhile (\<lambda>x. x \<noteq> c) s \<noteq> []" and "hd (dropWhile (\<lambda>x. x \<noteq> c) s) = c"
    by (auto simp: dropWhile_eq_Nil_conv) (metis (mono_tags) dropWhile_eq_Nil_conv hd_dropWhile)
  then have "dropWhile (\<lambda>x. x \<noteq> c) s = c # b" by (metis ab(2) list.collapse)
  then show "s = a @ c # b" using ab(1) by (metis takeWhile_dropWhile_id)
  show "c \<notin> set a" using ab(1) by (auto dest: set_takeWhileD)
qed

lemma Cut_char_first: "c \<notin> set a \<Longrightarrow> Cut (a @ c # b) [c] = Some (a, b)"
  by (simp add: Cut_char takeWhile_append dropWhile_append)

section \<open>Replacing, trimming, joining\<close>

text \<open>\<open>ReplaceAll\<close> with a separator and a replacement of one byte each.\<close>

definition ReplaceAllChar :: "string \<Rightarrow> char \<Rightarrow> char \<Rightarrow> string" where
  "ReplaceAllChar s a b = map (\<lambda>c. if c = a then b else c) s"

definition TrimRight :: "string \<Rightarrow> string \<Rightarrow> string" where
  "TrimRight s cutset = rev (dropWhile (\<lambda>c. c \<in> set cutset) (rev s))"

lemma TrimRight_prefix: "\<exists>t. s = TrimRight s cutset @ t \<and> set t \<subseteq> set cutset"
proof -
  let ?p = "\<lambda>c. c \<in> set cutset"
  have "rev s = takeWhile ?p (rev s) @ dropWhile ?p (rev s)" by simp
  then have "s = rev (dropWhile ?p (rev s)) @ rev (takeWhile ?p (rev s))"
    by (metis rev_append rev_rev_ident)
  moreover have "set (rev (takeWhile ?p (rev s))) \<subseteq> set cutset"
    by (auto dest: set_takeWhileD)
  ultimately show ?thesis unfolding TrimRight_def by blast
qed

lemma length_TrimRight_le: "length (TrimRight s cutset) \<le> length s"
  by (metis TrimRight_prefix le_add1 length_append)

lemma set_TrimRight: "set (TrimRight s cutset) \<subseteq> set s"
  by (metis TrimRight_prefix Un_upper1 set_append)

lemma hd_TrimRight: "TrimRight s cutset \<noteq> [] \<Longrightarrow> hd (TrimRight s cutset) = hd s"
  by (metis TrimRight_prefix hd_append2)

lemma TrimRight_id: "s = [] \<or> last s \<notin> set cutset \<Longrightarrow> TrimRight s cutset = s"
  by (cases s rule: rev_cases) (auto simp: TrimRight_def)

lemma TrimRight_eq_Nil: "TrimRight s cutset = [] \<longleftrightarrow> set s \<subseteq> set cutset"
  by (auto simp: TrimRight_def dropWhile_eq_Nil_conv)

fun Join :: "string list \<Rightarrow> string \<Rightarrow> string" where
  "Join [] sep = []"
| "Join [x] sep = x"
| "Join (x # y # ys) sep = x @ sep @ Join (y # ys) sep"

text \<open>\<open>Split\<close> with a separator of one byte: at least one piece, and one more per separator.\<close>

fun SplitChar :: "string \<Rightarrow> char \<Rightarrow> string list" where
  "SplitChar [] sep = [[]]"
| "SplitChar (c # s) sep =
     (if c = sep then [] # SplitChar s sep
      else (case SplitChar s sep of [] \<Rightarrow> [[c]] | p # ps \<Rightarrow> (c # p) # ps))"

lemma SplitChar_nonempty [simp]: "SplitChar s sep \<noteq> []"
  by (induction s) (auto split: list.splits)

lemma Join_SplitChar: "Join (SplitChar s sep) [sep] = s"
proof (induction s)
  case (Cons c s)
  obtain p ps where "SplitChar s sep = p # ps" by (cases "SplitChar s sep") auto
  with Cons show ?case by (cases ps) auto
qed simp

lemma SplitChar_no_sep: "p \<in> set (SplitChar s sep) \<Longrightarrow> sep \<notin> set p"
proof (induction s arbitrary: p)
  case (Cons c s)
  obtain q qs where "SplitChar s sep = q # qs" by (cases "SplitChar s sep") auto
  with Cons show ?case by (auto split: if_splits)
qed simp

section \<open>Character classes and hexadecimal digits\<close>

definition ascii_letter :: "char \<Rightarrow> bool" where
  "ascii_letter r = ((CHR ''a'' \<le> r \<and> r \<le> CHR ''z'') \<or> (CHR ''A'' \<le> r \<and> r \<le> CHR ''Z''))"

definition ascii_digit :: "char \<Rightarrow> bool" where
  "ascii_digit r = (CHR ''0'' \<le> r \<and> r \<le> CHR ''9'')"

definition hex_digit :: "nat \<Rightarrow> char" where
  "hex_digit n = ''0123456789abcdef'' ! n"

fun hex_EncodeToString :: "bytes \<Rightarrow> string" where
  "hex_EncodeToString [] = []"
| "hex_EncodeToString (b # bs) =
     hex_digit (of_char b div 16) # hex_digit (of_char b mod 16) # hex_EncodeToString bs"

lemma length_hex_EncodeToString [simp]: "length (hex_EncodeToString bs) = 2 * length bs"
  by (induction bs) auto

lemma hex_digit_in: "n < 16 \<Longrightarrow> hex_digit n \<in> set ''0123456789abcdef''"
  unfolding hex_digit_def by (rule nth_mem) simp

lemma set_hex_EncodeToString: "set (hex_EncodeToString bs) \<subseteq> set ''0123456789abcdef''"
proof (induction bs)
  case (Cons b bs)
  have "(of_char b :: nat) < 256" by (rule nat_of_char_less_256)
  then have "(of_char b :: nat) div 16 < 16" by (simp add: less_mult_imp_div_less)
  then have "hex_digit (of_char b div 16) \<in> set ''0123456789abcdef''"
    and "hex_digit (of_char b mod 16) \<in> set ''0123456789abcdef''"
    by (auto simp del: list.set intro!: hex_digit_in)
  with Cons show ?case by (simp del: list.set(2) add: list.set(2) [of "hex_digit _"])
qed simp

text \<open>Decimal numerals, as \<open>%d\<close> prints them.\<close>

fun nat_decimal :: "nat \<Rightarrow> string" where
  "nat_decimal n = (if n < 10 then [char_of (48 + n)] else nat_decimal (n div 10) @ [char_of (48 + n mod 10)])"

declare nat_decimal.simps [simp del]

definition int_decimal :: "int \<Rightarrow> string" where
  "int_decimal i = (if i < 0 then CHR ''-'' # nat_decimal (nat (- i)) else nat_decimal (nat i))"

end
