(* ===== verification/Errors.thy ===== *)
theory Errors
  imports GoStrings
begin

text \<open>
  Go error values as trees (\<open>internal/domain/errors.go\<close> and the packages \<open>errors\<close> and
  \<open>fmt\<close>). A sentinel is a constructor; \<open>fmt.Errorf\<close> is a node that keeps its format and
  its arguments, so that the chain that \<open>%w\<close> builds can be searched with \<open>errors.Is\<close>
  and \<open>errors.As\<close>. Every error argument of a format in this program is a \<open>%w\<close>
  argument, so an error argument (\<open>AErr\<close>) is always a wrapped one.
\<close>

section \<open>The sentinels of package domain\<close>

datatype domain_error =
    ErrNoCertificates
  | ErrNoPrivateKey
  | ErrUnsupportedKey
  | ErrKeyMismatch
  | ErrExpired
  | ErrNotYetValid
  | ErrNoDNSNames
  | ErrInvalidVaultName
  | ErrInvalidHost
  | ErrInvalidZone
  | ErrInvalidPKCS12Profile
  | ErrVaultNotAllowed

fun domain_error_text :: "domain_error \<Rightarrow> string" where
  "domain_error_text ErrNoCertificates = ''no certificates found in PEM data''"
| "domain_error_text ErrNoPrivateKey = ''no private key found in PEM data''"
| "domain_error_text ErrUnsupportedKey = ''unsupported private key type''"
| "domain_error_text ErrKeyMismatch = ''private key does not match any supplied certificate''"
| "domain_error_text ErrExpired = ''certificate has expired''"
| "domain_error_text ErrNotYetValid = ''certificate is not yet valid''"
| "domain_error_text ErrNoDNSNames = ''certificate has no DNS subject alternative names''"
| "domain_error_text ErrInvalidVaultName = ''invalid Key Vault certificate name''"
| "domain_error_text ErrInvalidHost = ''invalid hostname''"
| "domain_error_text ErrInvalidZone = ''invalid zone''"
| "domain_error_text ErrInvalidPKCS12Profile = ''invalid PKCS#12 profile''"
| "domain_error_text ErrVaultNotAllowed = ''key vault is not in the operator's allowlist''"

section \<open>Error values\<close>

text \<open>
  \<open>EStatus\<close> is an error of the Kubernetes API server, with the reason that
  \<open>apierrors.IsNotFound\<close> and \<open>apierrors.IsConflict\<close> look for; \<open>EResponse\<close> an error
  response of Azure with its HTTP status; \<open>ENoMatch\<close> a kind the REST mapper does not
  know; \<open>EText\<close> any other error, by its text.
\<close>

datatype status_reason = StatusNotFound | StatusConflict | StatusOther string

datatype go_error =
    EDomain domain_error
  | EText string
  | EStatus status_reason string
  | EResponse nat string
  | ENoMatch string
  | Errorf string "fmt_arg list"
and fmt_arg =
    AStr string
  | AInt int
  | AErr go_error

type_synonym 'a go_result = "(go_error, 'a) result"

text \<open>
  The nodes of an error tree in the order in which \<open>errors.Is\<close> and \<open>errors.As\<close> visit
  them: the error itself, then what it wraps, depth first and left to right.
\<close>

fun error_chain :: "go_error \<Rightarrow> go_error list"
  and arg_chain :: "fmt_arg \<Rightarrow> go_error list" where
  "error_chain (EDomain d) = [EDomain d]"
| "error_chain (EText s) = [EText s]"
| "error_chain (EStatus r s) = [EStatus r s]"
| "error_chain (EResponse n s) = [EResponse n s]"
| "error_chain (ENoMatch s) = [ENoMatch s]"
| "error_chain (Errorf f as) = Errorf f as # concat (map arg_chain as)"
| "arg_chain (AStr s) = []"
| "arg_chain (AInt i) = []"
| "arg_chain (AErr e) = error_chain e"

definition errors_Is :: "go_error \<Rightarrow> domain_error \<Rightarrow> bool" where
  "errors_Is e d = list_ex (\<lambda>x. x = EDomain d) (error_chain e)"

text \<open>\<open>errors.As\<close> into an \<open>apierrors.APIStatus\<close>: the first status of the chain decides.\<close>

fun status_of :: "go_error \<Rightarrow> status_reason option" where
  "status_of (EStatus r _) = Some r"
| "status_of _ = None"

definition ReasonForError :: "go_error \<Rightarrow> status_reason option" where
  "ReasonForError e = first_some status_of (error_chain e)"

definition IsNotFound :: "go_error \<Rightarrow> bool" where
  "IsNotFound e = (ReasonForError e = Some StatusNotFound)"

definition IsConflict :: "go_error \<Rightarrow> bool" where
  "IsConflict e = (ReasonForError e = Some StatusConflict)"

lemma errors_Is_simps [simp]:
  "errors_Is (EDomain d) d' \<longleftrightarrow> d = d'"
  "errors_Is (EText s) d' \<longleftrightarrow> False"
  "errors_Is (EStatus r s) d' \<longleftrightarrow> False"
  "errors_Is (EResponse n s) d' \<longleftrightarrow> False"
  "errors_Is (ENoMatch s) d' \<longleftrightarrow> False"
  by (auto simp: errors_Is_def)

lemma errors_Is_Errorf [simp]:
  "errors_Is (Errorf f []) d \<longleftrightarrow> False"
  "errors_Is (Errorf f (AStr s # as)) d \<longleftrightarrow> errors_Is (Errorf f as) d"
  "errors_Is (Errorf f (AInt i # as)) d \<longleftrightarrow> errors_Is (Errorf f as) d"
  "errors_Is (Errorf f (AErr e # as)) d \<longleftrightarrow> errors_Is e d \<or> errors_Is (Errorf f as) d"
  by (auto simp: errors_Is_def)

lemma ReasonForError_simps [simp]:
  "ReasonForError (EDomain d) = None"
  "ReasonForError (EText s) = None"
  "ReasonForError (EStatus r s) = Some r"
  "ReasonForError (EResponse n s) = None"
  "ReasonForError (ENoMatch s) = None"
  by (simp_all add: ReasonForError_def)

lemma ReasonForError_Errorf [simp]:
  "ReasonForError (Errorf f []) = None"
  "ReasonForError (Errorf f (AStr s # as)) = ReasonForError (Errorf f as)"
  "ReasonForError (Errorf f (AInt i # as)) = ReasonForError (Errorf f as)"
  "ReasonForError (Errorf f (AErr e # as)) =
     (case ReasonForError e of None \<Rightarrow> ReasonForError (Errorf f as) | Some r \<Rightarrow> Some r)"
  by (simp_all add: ReasonForError_def first_some_append split: option.splits)

lemma IsNotFound_simps [simp]:
  "IsNotFound (EDomain d) = False"
  "IsNotFound (EText s) = False"
  "IsNotFound (EStatus r s) = (r = StatusNotFound)"
  by (simp_all add: IsNotFound_def)

end
