(* ===== verification/Platform.thy ===== *)
theory Platform
  imports Errors
begin

text \<open>
  What the operator takes from outside the repository, as one record of functions that is
  an argument of every definition that needs it: the Public Suffix List of
  \<open>golang.org/x/net/publicsuffix\<close>, the two digests, and the Unicode tables behind
  \<open>strings.ToLower\<close>, \<open>strings.TrimSpace\<close> and the \<open>%q\<close> verb. On ASCII input the last
  three are computed here, as Go's own fast paths do, and the tables are not consulted.

  No law is assumed of any field. A digest (Go's \<^verbatim>\<open>[32]byte\<close>, \<^verbatim>\<open>[20]byte\<close>) is given
  by the byte at each index, so that its length needs no hypothesis.
\<close>

section \<open>The parameters\<close>

record platform =
  uni_lower :: "string \<Rightarrow> string"
  uni_trim :: "string \<Rightarrow> string"
  uni_quote :: "string \<Rightarrow> string"
  sha256_byte :: "bytes \<Rightarrow> nat \<Rightarrow> char"
  sha1_byte :: "bytes \<Rightarrow> nat \<Rightarrow> char"
  public_suffix :: "string \<Rightarrow> string"
  etld_plus_one :: "string \<Rightarrow> string go_result"

section \<open>Case and white space\<close>

definition is_ascii :: "char \<Rightarrow> bool" where
  "is_ascii c = (of_char c < (128 :: nat))"

definition lower_byte :: "char \<Rightarrow> char" where
  "lower_byte c = (if CHR ''A'' \<le> c \<and> c \<le> CHR ''Z'' then char_of (of_char c + (32 :: nat)) else c)"

definition ToLower :: "platform \<Rightarrow> string \<Rightarrow> string" where
  "ToLower P s = (if list_all is_ascii s then map lower_byte s else uni_lower P s)"

definition is_space :: "char \<Rightarrow> bool" where
  "is_space c = (of_char c \<in> {9, 10, 11, 12, 13, 32 :: nat})"

definition trim_ascii :: "string \<Rightarrow> string" where
  "trim_ascii s = rev (dropWhile is_space (rev (dropWhile is_space s)))"

definition TrimSpace :: "platform \<Rightarrow> string \<Rightarrow> string" where
  "TrimSpace P s = (if list_all is_ascii s then trim_ascii s else uni_trim P s)"

lemma set_trim_ascii: "set (trim_ascii s) \<subseteq> set s"
proof -
  have "set (dropWhile is_space (rev (dropWhile is_space s))) \<subseteq> set (rev (dropWhile is_space s))"
    by (rule set_dropWhileD [THEN subsetI])
  also have "\<dots> \<subseteq> set s" by (auto dest: set_dropWhileD)
  finally show ?thesis by (simp add: trim_ascii_def)
qed

lemma dropWhile_none: "(\<And>c. c \<in> set s \<Longrightarrow> \<not> p c) \<Longrightarrow> dropWhile p s = s"
  by (cases s) auto

lemma trim_ascii_id: "(\<And>c. c \<in> set s \<Longrightarrow> \<not> is_space c) \<Longrightarrow> trim_ascii s = s"
  using dropWhile_none [of s is_space] dropWhile_none [of "rev s" is_space]
  by (simp add: trim_ascii_def)

lemma lower_byte_idem [simp]: "lower_byte (lower_byte c) = lower_byte c"
  by (simp add: lower_byte_def less_eq_char_def)

section \<open>Digests\<close>

definition sha256_Sum :: "platform \<Rightarrow> bytes \<Rightarrow> bytes" where
  "sha256_Sum P b = map (sha256_byte P b) [0..<32]"

definition sha1_Sum :: "platform \<Rightarrow> bytes \<Rightarrow> bytes" where
  "sha1_Sum P b = map (sha1_byte P b) [0..<20]"

lemma length_sha256_Sum [simp]: "length (sha256_Sum P b) = 32"
  by (simp add: sha256_Sum_def)

lemma length_sha1_Sum [simp]: "length (sha1_Sum P b) = 20"
  by (simp add: sha1_Sum_def)

section \<open>Formatting\<close>

text \<open>
  \<open>%q\<close> is \<open>strconv.Quote\<close>: on ASCII text the printable bytes stand for themselves,
  quote and backslash are escaped, and the control bytes have their Go escapes.
\<close>

definition quote_byte :: "char \<Rightarrow> string" where
  "quote_byte c =
     (let n = of_char c :: nat; bs = char_of (92 :: nat) in
      if n = 34 \<or> n = 92 then [bs, c]
      else if 32 \<le> n \<and> n < 127 then [c]
      else if n = 7 then bs # ''a'' else if n = 8 then bs # ''b''
      else if n = 12 then bs # ''f'' else if n = 10 then bs # ''n''
      else if n = 13 then bs # ''r'' else if n = 9 then bs # ''t''
      else if n = 11 then bs # ''v''
      else bs # ''x'' @ hex_EncodeToString [c])"

definition Quote :: "platform \<Rightarrow> string \<Rightarrow> string" where
  "Quote P s =
     (if list_all is_ascii s
      then char_of (34 :: nat) # concat (map quote_byte s) @ [char_of (34 :: nat)]
      else uni_quote P s)"

text \<open>
  The verbs the program uses: \<open>%s\<close>, \<open>%w\<close>, \<open>%d\<close> and \<open>%T\<close> print the argument's text,
  \<open>%q\<close> quotes it. Every format of the program has as many verbs as arguments.
\<close>

fun sprintf :: "platform \<Rightarrow> string \<Rightarrow> string list \<Rightarrow> string" where
  "sprintf P [] ts = []"
| "sprintf P [c] ts = [c]"
| "sprintf P (c # v # f) [] = c # sprintf P (v # f) []"
| "sprintf P (c # v # f) (t # ts) =
     (if c = CHR ''%'' then (if v = CHR ''q'' then Quote P t else t) @ sprintf P f ts
      else c # sprintf P (v # f) (t # ts))"

text \<open>The method \<open>Error()\<close>.\<close>

fun error_text :: "platform \<Rightarrow> go_error \<Rightarrow> string"
  and arg_text :: "platform \<Rightarrow> fmt_arg \<Rightarrow> string" where
  "error_text P (EDomain d) = domain_error_text d"
| "error_text P (EText s) = s"
| "error_text P (EStatus r s) = s"
| "error_text P (EResponse n s) = s"
| "error_text P (ENoMatch s) = s"
| "error_text P (Errorf f as) = sprintf P f (map (arg_text P) as)"
| "arg_text P (AStr s) = s"
| "arg_text P (AInt i) = int_decimal i"
| "arg_text P (AErr e) = error_text P e"

section \<open>A concrete platform\<close>

text \<open>
  A platform on which examples evaluate. Its suffix list has only the list's default rule
  (the last label is the public suffix) and the rule for \<open>co.uk\<close>; the first two bytes of its
  digests are a checksum, and the others are zero.
\<close>

fun weigh :: "nat \<Rightarrow> bytes \<Rightarrow> nat" where
  "weigh k [] = k"
| "weigh k (b # bs) = weigh ((31 * k + of_char b) mod 65521) bs"

definition sample_byte :: "bytes \<Rightarrow> nat \<Rightarrow> char" where
  "sample_byte b i =
     (if i = 0 then char_of (weigh 1 b div 256) else if i = 1 then char_of (weigh 1 b) else char_of (0 :: nat))"

definition last_label :: "string \<Rightarrow> string" where
  "last_label s = rev (takeWhile (\<lambda>c. c \<noteq> CHR ''.'') (rev s))"

definition sample_suffix :: "string \<Rightarrow> string" where
  "sample_suffix d = (if d = ''co.uk'' \<or> HasSuffix d ''.co.uk'' then ''co.uk'' else last_label d)"

definition sample_platform :: platform where
  "sample_platform =
     \<lparr> uni_lower = id, uni_trim = id, uni_quote = id,
       sha256_byte = sample_byte,
       sha1_byte = sample_byte,
       public_suffix = sample_suffix,
       etld_plus_one =
         (\<lambda>d. if HasPrefix d ''.'' \<or> HasSuffix d ''.'' \<or> Contains d ''..''
              then Inl (EText ''publicsuffix: empty label in domain'')
              else if length d \<le> length (sample_suffix d)
              then Inl (EText ''publicsuffix: cannot derive eTLD+1'')
              else let i = length d - length (sample_suffix d) - 1 in
                   Inr (last_label (take i d) @ drop i d)) \<rparr>"

end
