(* ===== verification/VaultName.thy ===== *)
theory VaultName
  imports Platform
begin

text \<open>
  Key Vault object names (\<open>internal/domain/name.go\<close>): host normalisation, the derivation
  of a name from a DNS name, its validation, and the choice of the name that identifies a
  certificate. The abstract contract is \<open>valid_vault_name\<close>, the pattern that the CRD puts
  on \<open>spec.keyVault.certificateName\<close>.
\<close>

section \<open>The code\<close>

definition MaxVaultNameLength :: nat where
  "MaxVaultNameLength = 127"

definition WildcardPrefix :: string where
  "WildcardPrefix = ''wildcard-''"

definition isASCIILetter :: "char \<Rightarrow> bool" where
  "isASCIILetter r = ((CHR ''a'' \<le> r \<and> r \<le> CHR ''z'') \<or> (CHR ''A'' \<le> r \<and> r \<le> CHR ''Z''))"

text \<open>
  The loop ranges over runes and stops at the first one that is not allowed; every rune
  outside ASCII starts with a byte outside ASCII, so ranging over bytes stops there too,
  with the same error.
\<close>

fun validate_runes :: "string \<Rightarrow> nat \<Rightarrow> string \<Rightarrow> unit go_result" where
  "validate_runes name i [] = Inr ()"
| "validate_runes name i (r # rs) =
     (if (CHR ''a'' \<le> r \<and> r \<le> CHR ''z'') \<or> (CHR ''A'' \<le> r \<and> r \<le> CHR ''Z'')
      then validate_runes name (Suc i) rs
      else if r = CHR ''-'' \<or> (CHR ''0'' \<le> r \<and> r \<le> CHR ''9'')
      then (if i = 0
            then Inl (Errorf ''%w: %q must start with a letter''
                       [AErr (EDomain ErrInvalidVaultName), AStr name])
            else validate_runes name (Suc i) rs)
      else Inl (Errorf ''%w: %q may only contain letters, digits and hyphens''
                 [AErr (EDomain ErrInvalidVaultName), AStr name]))"

definition ValidateVaultCertificateName :: "string \<Rightarrow> unit go_result" where
  "ValidateVaultCertificateName name =
     (if name = [] \<or> length name > MaxVaultNameLength
      then Inl (Errorf ''%w: %q must be 1-%d characters''
                 [AErr (EDomain ErrInvalidVaultName), AStr name, AInt (int MaxVaultNameLength)])
      else validate_runes name 0 name)"

definition NormalizeHost :: "platform \<Rightarrow> string \<Rightarrow> string" where
  "NormalizeHost P host = TrimSuffix (ToLower P (TrimSpace P host)) ''.''"

definition shortDigest :: "platform \<Rightarrow> string \<Rightarrow> string" where
  "shortDigest P seed = take 8 (hex_EncodeToString (sha256_Sum P seed))"

definition truncateWithDigest :: "platform \<Rightarrow> string \<Rightarrow> string \<Rightarrow> string" where
  "truncateWithDigest P name seed =
     (let suffix = ''-'' @ shortDigest P seed in
      TrimRight (take (MaxVaultNameLength - length suffix) name) ''-'' @ suffix)"

definition DisambiguateVaultName :: "platform \<Rightarrow> string \<Rightarrow> string \<Rightarrow> string" where
  "DisambiguateVaultName P name seed =
     (let suffix = ''-'' @ shortDigest P seed;
          name = (if length name + length suffix > MaxVaultNameLength
                  then take (MaxVaultNameLength - length suffix) name else name)
      in TrimRight name ''-'' @ suffix)"

definition DeriveVaultCertificateName :: "platform \<Rightarrow> string \<Rightarrow> string go_result" where
  "DeriveVaultCertificateName P dnsName =
     (let host = NormalizeHost P dnsName in
      if host = [] then Inl (Errorf ''%w: empty'' [AErr (EDomain ErrInvalidHost)])
      else
        let name = host;
            name = (case CutPrefix name ''*.'' of
                      Some wildcard \<Rightarrow> WildcardPrefix @ wildcard
                    | None \<Rightarrow> name);
            name = ReplaceAllChar name CHR ''.'' CHR ''-'';
            name = (if name \<noteq> [] \<and> \<not> isASCIILetter (hd name) then ''cert-'' @ name else name);
            name = (if length name > MaxVaultNameLength then truncateWithDigest P name host else name)
        in (case ValidateVaultCertificateName name of
              Inl err \<Rightarrow> Inl (Errorf ''deriving name from %q: %w'' [AStr dnsName, AErr err])
            | Inr _ \<Rightarrow> Inr name))"

fun primary_loop :: "platform \<Rightarrow> string \<Rightarrow> string list \<Rightarrow> string" where
  "primary_loop P best [] = best"
| "primary_loop P best (raw # names) =
     (let name = NormalizeHost P raw in
      if name = [] then primary_loop P best names
      else if best = [] then primary_loop P name names
      else if HasPrefix name ''*.'' \<and> \<not> HasPrefix best ''*.'' then primary_loop P name names
      else if HasPrefix name ''*.'' = HasPrefix best ''*.'' \<and> name < best then primary_loop P name names
      else primary_loop P best names)"

definition PrimaryDNSName :: "platform \<Rightarrow> string list \<Rightarrow> string" where
  "PrimaryDNSName P names = primary_loop P [] names"

section \<open>Validation accepts exactly the documented names\<close>

text \<open>Letters, digits and hyphens, the bytes a name may hold after its first letter.\<close>

definition vault_name_char :: "char \<Rightarrow> bool" where
  "vault_name_char c = (isASCIILetter c \<or> ascii_digit c \<or> c = CHR ''-'')"

text \<open>The pattern \<^verbatim>\<open>^[a-zA-Z][a-zA-Z0-9-]{0,126}$\<close>.\<close>

definition valid_vault_name :: "string \<Rightarrow> bool" where
  "valid_vault_name name =
     (case name of [] \<Rightarrow> False
      | c # cs \<Rightarrow> isASCIILetter c \<and> list_all vault_name_char cs \<and> length cs \<le> 126)"

lemma validate_runes_Suc:
  "validate_runes name (Suc i) rs = Inr () \<longleftrightarrow> list_all vault_name_char rs"
  by (induction rs arbitrary: i) (auto simp: vault_name_char_def isASCIILetter_def ascii_digit_def)

lemma Validate_Inr_iff:
  "ValidateVaultCertificateName name = Inr () \<longleftrightarrow> valid_vault_name name"
  by (cases name)
     (auto simp: ValidateVaultCertificateName_def valid_vault_name_def MaxVaultNameLength_def
        validate_runes_Suc isASCIILetter_def)

lemma validate_runes_Inl:
  "validate_runes name i rs = Inl e \<Longrightarrow> errors_Is e ErrInvalidVaultName"
  by (induction name i rs rule: validate_runes.induct) (auto split: if_splits)

lemma Validate_Inl:
  "ValidateVaultCertificateName name = Inl e \<Longrightarrow> errors_Is e ErrInvalidVaultName"
  by (auto simp: ValidateVaultCertificateName_def dest: validate_runes_Inl split: if_splits)

lemma Validate_Inl_iff:
  "(\<exists>e. ValidateVaultCertificateName name = Inl e) \<longleftrightarrow> \<not> valid_vault_name name"
  using Validate_Inr_iff [of name] by (cases "ValidateVaultCertificateName name") auto

lemma valid_vault_name_append:
  assumes "isASCIILetter (hd a)" and "list_all vault_name_char (a @ b)"
    and "a \<noteq> []" and "length (a @ b) \<le> 127"
  shows "valid_vault_name (a @ b)"
  using assms by (cases a) (auto simp: valid_vault_name_def)

lemma valid_vault_nameD:
  assumes "valid_vault_name name"
  shows "name \<noteq> []" and "isASCIILetter (hd name)" and "list_all vault_name_char name"
    and "length name \<le> 127"
  using assms by (auto simp: valid_vault_name_def vault_name_char_def split: list.splits)

section \<open>Digest suffixes keep a name valid\<close>

lemma length_shortDigest [simp]: "length (shortDigest P seed) = 8"
  by (simp add: shortDigest_def)

lemma shortDigest_chars: "list_all vault_name_char (shortDigest P seed)"
proof -
  have "set (shortDigest P seed) \<subseteq> set ''0123456789abcdef''"
    unfolding shortDigest_def using set_hex_EncodeToString by (meson order_trans set_take_subset)
  moreover have "list_all vault_name_char ''0123456789abcdef''"
    by (simp add: vault_name_char_def ascii_digit_def isASCIILetter_def less_eq_char_def)
  ultimately show ?thesis by (auto simp: list_all_iff simp del: list.set)
qed

lemma isASCIILetter_not_hyphen: "isASCIILetter c \<Longrightarrow> c \<noteq> CHR ''-''"
  by (auto simp: isASCIILetter_def less_eq_char_def)

lemma TrimRight_hyphen_nonempty:
  assumes "name \<noteq> []" and "isASCIILetter (hd name)"
  shows "TrimRight name ''-'' \<noteq> []"
  using assms isASCIILetter_not_hyphen by (cases name) (auto simp: TrimRight_eq_Nil)

lemma trimmed_digest_valid:
  assumes "base \<noteq> []" and "isASCIILetter (hd base)" and "list_all vault_name_char base"
    and "length base \<le> 118"
  shows "valid_vault_name (TrimRight base ''-'' @ ''-'' @ shortDigest P seed)"
proof (rule valid_vault_name_append)
  note ne = TrimRight_hyphen_nonempty [OF assms(1,2)]
  show "TrimRight base ''-'' \<noteq> []" by (rule ne)
  show "isASCIILetter (hd (TrimRight base ''-''))" using assms(2) by (simp add: hd_TrimRight [OF ne])
  show "list_all vault_name_char (TrimRight base ''-'' @ ''-'' @ shortDigest P seed)"
    using assms(3) set_TrimRight [of base "''-''"] shortDigest_chars [of P seed]
    by (auto simp: list_all_iff vault_name_char_def)
  show "length (TrimRight base ''-'' @ ''-'' @ shortDigest P seed) \<le> 127"
    using length_TrimRight_le [of base "''-''"] assms(4) by simp
qed

lemma Disambiguate_valid:
  assumes "valid_vault_name name"
  shows "valid_vault_name (DisambiguateVaultName P name seed)"
proof -
  note v = valid_vault_nameD [OF assms]
  let ?base = "if length name + 9 > 127 then take 118 name else name"
  have "?base \<noteq> []" and "isASCIILetter (hd ?base)" and "list_all vault_name_char ?base"
    and "length ?base \<le> 118"
    using v by (auto simp: list_all_iff hd_take dest: in_set_takeD)
  then have "valid_vault_name (TrimRight ?base ''-'' @ ''-'' @ shortDigest P seed)"
    by (rule trimmed_digest_valid)
  then show ?thesis
    by (simp add: DisambiguateVaultName_def MaxVaultNameLength_def Let_def split: if_splits)
qed

text \<open>The digest survives whole, so equal results mean equal digests.\<close>

lemma Disambiguate_suffix:
  "\<exists>a. DisambiguateVaultName P name seed = a @ ''-'' @ shortDigest P seed"
  by (simp add: DisambiguateVaultName_def Let_def)

lemma Disambiguate_digest_eq:
  assumes "DisambiguateVaultName P n s = DisambiguateVaultName P n' s'"
  shows "shortDigest P s = shortDigest P s'"
proof -
  obtain a b where "a @ ''-'' @ shortDigest P s = b @ ''-'' @ shortDigest P s'"
    using assms Disambiguate_suffix by metis
  then show ?thesis by (simp flip: append_assoc)
qed

section \<open>Derived names\<close>

definition host_name_char :: "char \<Rightarrow> bool" where
  "host_name_char c = (vault_name_char c \<or> c = CHR ''.'')"

lemma vault_chars_Replace:
  "list_all host_name_char s \<Longrightarrow> list_all vault_name_char (ReplaceAllChar s CHR ''.'' CHR ''-'')"
  by (auto simp: ReplaceAllChar_def list_all_iff host_name_char_def vault_name_char_def)

lemma vault_chars_literals:
  "list_all vault_name_char ''wildcard-''" "list_all vault_name_char ''cert-''"
  "isASCIILetter CHR ''w''" "isASCIILetter CHR ''c''"
  by (simp_all add: vault_name_char_def isASCIILetter_def less_eq_char_def)

lemma truncateWithDigest_valid:
  assumes "name \<noteq> []" and "isASCIILetter (hd name)" and "list_all vault_name_char name"
  shows "valid_vault_name (truncateWithDigest P name seed)"
proof -
  have "take 118 name \<noteq> []" and "isASCIILetter (hd (take 118 name))"
    and "list_all vault_name_char (take 118 name)" and "length (take 118 name) \<le> 118"
    using assms by (auto simp: list_all_iff hd_take dest: in_set_takeD)
  then show ?thesis
    using trimmed_digest_valid by (simp add: truncateWithDigest_def MaxVaultNameLength_def Let_def)
qed

lemma Derive_valid:
  "DeriveVaultCertificateName P dnsName = Inr name \<Longrightarrow> valid_vault_name name"
  by (auto simp: DeriveVaultCertificateName_def Let_def Validate_Inr_iff
      split: if_splits sum.splits option.splits)

lemma Derive_Inl:
  "DeriveVaultCertificateName P dnsName = Inl e \<Longrightarrow>
     errors_Is e ErrInvalidHost \<or> errors_Is e ErrInvalidVaultName"
  by (auto simp: DeriveVaultCertificateName_def Let_def dest: Validate_Inl
      split: if_splits sum.splits)

text \<open>The name before its length is looked at.\<close>

definition flat_name :: "string \<Rightarrow> string" where
  "flat_name host =
     (let name = ReplaceAllChar
            (case CutPrefix host ''*.'' of Some w \<Rightarrow> WildcardPrefix @ w | None \<Rightarrow> host)
            CHR ''.'' CHR ''-''
      in if name \<noteq> [] \<and> \<not> isASCIILetter (hd name) then ''cert-'' @ name else name)"

lemma flat_name_chars:
  assumes "host \<noteq> []" and "list_all host_name_char (TrimPrefix host ''*.'')"
  shows "flat_name host \<noteq> []" and "isASCIILetter (hd (flat_name host))"
    and "list_all vault_name_char (flat_name host)"
proof -
  let ?n = "ReplaceAllChar
      (case CutPrefix host ''*.'' of Some w \<Rightarrow> WildcardPrefix @ w | None \<Rightarrow> host) CHR ''.'' CHR ''-''"
  have "list_all host_name_char WildcardPrefix"
    using vault_chars_literals(1) by (auto simp: WildcardPrefix_def host_name_char_def)
  then have "list_all host_name_char (case CutPrefix host ''*.'' of Some w \<Rightarrow> WildcardPrefix @ w | None \<Rightarrow> host)"
    using assms(2) by (auto simp: CutPrefix_def TrimPrefix_def)
  then have chars: "list_all vault_name_char ?n" by (rule vault_chars_Replace)
  have ne: "?n \<noteq> []" using assms(1)
    by (auto simp: ReplaceAllChar_def WildcardPrefix_def split: option.splits)
  show "flat_name host \<noteq> []" and "isASCIILetter (hd (flat_name host))"
    and "list_all vault_name_char (flat_name host)"
    using chars ne vault_chars_literals by (auto simp: flat_name_def Let_def)
qed

lemma Derive_flat:
  assumes "NormalizeHost P dnsName = host" and "host \<noteq> []"
    and "list_all host_name_char (TrimPrefix host ''*.'')"
  shows "DeriveVaultCertificateName P dnsName =
     Inr (if length (flat_name host) > MaxVaultNameLength
          then truncateWithDigest P (flat_name host) host else flat_name host)"
proof -
  note c = flat_name_chars [OF assms(2,3)]
  let ?name = "if length (flat_name host) > MaxVaultNameLength
          then truncateWithDigest P (flat_name host) host else flat_name host"
  have "valid_vault_name ?name"
    using truncateWithDigest_valid [OF c] valid_vault_name_append [of "flat_name host" "[]"] c
    by (simp add: MaxVaultNameLength_def)
  then have "ValidateVaultCertificateName ?name = Inr ()" by (simp only: Validate_Inr_iff)
  moreover have "DeriveVaultCertificateName P dnsName =
     (case ValidateVaultCertificateName ?name of
              Inl err \<Rightarrow> Inl (Errorf ''deriving name from %q: %w'' [AStr dnsName, AErr err])
            | Inr _ \<Rightarrow> Inr ?name)"
    by (simp only: DeriveVaultCertificateName_def flat_name_def Let_def assms(1) assms(2) if_False)
  ultimately show ?thesis by simp
qed

section \<open>The primary name\<close>

text \<open>A wildcard is preferred, then the name that sorts first.\<close>

definition primary_key :: "string \<Rightarrow> bool \<times> string" where
  "primary_key name = (\<not> HasPrefix name ''*.'', name)"

definition primary_candidates :: "platform \<Rightarrow> string list \<Rightarrow> string set" where
  "primary_candidates P names = NormalizeHost P ` set names - {[]}"

lemma primary_key_inj: "primary_key a = primary_key b \<Longrightarrow> a = b"
  by (simp add: primary_key_def)

text \<open>The better of two names, the empty one standing for none.\<close>

definition better :: "string \<Rightarrow> string \<Rightarrow> string" where
  "better best name =
     (if name = [] then best else if best = [] then name
      else if primary_key name < primary_key best then name else best)"

lemma primary_loop_step:
  "primary_loop P best (raw # names) = primary_loop P (better best (NormalizeHost P raw)) names"
  by (auto simp: better_def primary_key_def Let_def less_prod_def)

text \<open>The choice from a set of candidates: none if there is none, else the least key.\<close>

definition is_primary :: "string set \<Rightarrow> string \<Rightarrow> bool" where
  "is_primary S r \<longleftrightarrow> (S = {} \<longrightarrow> r = []) \<and>
     (S \<noteq> {} \<longrightarrow> r \<in> S \<and> (\<forall>x \<in> S. primary_key r \<le> primary_key x))"

lemma is_primary_superset:
  assumes "is_primary T r" and "T \<subseteq> S" and "T = {} \<Longrightarrow> S = {}"
    and "\<And>x. x \<in> S \<Longrightarrow> \<exists>y \<in> T. primary_key y \<le> primary_key x"
  shows "is_primary S r"
  using assms unfolding is_primary_def by (metis order_trans subsetD subset_empty)

lemma primary_loop_spec:
  "is_primary (primary_candidates P names \<union> ({best} - {[]})) (primary_loop P best names)"
proof (induction names arbitrary: best)
  case Nil
  show ?case by (auto simp: primary_candidates_def is_primary_def)
next
  case (Cons raw names)
  let ?n = "NormalizeHost P raw"
  have S: "primary_candidates P (raw # names) = primary_candidates P names \<union> ({?n} - {[]})"
    by (auto simp: primary_candidates_def)
  have "is_primary (primary_candidates P names \<union> ({better best ?n} - {[]}))
      (primary_loop P best (raw # names))"
    using Cons.IH by (simp only: primary_loop_step)
  then show ?case
    unfolding S by (rule is_primary_superset) (auto simp: better_def split: if_splits)
qed

lemma PrimaryDNSName_spec: "is_primary (primary_candidates P names) (PrimaryDNSName P names)"
  using primary_loop_spec [of P names "[]"] by (simp add: PrimaryDNSName_def)

lemma PrimaryDNSName_unique:
  assumes "n \<in> primary_candidates P names"
    and "\<And>x. x \<in> primary_candidates P names \<Longrightarrow> primary_key n \<le> primary_key x"
  shows "PrimaryDNSName P names = n"
proof -
  have "PrimaryDNSName P names \<in> primary_candidates P names"
    and "primary_key (PrimaryDNSName P names) \<le> primary_key n"
    using PrimaryDNSName_spec [of P names] assms(1) by (auto simp: is_primary_def)
  with assms(2) show ?thesis by (blast intro: primary_key_inj antisym)
qed

lemma PrimaryDNSName_in:
  "PrimaryDNSName P names \<noteq> [] \<Longrightarrow> \<exists>raw \<in> set names. PrimaryDNSName P names = NormalizeHost P raw"
  using PrimaryDNSName_spec [of P names] by (auto simp: primary_candidates_def is_primary_def)

end
