(* ===== verification/VaultNameProps.thy ===== *)
theory VaultNameProps
  imports VaultName
begin

text \<open>The properties of Key Vault names and of the choice of the name a certificate goes by.\<close>

text \<open>
  The validation of a Key Vault certificate name accepts exactly a letter followed by at most
  126 letters, digits and hyphens, which is the pattern of the custom resource; any other name
  is refused with \<open>ErrInvalidVaultName\<close>.
\<close>
theorem ValidateVaultCertificateName_pattern:
  "case ValidateVaultCertificateName name of
     Inr _ \<Rightarrow> \<exists>c cs. name = c # cs \<and> ascii_letter c \<and> length cs \<le> 126 \<and>
                    list_all (\<lambda>x. ascii_letter x \<or> ascii_digit x \<or> x = CHR ''-'') cs
   | Inl e \<Rightarrow> errors_Is e ErrInvalidVaultName \<and>
       (\<nexists>c cs. name = c # cs \<and> ascii_letter c \<and> length cs \<le> 126 \<and>
                list_all (\<lambda>x. ascii_letter x \<or> ascii_digit x \<or> x = CHR ''-'') cs)"
proof -
  have p: "valid_vault_name name \<longleftrightarrow> (\<exists>c cs. name = c # cs \<and> ascii_letter c \<and> length cs \<le> 126 \<and>
      list_all (\<lambda>x. ascii_letter x \<or> ascii_digit x \<or> x = CHR ''-'') cs)"
    by (cases name)
       (auto simp: valid_vault_name_def vault_name_char_def isASCIILetter_def ascii_letter_def list_all_iff)
  show ?thesis
    using Validate_Inr_iff [of name] Validate_Inl [of name]
    by (cases "ValidateVaultCertificateName name") (simp_all add: p)
qed

text \<open>
  Every host name of letters, digits, hyphens and dots (with or without a star label) has a
  derived name, and it is valid; names of up to 127 characters are kept readable: the derived
  name is the host with its dots turned into hyphens, its star label into \<open>wildcard\<close>, and a
  letter in front where it needs one. Longer ones end in the digest of the host.
\<close>
theorem DeriveVaultCertificateName_total:
  assumes "NormalizeHost P dnsName \<noteq> []"
    and "list_all (\<lambda>c. ascii_letter c \<or> ascii_digit c \<or> c = CHR ''-'' \<or> c = CHR ''.'')
           (TrimPrefix (NormalizeHost P dnsName) ''*.'')"
  shows "\<exists>name. DeriveVaultCertificateName P dnsName = Inr name \<and> valid_vault_name name \<and>
     (if length (flat_name (NormalizeHost P dnsName)) \<le> 127
      then name = flat_name (NormalizeHost P dnsName)
      else HasSuffix name (''-'' @ shortDigest P (NormalizeHost P dnsName)))"
proof -
  have "list_all host_name_char (TrimPrefix (NormalizeHost P dnsName) ''*.'')"
    using assms(2)
    by (auto simp: list_all_iff host_name_char_def vault_name_char_def isASCIILetter_def ascii_letter_def)
  note d = Derive_flat [OF refl assms(1) this]
  show ?thesis
    using d Derive_valid [OF d]
    by (auto simp: MaxVaultNameLength_def truncateWithDigest_def Let_def HasSuffix_iff)
qed

lemma DeriveVaultCertificateName_total_witness:
  "\<exists>name. DeriveVaultCertificateName sample_platform ''*.Shop.X.com.'' = Inr name \<and> valid_vault_name name \<and>
     (if length (flat_name (NormalizeHost sample_platform ''*.Shop.X.com.'')) \<le> 127
      then name = flat_name (NormalizeHost sample_platform ''*.Shop.X.com.'')
      else HasSuffix name (''-'' @ shortDigest sample_platform (NormalizeHost sample_platform ''*.Shop.X.com.'')))"
  by (rule DeriveVaultCertificateName_total) code_simp+

text \<open>
  The name that a certificate goes by does not depend on the order or the repetition of its
  DNS names: it is the least of the normalised names in the order that puts star names first,
  and it is empty only when every name is blank.
\<close>
theorem PrimaryDNSName_order:
  assumes "set names = set names'"
  shows "PrimaryDNSName P names = PrimaryDNSName P names' \<and>
    (PrimaryDNSName P names = [] \<longleftrightarrow> (\<forall>raw \<in> set names. NormalizeHost P raw = [])) \<and>
    (\<forall>raw \<in> set names. NormalizeHost P raw \<noteq> [] \<longrightarrow>
       primary_key (PrimaryDNSName P names) \<le> primary_key (NormalizeHost P raw))"
proof -
  have c: "primary_candidates P names = primary_candidates P names'"
    using assms by (simp add: primary_candidates_def)
  note s = PrimaryDNSName_spec [of P names] and s' = PrimaryDNSName_spec [of P names']
  have "PrimaryDNSName P names = PrimaryDNSName P names'"
  proof (cases "primary_candidates P names = {}")
    case False
    then show ?thesis
      using s s' unfolding c is_primary_def by (metis antisym primary_key_inj)
  qed (use s s' c in \<open>simp add: is_primary_def\<close>)
  then show ?thesis
    using s by (auto simp: is_primary_def primary_candidates_def)
qed

lemma PrimaryDNSName_order_witness:
  "PrimaryDNSName sample_platform [''x.com'', ''*.x.com'', ''a.x.com''] =
   PrimaryDNSName sample_platform [''a.x.com'', ''x.com'', ''x.com'', ''*.x.com'']"
  using PrimaryDNSName_order [of "[''x.com'', ''*.x.com'', ''a.x.com'']"
    "[''a.x.com'', ''x.com'', ''x.com'', ''*.x.com'']" sample_platform] by fastforce

end
