(* ===== verification/GoIO.thy ===== *)
theory GoIO
  imports Errors
begin

text \<open>
  Code with effects. A Go function that talks to the outside is a function of the state of the
  world, which returns its result or its error together with the new state. The world is a
  type variable: a port (a Go interface value) is a record of such functions, and nothing is
  assumed of them unless a theorem says so.
\<close>

section \<open>Fallible computations in a world\<close>

type_synonym ('w, 'a) io = "'w \<Rightarrow> 'a go_result \<times> 'w"

definition io_return :: "'a \<Rightarrow> ('w, 'a) io" where
  "io_return x w = (Inr x, w)"

definition io_fail :: "go_error \<Rightarrow> ('w, 'a) io" where
  "io_fail e w = (Inl e, w)"

text \<open>\<open>x, err := m(); if err != nil { return err }\<close> and then the rest.\<close>

definition io_bind :: "('w, 'a) io \<Rightarrow> ('a \<Rightarrow> ('w, 'b) io) \<Rightarrow> ('w, 'b) io" where
  "io_bind m f w = (case m w of (Inl e, w') \<Rightarrow> (Inl e, w') | (Inr x, w') \<Rightarrow> f x w')"

text \<open>The error of \<open>m\<close>, put into a context: \<open>fmt.Errorf("...: %w", err)\<close>.\<close>

definition io_wrap :: "(go_error \<Rightarrow> go_error) \<Rightarrow> ('w, 'a) io \<Rightarrow> ('w, 'a) io" where
  "io_wrap g m w = (case m w of (Inl e, w') \<Rightarrow> (Inl (g e), w') | (Inr x, w') \<Rightarrow> (Inr x, w'))"

text \<open>Both outcomes are handled by the code that follows.\<close>

definition io_case :: "('w, 'a) io \<Rightarrow> (go_error \<Rightarrow> ('w, 'b) io) \<Rightarrow> ('a \<Rightarrow> ('w, 'b) io) \<Rightarrow> ('w, 'b) io" where
  "io_case m h f w = (case m w of (Inl e, w') \<Rightarrow> h e w' | (Inr x, w') \<Rightarrow> f x w')"

text \<open>A pure fallible function, and an effect without an error.\<close>

definition io_lift :: "'a go_result \<Rightarrow> ('w, 'a) io" where
  "io_lift r w = (r, w)"

definition io_effect :: "('w \<Rightarrow> 'a \<times> 'w) \<Rightarrow> ('w, 'a) io" where
  "io_effect m w = (case m w of (x, w') \<Rightarrow> (Inr x, w'))"

fun io_iterate :: "('a \<Rightarrow> ('w, unit) io) \<Rightarrow> 'a list \<Rightarrow> ('w, unit) io" where
  "io_iterate f [] = io_return ()"
| "io_iterate f (x # xs) = io_bind (f x) (\<lambda>_. io_iterate f xs)"

named_theorems io_simps "unfolding of computations in a world"

lemmas io_defs [io_simps] =
  io_return_def io_fail_def io_bind_def io_wrap_def io_case_def io_lift_def io_effect_def

lemma io_bind_Inr_iff:
  "io_bind m f w = (Inr y, w') \<longleftrightarrow> (\<exists>x w1. m w = (Inr x, w1) \<and> f x w1 = (Inr y, w'))"
  by (auto simp: io_bind_def split: prod.splits sum.splits)

lemma io_wrap_Inr_iff: "io_wrap g m w = (Inr y, w') \<longleftrightarrow> m w = (Inr y, w')"
  by (auto simp: io_wrap_def split: prod.splits sum.splits)

lemma io_lift_Inr_iff: "io_lift r w = (Inr x, w') \<longleftrightarrow> r = Inr x \<and> w' = w"
  by (auto simp: io_lift_def)

lemma io_return_Inr_iff: "io_return y w = (Inr x, w') \<longleftrightarrow> x = y \<and> w' = w"
  by (auto simp: io_return_def)

lemma io_effect_Inr_iff: "io_effect m w = (Inr x, w') \<longleftrightarrow> m w = (x, w')"
  by (auto simp: io_effect_def split: prod.split)

lemmas io_Inr_iffs =
  io_bind_Inr_iff io_wrap_Inr_iff io_lift_Inr_iff io_return_Inr_iff io_effect_Inr_iff

lemma io_bind_return [simp]: "io_bind (io_return x) f = f x"
  by (rule ext) (simp add: io_simps)

lemma io_lift_simps [simp]:
  "io_lift (Inr x) = io_return x"
  "io_lift (Inl e) = io_fail e"
  by (rule ext, simp add: io_simps)+

lemma io_bind_assoc: "io_bind (io_bind m f) g = io_bind m (\<lambda>x. io_bind (f x) g)"
  by (rule ext) (simp add: io_bind_def split: prod.split sum.split)

section \<open>What a computation leaves unchanged\<close>

text \<open>\<open>io_keeps f m\<close>: the view \<open>f\<close> of the world is the same after \<open>m\<close>, however it ends.\<close>

definition io_keeps :: "('w \<Rightarrow> 'v) \<Rightarrow> ('w, 'a) io \<Rightarrow> bool" where
  "io_keeps f m \<longleftrightarrow> (\<forall>w. f (snd (m w)) = f w)"

named_theorems io_keep "rules for views of the world that are kept"

lemma io_keeps_return [io_keep, intro]: "io_keeps f (io_return x)"
  by (simp add: io_keeps_def io_return_def)

lemma io_keeps_fail [io_keep, intro]: "io_keeps f (io_fail e)"
  by (simp add: io_keeps_def io_fail_def)

lemma io_keeps_lift [io_keep, intro]: "io_keeps f (io_lift r)"
  by (simp add: io_keeps_def io_lift_def)

lemma io_keeps_bind [io_keep, intro]:
  "io_keeps f m \<Longrightarrow> (\<And>x. io_keeps f (g x)) \<Longrightarrow> io_keeps f (io_bind m g)"
  unfolding io_keeps_def io_bind_def by (auto split: prod.split sum.split) (metis snd_conv)+

lemma io_keeps_wrap [io_keep, intro]: "io_keeps f m \<Longrightarrow> io_keeps f (io_wrap g m)"
  unfolding io_keeps_def io_wrap_def by (auto split: prod.split sum.split) (metis snd_conv)+

lemma io_keeps_case [io_keep, intro]:
  "io_keeps f m \<Longrightarrow> (\<And>e. io_keeps f (h e)) \<Longrightarrow> (\<And>x. io_keeps f (g x)) \<Longrightarrow> io_keeps f (io_case m h g)"
  unfolding io_keeps_def io_case_def by (auto split: prod.split sum.split) (metis snd_conv)+

lemma io_keeps_if [io_keep, intro]:
  "(b \<Longrightarrow> io_keeps f m) \<Longrightarrow> (\<not> b \<Longrightarrow> io_keeps f n) \<Longrightarrow> io_keeps f (if b then m else n)"
  by simp

lemma io_keepsD: "io_keeps f m \<Longrightarrow> m w = (r, w') \<Longrightarrow> f w' = f w"
  by (metis io_keeps_def snd_conv)

section \<open>Traces\<close>

text \<open>
  A world with a record of what was called. \<open>io_log\<close> appends an event, which may mention the
  result; \<open>io_events\<close> says that a computation appends only events of a kind.
\<close>

type_synonym ('w, 'e) logged = "'w \<times> 'e list"

definition io_log :: "('a go_result \<Rightarrow> 'e) \<Rightarrow> ('w, 'a) io \<Rightarrow> (('w, 'e) logged, 'a) io" where
  "io_log ev m l = (case l of (w, tr) \<Rightarrow> (case m w of (r, w') \<Rightarrow> (r, (w', tr @ [ev r]))))"

definition io_events :: "('e \<Rightarrow> bool) \<Rightarrow> (('w, 'e) logged, 'a) io \<Rightarrow> bool" where
  "io_events Q m \<longleftrightarrow> (\<forall>w tr. \<exists>es. snd (snd (m (w, tr))) = tr @ es \<and> list_all Q es)"

named_theorems io_event "rules for the events of a computation"

lemma io_events_return [io_event, intro]: "io_events Q (io_return x)"
  by (simp add: io_events_def io_return_def)

lemma io_events_fail [io_event, intro]: "io_events Q (io_fail e)"
  by (simp add: io_events_def io_fail_def)

lemma io_events_lift [io_event, intro]: "io_events Q (io_lift r)"
  by (simp add: io_events_def io_lift_def)

lemma io_events_log [io_event, intro]: "(\<And>r. Q (ev r)) \<Longrightarrow> io_events Q (io_log ev m)"
  by (simp add: io_events_def io_log_def split: prod.split)

lemma io_eventsE:
  assumes "io_events Q m" and "m (w, tr) = (r, (w', tr'))"
  obtains es where "tr' = tr @ es" and "list_all Q es"
  using assms unfolding io_events_def by (metis snd_conv)

lemma io_events_case [io_event, intro]:
  assumes "io_events Q m" and "\<And>e. io_events Q (h e)" and "\<And>x. io_events Q (g x)"
  shows "io_events Q (io_case m h g)"
  unfolding io_events_def
proof (intro allI)
  fix w tr
  obtain r w' tr' where m: "m (w, tr) = (r, (w', tr'))" by (metis surj_pair)
  obtain es where es: "tr' = tr @ es" "list_all Q es" by (rule io_eventsE [OF assms(1) m])
  let ?k = "case r of Inl e \<Rightarrow> h e | Inr x \<Rightarrow> g x"
  have "io_events Q ?k" using assms(2,3) by (cases r) simp_all
  then obtain fs where "snd (snd (?k (w', tr'))) = tr' @ fs" "list_all Q fs"
    unfolding io_events_def by blast
  moreover have "io_case m h g (w, tr) = ?k (w', tr')" by (simp add: io_case_def m split: sum.split)
  ultimately show "\<exists>es. snd (snd (io_case m h g (w, tr))) = tr @ es \<and> list_all Q es"
    using es by (intro exI [of _ "es @ fs"]) simp
qed

lemma io_bind_case: "io_bind m f = io_case m io_fail f"
  by (rule ext) (simp add: io_simps split: prod.split sum.split)

lemma io_wrap_case: "io_wrap g m = io_case m (\<lambda>e. io_fail (g e)) io_return"
  by (rule ext) (simp add: io_simps split: prod.split sum.split)

lemma io_events_bind [io_event, intro]:
  "io_events Q m \<Longrightarrow> (\<And>x. io_events Q (g x)) \<Longrightarrow> io_events Q (io_bind m g)"
  unfolding io_bind_case by blast

lemma io_events_wrap [io_event, intro]: "io_events Q m \<Longrightarrow> io_events Q (io_wrap g m)"
  unfolding io_wrap_case by blast

lemma io_events_if [io_event, intro]:
  "(b \<Longrightarrow> io_events Q m) \<Longrightarrow> (\<not> b \<Longrightarrow> io_events Q n) \<Longrightarrow> io_events Q (if b then m else n)"
  by simp

lemma io_events_iterate [io_event, intro]:
  "(\<And>x. x \<in> set xs \<Longrightarrow> io_events Q (f x)) \<Longrightarrow> io_events Q (io_iterate f xs)"
  by (induction xs) auto

lemma io_events_mono: "io_events Q m \<Longrightarrow> (\<And>e. Q e \<Longrightarrow> R e) \<Longrightarrow> io_events R m"
  unfolding io_events_def by (metis list.pred_mono_strong)

section \<open>Postconditions\<close>

text \<open>
  \<open>io_post Q m w\<close>: run in \<open>w\<close>, \<open>m\<close> ends in a result and a world with \<open>Q\<close>. The rules compute it
  along the structure of \<open>m\<close>.
\<close>

definition io_post :: "('a go_result \<Rightarrow> 'w \<Rightarrow> bool) \<Rightarrow> ('w, 'a) io \<Rightarrow> 'w \<Rightarrow> bool" where
  "io_post Q m w = (case m w of (r, w') \<Rightarrow> Q r w')"

named_theorems io_wp "postconditions, by the structure of the computation"

lemma io_post_return [io_wp]: "io_post Q (io_return x) w = Q (Inr x) w"
  by (simp add: io_post_def io_simps)

lemma io_post_fail [io_wp]: "io_post Q (io_fail e) w = Q (Inl e) w"
  by (simp add: io_post_def io_simps)

lemma io_post_bind [io_wp]:
  "io_post Q (io_bind m f) w =
     io_post (\<lambda>r w'. case r of Inl e \<Rightarrow> Q (Inl e) w' | Inr x \<Rightarrow> io_post Q (f x) w') m w"
  by (simp add: io_post_def io_simps split: prod.split sum.split)

lemma io_post_case [io_wp]:
  "io_post Q (io_case m h f) w =
     io_post (\<lambda>r w'. case r of Inl e \<Rightarrow> io_post Q (h e) w' | Inr x \<Rightarrow> io_post Q (f x) w') m w"
  by (simp add: io_post_def io_simps split: prod.split sum.split)

lemma io_post_wrap [io_wp]:
  "io_post Q (io_wrap g m) w = io_post (\<lambda>r. Q (case r of Inl e \<Rightarrow> Inl (g e) | Inr x \<Rightarrow> Inr x)) m w"
  by (simp add: io_post_def io_simps split: prod.split sum.split)

lemma io_post_lift [io_wp]: "io_post Q (io_lift r) w = Q r w"
  by (simp add: io_post_def io_simps)

lemma io_post_effect [io_wp]: "io_post Q (io_effect m) w = Q (Inr (fst (m w))) (snd (m w))"
  by (simp add: io_post_def io_simps split: prod.split)

lemma io_post_if [io_wp]: "io_post Q (if b then m else n) w = (if b then io_post Q m w else io_post Q n w)"
  by simp

lemma io_post_run: "io_post Q m w \<Longrightarrow> m w = (r, w') \<Longrightarrow> Q r w'"
  by (simp add: io_post_def)

lemma io_postI: "(\<And>r w'. m w = (r, w') \<Longrightarrow> Q r w') \<Longrightarrow> io_post Q m w"
  by (simp add: io_post_def split: prod.split)

lemma io_post_mono: "io_post Q m w \<Longrightarrow> (\<And>r w'. Q r w' \<Longrightarrow> R r w') \<Longrightarrow> io_post R m w"
  by (auto simp: io_post_def split: prod.splits)

lemma io_post_any: "(\<And>r w'. Q r w') \<Longrightarrow> io_post Q m w"
  by (simp add: io_post_def split: prod.split)

lemma io_post_log [io_wp]: "io_post Q (io_log ev m) (w, tr) = io_post (\<lambda>r w'. Q r (w', tr @ [ev r])) m w"
  by (simp add: io_post_def io_log_def split: prod.split)

end
