(* ===== verification/GoTime.thy ===== *)
theory GoTime
  imports Platform
begin

text \<open>
  Instants, durations and the RFC 3339 format (package \<open>time\<close>). An instant is a number of
  nanoseconds since 1 January of year 1, 00:00:00 UTC, which is Go's zero \<open>time.Time\<close>; a
  duration is a number of nanoseconds. Times are printed in UTC, the zone of a certificate's
  fields and of the operator's container.
\<close>

section \<open>Instants and durations\<close>

type_synonym time = int
type_synonym duration = int

definition IsZero :: "time \<Rightarrow> bool" where
  "IsZero t = (t = 0)"

definition Second :: duration where
  "Second = 1000000000"

definition Minute :: duration where
  "Minute = 60 * Second"

definition Hour :: duration where
  "Hour = 60 * Minute"

text \<open>\<open>time.Unix(sec, 0)\<close>: year 1 is 62135596800 seconds before 1970.\<close>

definition unix_epoch :: int where
  "unix_epoch = 62135596800"

definition time_Unix :: "int \<Rightarrow> time" where
  "time_Unix sec = (sec + unix_epoch) * Second"

text \<open>The method \<open>Unix()\<close>: whole seconds, rounded towards the past.\<close>

definition Unix :: "time \<Rightarrow> int" where
  "Unix t = t div Second - unix_epoch"

lemma Unix_time_Unix [simp]: "Unix (time_Unix s) = s"
  by (simp add: Unix_def time_Unix_def Second_def)

lemma time_Unix_Unix: "time_Unix (Unix t) \<le> t \<and> t < time_Unix (Unix t) + Second"
  by (simp add: Unix_def time_Unix_def Second_def)
    (metis mult.commute pos_mod_bound pos_mod_sign mult_div_mod_eq add.commute
      add_less_cancel_left le_add_same_cancel1 zero_less_numeral)

section \<open>The calendar\<close>

text \<open>
  The proleptic Gregorian calendar, from the number of days since 1 March of year 0: eras of
  400 years, the year of the era, and the month counted from March.
\<close>

definition civil :: "int \<Rightarrow> int \<times> int \<times> int" where
  "civil days =
     (let era = days div 146097;
          doe = days mod 146097;
          yoe = (doe - doe div 1460 + doe div 36524 - doe div 146096) div 365;
          doy = doe - (365 * yoe + yoe div 4 - yoe div 100);
          mp = (5 * doy + 2) div 153;
          d = doy - (153 * mp + 2) div 5 + 1;
          m = (if mp < 10 then mp + 3 else mp - 9)
      in (yoe + era * 400 + (if m \<le> 2 then 1 else 0), m, d))"

text \<open>The first day of year 1 is day 306 of that count.\<close>

definition time_Date :: "time \<Rightarrow> int \<times> int \<times> int" where
  "time_Date t = civil (t div (24 * Hour) + 306)"

definition pad :: "nat \<Rightarrow> int \<Rightarrow> string" where
  "pad w n = (let s = int_decimal n in replicate (w - length s) (CHR ''0'') @ s)"

definition format_RFC3339 :: "time \<Rightarrow> string" where
  "format_RFC3339 t =
     (let (y, m, d) = time_Date t; s = (t div Second) mod 86400 in
      pad 4 y @ ''-'' @ pad 2 m @ ''-'' @ pad 2 d @ ''T'' @
      pad 2 (s div 3600) @ '':'' @ pad 2 (s div 60 mod 60) @ '':'' @ pad 2 (s mod 60) @ ''Z'')"

lemma format_examples:
  "format_RFC3339 0 = ''0001-01-01T00:00:00Z''"
  "format_RFC3339 (time_Unix 0) = ''1970-01-01T00:00:00Z''"
  "format_RFC3339 (time_Unix 1709210096) = ''2024-02-29T12:34:56Z''"
  by code_simp+

end
