(* ===== verification/Certificate.thy ===== *)
theory Certificate
  imports GoTime
begin

text \<open>
  Parsing a certificate bundle (\<open>internal/domain/certificate.go\<close>). The parsers of
  \<open>crypto/x509\<close>, the PEM decoder and the verification of a signature are fields of the
  record \<open>x509_lib\<close>; what the program does with their results is modelled whole.
\<close>

section \<open>Certificates and keys\<close>

text \<open>
  The three kinds of keys the program takes, by their encodings, and any other key that
  \<open>ParsePKCS8PrivateKey\<close> may return, with its Go type; only the first three have a
  \<open>Public\<close> method that makes them a \<open>crypto.Signer\<close>. A certificate whose key algorithm is
  unknown has no public key.
\<close>

datatype private_key =
    RSAKey bytes
  | ECDSAKey bytes
  | Ed25519Key bytes
  | OtherKey string bytes

datatype public_key =
    RSAPub bytes
  | ECDSAPub bytes
  | Ed25519Pub bytes
  | NoPub

record x509_cert =
  x_Raw :: bytes
  x_RawIssuer :: bytes
  x_RawSubject :: bytes
  x_DNSNames :: "string list"
  x_NotBefore :: time
  x_NotAfter :: time
  x_SerialNumber :: "nat option"
  x_PublicKey :: public_key

record pem_block =
  pb_Type :: string
  pb_Bytes :: bytes

text \<open>
  \<open>pem_next\<close> is \<open>pem.Decode\<close>: the next block and \<open>k\<close>, where the remainder is what
  follows the first \<open>k + 1\<close> bytes. A block takes up at least one byte, so this form says
  that the remainder is shorter without a hypothesis.
\<close>

record x509_lib =
  pem_next :: "bytes \<Rightarrow> (pem_block \<times> nat) option"
  ParseCertificate :: "bytes \<Rightarrow> x509_cert go_result"
  ParsePKCS8PrivateKey :: "bytes \<Rightarrow> private_key go_result"
  ParsePKCS1PrivateKey :: "bytes \<Rightarrow> bytes go_result"
  ParseECPrivateKey :: "bytes \<Rightarrow> bytes go_result"
  public_part :: "bytes \<Rightarrow> bytes"
  CheckSignatureFrom :: "x509_cert \<Rightarrow> x509_cert \<Rightarrow> bool"

record cert_bundle =
  bd_Leaf :: x509_cert
  bd_Chain :: "x509_cert list"
  bd_PrivateKey :: private_key

section \<open>PEM\<close>

text \<open>The loop over the blocks of \<open>parseCertificates\<close>, with what it has collected.\<close>

function parse_certs_loop :: "x509_lib \<Rightarrow> x509_cert list \<Rightarrow> bytes \<Rightarrow> x509_cert list go_result" where
  "parse_certs_loop L certs rest =
     (if rest = [] then Inr certs
      else (case pem_next L rest of
         None \<Rightarrow> Inr certs
       | Some (block, k) \<Rightarrow>
           if pb_Type block \<noteq> ''CERTIFICATE'' then parse_certs_loop L certs (drop (Suc k) rest)
           else (case ParseCertificate L (pb_Bytes block) of
                   Inl err \<Rightarrow> Inl (Errorf ''parsing certificate: %w'' [AErr err])
                 | Inr cert \<Rightarrow> parse_certs_loop L (certs @ [cert]) (drop (Suc k) rest))))"
  by pat_completeness auto
termination by (relation "measure (\<lambda>(L, certs, rest). length rest)") auto

declare parse_certs_loop.simps [simp del]

definition parseCertificates :: "x509_lib \<Rightarrow> bytes \<Rightarrow> x509_cert list go_result" where
  "parseCertificates L certPEM =
     (case parse_certs_loop L [] certPEM of
        Inl err \<Rightarrow> Inl err
      | Inr certs \<Rightarrow> if certs = [] then Inl (EDomain ErrNoCertificates) else Inr certs)"

definition tryParseKey :: "x509_lib \<Rightarrow> bytes \<Rightarrow> private_key option" where
  "tryParseKey L der =
     (case ParsePKCS8PrivateKey L der of
        Inr key \<Rightarrow> Some key
      | Inl _ \<Rightarrow>
          (case ParsePKCS1PrivateKey L der of
             Inr key \<Rightarrow> Some (RSAKey key)
           | Inl _ \<Rightarrow>
               (case ParseECPrivateKey L der of
                  Inr key \<Rightarrow> Some (ECDSAKey key)
                | Inl _ \<Rightarrow> None)))"

function ParsePrivateKey :: "x509_lib \<Rightarrow> bytes \<Rightarrow> private_key go_result" where
  "ParsePrivateKey L rest =
     (if rest = [] then Inl (EDomain ErrNoPrivateKey)
      else (case pem_next L rest of
         None \<Rightarrow> Inl (EDomain ErrNoPrivateKey)
       | Some (block, k) \<Rightarrow>
           if pb_Type block = ''CERTIFICATE'' then ParsePrivateKey L (drop (Suc k) rest)
           else (case tryParseKey L (pb_Bytes block) of
                   None \<Rightarrow> ParsePrivateKey L (drop (Suc k) rest)
                 | Some (OtherKey t b) \<Rightarrow>
                     Inl (Errorf ''%w: %T'' [AErr (EDomain ErrUnsupportedKey), AStr t])
                 | Some key \<Rightarrow> Inr key)))"
  by pat_completeness auto
termination by (relation "measure (\<lambda>(L, rest). length rest)") auto

declare ParsePrivateKey.simps [simp del]

section \<open>The leaf\<close>

fun signer_Public :: "x509_lib \<Rightarrow> private_key \<Rightarrow> public_key option" where
  "signer_Public L (RSAKey k) = Some (RSAPub (public_part L k))"
| "signer_Public L (ECDSAKey k) = Some (ECDSAPub (public_part L k))"
| "signer_Public L (Ed25519Key k) = Some (Ed25519Pub (public_part L k))"
| "signer_Public L (OtherKey t k) = None"

definition publicKeysEqual :: "public_key \<Rightarrow> public_key \<Rightarrow> bool" where
  "publicKeysEqual a b = (a \<noteq> NoPub \<and> a = b)"

fun select_loop :: "public_key \<Rightarrow> x509_cert list \<Rightarrow> x509_cert list \<Rightarrow> (x509_cert \<times> x509_cert list) go_result" where
  "select_loop pub before [] = Inl (EDomain ErrKeyMismatch)"
| "select_loop pub before (cert # certs) =
     (if publicKeysEqual (x_PublicKey cert) pub then Inr (cert, before @ certs)
      else select_loop pub (before @ [cert]) certs)"

definition selectLeaf ::
  "x509_lib \<Rightarrow> x509_cert list \<Rightarrow> private_key \<Rightarrow> (x509_cert \<times> x509_cert list) go_result" where
  "selectLeaf L certs key =
     (case signer_Public L key of
        None \<Rightarrow> Inl (EDomain ErrUnsupportedKey)
      | Some pub \<Rightarrow> select_loop pub [] certs)"

lemma select_loop_Inr:
  "select_loop pub before certs = Inr (leaf, rest) \<Longrightarrow>
     mset (leaf # rest) = mset (before @ certs) \<and> publicKeysEqual (x_PublicKey leaf) pub"
  by (induction pub before certs rule: select_loop.induct) (auto split: if_splits)

lemma select_loop_Inl:
  "select_loop pub before certs = Inl e \<longleftrightarrow>
     e = EDomain ErrKeyMismatch \<and> (\<forall>c \<in> set certs. \<not> publicKeysEqual (x_PublicKey c) pub)"
  by (induction pub before certs rule: select_loop.induct) auto

lemma select_loop_first:
  "select_loop pub before (xs @ c # ys) = Inr (c, before @ xs @ ys)"
  if "publicKeysEqual (x_PublicKey c) pub" and "\<forall>x \<in> set xs. \<not> publicKeysEqual (x_PublicKey x) pub"
  using that by (induction xs arbitrary: before) auto

section \<open>Digests and fields\<close>

definition Thumbprint :: "platform \<Rightarrow> cert_bundle \<Rightarrow> bytes" where
  "Thumbprint P b = sha1_Sum P (x_Raw (bd_Leaf b))"

definition ThumbprintHex :: "platform \<Rightarrow> cert_bundle \<Rightarrow> string" where
  "ThumbprintHex P b = hex_EncodeToString (Thumbprint P b)"

text \<open>Writing to a hash appends to its input.\<close>

definition ChainDigest :: "platform \<Rightarrow> cert_bundle \<Rightarrow> string" where
  "ChainDigest P b =
     hex_EncodeToString
       (sha256_Sum P (fold (\<lambda>cert h. h @ x_Raw cert) (bd_Chain b) (x_Raw (bd_Leaf b))))"

definition bundle_DNSNames :: "cert_bundle \<Rightarrow> string list" where
  "bundle_DNSNames b = x_DNSNames (bd_Leaf b)"

definition bundle_NotAfter :: "cert_bundle \<Rightarrow> time" where
  "bundle_NotAfter b = x_NotAfter (bd_Leaf b)"

definition bundle_NotBefore :: "cert_bundle \<Rightarrow> time" where
  "bundle_NotBefore b = x_NotBefore (bd_Leaf b)"

text \<open>\<open>big.Int.Bytes\<close>: the big-endian bytes, none for zero.\<close>

fun nat_bytes :: "nat \<Rightarrow> bytes" where
  "nat_bytes n = (if n = 0 then [] else nat_bytes (n div 256) @ [char_of n])"

declare nat_bytes.simps [simp del]

definition SerialHex :: "cert_bundle \<Rightarrow> string" where
  "SerialHex b =
     (case x_SerialNumber (bd_Leaf b) of None \<Rightarrow> [] | Some n \<Rightarrow> hex_EncodeToString (nat_bytes n))"

definition Validate :: "cert_bundle \<Rightarrow> time \<Rightarrow> unit go_result" where
  "Validate b now =
     (if now > x_NotAfter (bd_Leaf b)
      then Inl (Errorf ''%w at %s'' [AErr (EDomain ErrExpired), AStr (format_RFC3339 (x_NotAfter (bd_Leaf b)))])
      else if now < x_NotBefore (bd_Leaf b)
      then Inl (Errorf ''%w until %s'' [AErr (EDomain ErrNotYetValid), AStr (format_RFC3339 (x_NotBefore (bd_Leaf b)))])
      else if x_DNSNames (bd_Leaf b) = [] then Inl (EDomain ErrNoDNSNames)
      else Inr ())"

lemma ChainDigest_concat:
  "ChainDigest P b = hex_EncodeToString (sha256_Sum P (concat (map x_Raw (bd_Leaf b # bd_Chain b))))"
proof -
  have "fold (\<lambda>cert h. h @ x_Raw cert) cs h = h @ concat (map x_Raw cs)"
    for cs :: "x509_cert list" and h
    by (induction cs arbitrary: h) auto
  then show ?thesis by (simp add: ChainDigest_def)
qed

lemma bundle_Validate_iff:
  "Validate b now = Inr u \<longleftrightarrow>
     bundle_NotBefore b \<le> now \<and> now \<le> bundle_NotAfter b \<and> bundle_DNSNames b \<noteq> []"
  by (auto simp: Validate_def bundle_NotBefore_def bundle_NotAfter_def bundle_DNSNames_def)

end
