(* ===== verification/Chain.thy ===== *)
theory Chain
  imports Certificate
begin

text \<open>
  The issuing chain (\<open>internal/domain/chain.go\<close>) and the bundle that is built with it.
\<close>

section \<open>Operations\<close>

text \<open>
  The loop of \<open>findIssuer\<close>: \<open>i\<close> is the index of the next candidate, \<open>nameMatch\<close> the
  first index whose name matched, if any.
\<close>

fun find_issuer_loop ::
  "x509_lib \<Rightarrow> x509_cert \<Rightarrow> nat \<Rightarrow> (x509_cert \<times> bool) list \<Rightarrow> nat option \<Rightarrow> nat option" where
  "find_issuer_loop L child i [] nameMatch = nameMatch"
| "find_issuer_loop L child i ((candidate, u) # cs) nameMatch =
     (if u \<or> x_RawIssuer child \<noteq> x_RawSubject candidate
      then find_issuer_loop L child (Suc i) cs nameMatch
      else if CheckSignatureFrom L child candidate then Some i
      else find_issuer_loop L child (Suc i) cs
             (case nameMatch of None \<Rightarrow> Some i | Some j \<Rightarrow> Some j))"

definition findIssuer ::
  "x509_lib \<Rightarrow> x509_cert \<Rightarrow> x509_cert list \<Rightarrow> bool list \<Rightarrow> nat option" where
  "findIssuer L child candidates used = find_issuer_loop L child 0 (zip candidates used) None"

definition isSelfSigned :: "x509_lib \<Rightarrow> x509_cert \<Rightarrow> bool" where
  "isSelfSigned L cert =
     (x_RawIssuer cert = x_RawSubject cert \<and> CheckSignatureFrom L cert cert)"

lemma find_issuer_loop_Some:
  "find_issuer_loop L child i cs nm = Some k \<Longrightarrow>
     nm = Some k \<or>
     (i \<le> k \<and> k < i + length cs \<and> \<not> snd (cs ! (k - i)) \<and>
      x_RawIssuer child = x_RawSubject (fst (cs ! (k - i))))"
proof (induction L child i cs nm rule: find_issuer_loop.induct)
  case (2 L child i candidate u cs nm)
  let ?R = "\<lambda>k. i \<le> k \<and> k < i + length ((candidate, u) # cs) \<and>
      \<not> snd (((candidate, u) # cs) ! (k - i)) \<and>
      x_RawIssuer child = x_RawSubject (fst (((candidate, u) # cs) ! (k - i)))"
  have shift: "Suc i \<le> k \<and> k < Suc i + length cs \<and> \<not> snd (cs ! (k - Suc i)) \<and>
      x_RawIssuer child = x_RawSubject (fst (cs ! (k - Suc i))) \<Longrightarrow> ?R k" for k
    by (auto simp: nth_Cons')
  show ?case
    using 2 shift [of k] by (auto split: if_splits option.splits)
qed auto

lemma findIssuer_Some:
  assumes "findIssuer L child candidates used = Some k" and "length used = length candidates"
  shows "k < length candidates" and "\<not> used ! k"
    and "x_RawIssuer child = x_RawSubject (candidates ! k)"
  using find_issuer_loop_Some [OF assms(1) [unfolded findIssuer_def]] assms(2) by auto

lemma find_issuer_loop_None:
  "find_issuer_loop L child i cs nm = None \<longleftrightarrow>
     nm = None \<and> (\<forall>(c, u) \<in> set cs. u \<or> x_RawIssuer child \<noteq> x_RawSubject c)"
  by (induction L child i cs nm rule: find_issuer_loop.induct) (auto split: option.splits)

lemma findIssuer_None:
  assumes "length used = length candidates"
  shows "findIssuer L child candidates used = None \<longleftrightarrow>
     (\<forall>k < length candidates. used ! k \<or> x_RawIssuer child \<noteq> x_RawSubject (candidates ! k))"
  using assms by (fastforce simp: findIssuer_def find_issuer_loop_None set_zip)

text \<open>
  The walk from the leaf outwards; the result is the chain and the final \<open>used\<close>, which
  always has one flag per certificate (the first branch is never taken).
\<close>

function walk :: "x509_lib \<Rightarrow> x509_cert \<Rightarrow> x509_cert list \<Rightarrow> bool list \<Rightarrow> x509_cert list \<times> bool list" where
  "walk L current rest used =
     (if length used \<noteq> length rest then ([], used)
      else (case findIssuer L current rest used of
         None \<Rightarrow> ([], used)
       | Some idx \<Rightarrow>
           if isSelfSigned L (rest ! idx) then ([rest ! idx], used[idx := True])
           else (let (ordered, used') = walk L (rest ! idx) rest (used[idx := True])
                 in (rest ! idx # ordered, used'))))"
  by pat_completeness auto

lemma count_False_update:
  "k < length used \<Longrightarrow> \<not> used ! k \<Longrightarrow>
     length (filter Not (used[k := True])) < length (filter Not used)"
proof (induction used arbitrary: k)
  case (Cons u used)
  then show ?case by (cases k) auto
qed simp

lemma walk_measure:
  assumes "findIssuer L current rest used = Some k" and "length used = length rest"
  shows "length (filter Not (used[k := True])) < length (filter Not used)"
  using findIssuer_Some [OF assms] assms(2) by (simp add: count_False_update)

termination walk
  by (relation "measure (\<lambda>(L, current, rest, used). length (filter Not used))")
     (auto intro: walk_measure)

declare walk.simps [simp del]

definition orderChain :: "x509_lib \<Rightarrow> x509_cert \<Rightarrow> x509_cert list \<Rightarrow> x509_cert list" where
  "orderChain L leaf rest =
     (if rest = [] then []
      else let (ordered, used) = walk L leaf rest (replicate (length rest) False);
               orphans = map fst (filter (\<lambda>(cert, u). \<not> u) (zip rest used))
           in ordered @ sort_key x_Raw orphans)"

definition ParseBundle :: "x509_lib \<Rightarrow> bytes \<Rightarrow> bytes \<Rightarrow> cert_bundle go_result" where
  "ParseBundle L certPEM keyPEM =
     res_bind (parseCertificates L certPEM) (\<lambda>certs.
     res_bind (ParsePrivateKey L keyPEM) (\<lambda>key.
     res_bind (selectLeaf L certs key) (\<lambda>(leaf, rest).
       Inr \<lparr>bd_Leaf = leaf, bd_Chain = orderChain L leaf rest, bd_PrivateKey = key\<rparr>)))"

section \<open>The walk keeps and links every certificate it takes\<close>

definition unused :: "x509_cert list \<Rightarrow> bool list \<Rightarrow> x509_cert list" where
  "unused rest used = map fst (filter (\<lambda>(cert, u). \<not> u) (zip rest used))"

lemma mset_unused_update:
  "length used = length rest \<Longrightarrow> k < length rest \<Longrightarrow> \<not> used ! k \<Longrightarrow>
     mset (unused rest used) = add_mset (rest ! k) (mset (unused rest (used[k := True])))"
proof (induction used arbitrary: rest k)
  case (Cons u used)
  then obtain r rs where "rest = r # rs" by (cases rest) auto
  with Cons show ?case by (cases k) (auto simp: unused_def)
qed simp

lemma unused_all [simp]: "unused rest (replicate (length rest) False) = rest"
  by (induction rest) (auto simp: unused_def)

text \<open>
  \<open>linked\<close>: each certificate names the next one as its issuer. A walk ends at a root, or
  where no certificate that is left has the issuer's name.
\<close>

fun linked :: "x509_cert \<Rightarrow> x509_cert list \<Rightarrow> bool" where
  "linked current [] = True"
| "linked current (c # cs) = (x_RawIssuer current = x_RawSubject c \<and> linked c cs)"

definition walk_ends :: "x509_lib \<Rightarrow> x509_cert list \<Rightarrow> x509_cert list \<Rightarrow> bool" where
  "walk_ends L path left =
     (isSelfSigned L (last path) \<and> 1 < length path \<or>
      list_all (\<lambda>c. x_RawIssuer (last path) \<noteq> x_RawSubject c) left)"

lemma walk_spec:
  assumes "walk L current rest used = (ordered, used')" and "length used = length rest"
  shows "length used' = length rest \<and> mset ordered + mset (unused rest used') = mset (unused rest used) \<and>
         linked current ordered \<and> walk_ends L (current # ordered) (unused rest used')"
  using assms
proof (induction L current rest used arbitrary: ordered rule: walk.induct)
  case (1 L current rest used)
  show ?case
  proof (cases "findIssuer L current rest used")
    case None
    then have "ordered = []" "used' = used" using "1.prems" by (simp_all add: walk.simps)
    moreover have "list_all (\<lambda>c. x_RawIssuer current \<noteq> x_RawSubject c) (unused rest used)"
      using None "1.prems"(2) by (fastforce simp: findIssuer_None list_all_iff unused_def set_zip)
    ultimately show ?thesis using "1.prems"(2) by (simp add: walk_ends_def)
  next
    case (Some k)
    note k = findIssuer_Some [OF Some "1.prems"(2)]
    note u = mset_unused_update [OF "1.prems"(2) k(1,2)]
    show ?thesis
    proof (cases "isSelfSigned L (rest ! k)")
      case True
      then have "ordered = [rest ! k]" "used' = used[k := True]"
        using Some "1.prems" by (simp_all add: walk.simps)
      then show ?thesis using "1.prems"(2) k u True by (simp add: walk_ends_def)
    next
      case False
      obtain o1 where w: "walk L (rest ! k) rest (used[k := True]) = (o1, used')"
        and o: "ordered = rest ! k # o1"
        using Some False "1.prems" by (auto simp: walk.simps [of L current] split: prod.splits)
      have "length used' = length rest \<and>
         mset o1 + mset (unused rest used') = mset (unused rest (used[k := True])) \<and>
         linked (rest ! k) o1 \<and> walk_ends L (rest ! k # o1) (unused rest used')"
        by (rule "1.IH" [OF _ Some False w]) (use "1.prems"(2) in simp_all)
      then show ?thesis using o k u by (auto simp: walk_ends_def)
    qed
  qed
qed

lemma orderChain_split:
  obtains ordered orphans where "orderChain L leaf rest = ordered @ sort_key x_Raw orphans"
    and "mset ordered + mset orphans = mset rest" and "linked leaf ordered"
    and "walk_ends L (leaf # ordered) orphans"
proof (cases "rest = []")
  case True
  then show ?thesis using that [of "[]" "[]"] by (simp add: orderChain_def walk_ends_def)
next
  case False
  obtain ordered used where w: "walk L leaf rest (replicate (length rest) False) = (ordered, used)"
    by fastforce
  then have "orderChain L leaf rest = ordered @ sort_key x_Raw (unused rest used)"
    using False by (simp add: orderChain_def unused_def)
  then show ?thesis using that walk_spec [OF w] by simp
qed

lemma mset_orderChain: "mset (orderChain L leaf rest) = mset rest"
  using orderChain_split [of L leaf rest] by (metis mset_append mset_sort)

section \<open>What a parsed bundle is\<close>

lemma ParsePrivateKey_Inr:
  "ParsePrivateKey L rest = Inr key \<Longrightarrow> signer_Public L key \<noteq> None"
proof (induction L rest rule: ParsePrivateKey.induct)
  case (1 L rest)
  then show ?case
    by (subst (asm) ParsePrivateKey.simps)
       (auto split: if_splits option.splits prod.splits private_key.splits)
qed

lemma selectLeaf_Inr:
  "selectLeaf L certs key = Inr (leaf, rest) \<Longrightarrow>
     mset (leaf # rest) = mset certs \<and> signer_Public L key = Some (x_PublicKey leaf)"
  using select_loop_Inr [of _ "[]" certs leaf rest]
  by (auto simp: selectLeaf_def publicKeysEqual_def split: option.splits)

lemma ParseBundle_Inr:
  assumes "ParseBundle L certPEM keyPEM = Inr b"
  obtains certs rest where "parseCertificates L certPEM = Inr certs"
    and "ParsePrivateKey L keyPEM = Inr (bd_PrivateKey b)"
    and "mset (bd_Leaf b # rest) = mset certs" and "bd_Chain b = orderChain L (bd_Leaf b) rest"
    and "signer_Public L (bd_PrivateKey b) = Some (x_PublicKey (bd_Leaf b))"
  using assms that by (auto simp: ParseBundle_def res_bind_Inr_iff dest: selectLeaf_Inr)

section \<open>A concrete library\<close>

text \<open>
  A library on which examples evaluate. A PEM file is a sequence of two-byte blocks, a kind
  and a digit; certificate \<open>n\<close> belongs to key \<open>n\<close> and was issued by certificate
  \<open>n - 1\<close>, and 0 is a root.
\<close>

definition toy_name :: "nat \<Rightarrow> bytes" where
  "toy_name n = ''CN='' @ nat_decimal n"

definition toy_cert :: "nat \<Rightarrow> x509_cert" where
  "toy_cert n =
     \<lparr> x_Raw = ''cert'' @ nat_decimal n, x_RawIssuer = toy_name (n - 1), x_RawSubject = toy_name n,
       x_DNSNames = [''*.x.com'', ''x.com''], x_NotBefore = 1000, x_NotAfter = 5000,
       x_SerialNumber = Some n, x_PublicKey = RSAPub (nat_decimal n) \<rparr>"

definition toy_digit :: "bytes \<Rightarrow> nat" where
  "toy_digit b = (case b of [] \<Rightarrow> 0 | c # _ \<Rightarrow> of_char c - 48)"

definition toy_x509 :: x509_lib where
  "toy_x509 =
     \<lparr> pem_next = (\<lambda>s. case s of k # d # _ \<Rightarrow>
         Some (\<lparr>pb_Type = (if k = CHR ''C'' then ''CERTIFICATE'' else ''PRIVATE KEY''), pb_Bytes = [d]\<rparr>, 1)
         | _ \<Rightarrow> None),
       ParseCertificate = (\<lambda>b. Inr (toy_cert (toy_digit b))),
       ParsePKCS8PrivateKey = (\<lambda>b. Inr (RSAKey (nat_decimal (toy_digit b)))),
       ParsePKCS1PrivateKey = (\<lambda>b. Inl (EText ''not PKCS 1'')),
       ParseECPrivateKey = (\<lambda>b. Inl (EText ''not SEC 1'')),
       public_part = id,
       CheckSignatureFrom = (\<lambda>c d. x_RawIssuer c = x_RawSubject d) \<rparr>"

text \<open>The key of certificate 3, and the certificates out of order.\<close>

definition toy_bundle :: cert_bundle where
  "toy_bundle =
     \<lparr> bd_Leaf = toy_cert 3, bd_Chain = [toy_cert 2, toy_cert 1, toy_cert 0, toy_cert 7],
       bd_PrivateKey = RSAKey ''3'' \<rparr>"

lemma toy_bundle_eq: "ParseBundle toy_x509 ''C1C0C7C3C2'' ''K3'' = Inr toy_bundle"
  by code_simp

section \<open>Properties\<close>

text \<open>
  C9. A parsed bundle has the leaf that belongs to the private key, whatever its place in the
  input, and its leaf and chain are the certificates of the input: none is lost, none is
  invented and none is doubled.
\<close>
theorem ParseBundle_keeps_certificates:
  assumes "ParseBundle L certPEM keyPEM = Inr b" and "parseCertificates L certPEM = Inr certs"
  shows "signer_Public L (bd_PrivateKey b) = Some (x_PublicKey (bd_Leaf b)) \<and>
         mset (bd_Leaf b # bd_Chain b) = mset certs"
  using assms by (auto elim!: ParseBundle_Inr simp: mset_orderChain)

lemma ParseBundle_keeps_certificates_witness:
  "mset (bd_Leaf toy_bundle # bd_Chain toy_bundle) =
     mset [toy_cert 1, toy_cert 0, toy_cert 7, toy_cert 3, toy_cert 2]"
proof -
  have "parseCertificates toy_x509 ''C1C0C7C3C2'' =
      Inr [toy_cert 1, toy_cert 0, toy_cert 7, toy_cert 3, toy_cert 2]" by code_simp
  from ParseBundle_keeps_certificates [OF toy_bundle_eq this] show ?thesis by simp
qed

text \<open>
  C10. The chain is in issuer order: it is a path from the leaf in which each certificate is
  named by the one before it as its issuer, followed by the certificates that do not link in,
  sorted by their bytes. The path goes as far as it can: it ends at a self-signed certificate
  or where none of the others has the issuer's name.
\<close>
theorem orderChain_issuer_order:
  "\<exists>path orphans. orderChain L leaf rest = path @ orphans \<and> mset (path @ orphans) = mset rest \<and>
     linked leaf path \<and> sorted (map x_Raw orphans) \<and> walk_ends L (leaf # path) orphans"
proof -
  obtain path orphans where p: "orderChain L leaf rest = path @ sort_key x_Raw orphans"
    "mset path + mset orphans = mset rest" "linked leaf path" "walk_ends L (leaf # path) orphans"
    by (rule orderChain_split)
  then have "walk_ends L (leaf # path) (sort_key x_Raw orphans)"
    by (simp add: walk_ends_def list_all_iff)
  with p show ?thesis by (intro exI [of _ path] exI [of _ "sort_key x_Raw orphans"]) simp
qed

text \<open>
  Parsing fails with a domain error that says why: no certificate, no key, a key of an
  unsupported type, or a key that none of the certificates has; only a certificate that does
  not parse gives an error of its own.
\<close>
theorem ParseBundle_errors:
  assumes "ParseBundle L certPEM keyPEM = Inl e"
  shows "errors_Is e ErrNoCertificates \<or> errors_Is e ErrNoPrivateKey \<or> errors_Is e ErrUnsupportedKey \<or>
         errors_Is e ErrKeyMismatch \<or> (\<exists>err. e = Errorf ''parsing certificate: %w'' [AErr err])"
proof -
  have c: "parse_certs_loop L cs rest = Inl e \<Longrightarrow> \<exists>err. e = Errorf ''parsing certificate: %w'' [AErr err]"
    for cs rest
  proof (induction L cs rest rule: parse_certs_loop.induct)
    case (1 L certs rest)
    from "1.prems" show ?case
      by (subst (asm) parse_certs_loop.simps)
         (use "1.IH" in \<open>fastforce split: if_splits option.splits prod.splits sum.splits\<close>)
  qed
  have k: "ParsePrivateKey L rest = Inl e \<Longrightarrow> errors_Is e ErrNoPrivateKey \<or> errors_Is e ErrUnsupportedKey"
    for rest
  proof (induction L rest rule: ParsePrivateKey.induct)
    case (1 L rest)
    from "1.prems" show ?case
      by (subst (asm) ParsePrivateKey.simps)
         (use "1.IH" in \<open>fastforce split: if_splits option.splits prod.splits private_key.splits\<close>)
  qed
  show ?thesis
    using assms c k
    by (auto simp: ParseBundle_def res_bind_Inl_iff parseCertificates_def selectLeaf_def
        select_loop_Inl split: sum.splits if_splits option.splits)
qed

lemma ParseBundle_errors_witness:
  "errors_Is (EDomain ErrKeyMismatch) ErrNoCertificates \<or> errors_Is (EDomain ErrKeyMismatch) ErrNoPrivateKey \<or>
   errors_Is (EDomain ErrKeyMismatch) ErrUnsupportedKey \<or> errors_Is (EDomain ErrKeyMismatch) ErrKeyMismatch \<or>
   (\<exists>err. EDomain ErrKeyMismatch = Errorf ''parsing certificate: %w'' [AErr err])"
proof -
  have "ParseBundle toy_x509 ''C1C0'' ''K3'' = Inl (EDomain ErrKeyMismatch)" by code_simp
  then show ?thesis by (rule ParseBundle_errors)
qed

end
