(* ===== verification/Decide.thy ===== *)
theory Decide
  imports Chain
begin

text \<open>
  Whether a certificate has to be imported (\<open>internal/domain/decide.go\<close>).
\<close>

section \<open>Data\<close>

datatype action = ActionNone | ActionImport

lemma not_ActionNone [simp]: "a \<noteq> ActionNone \<longleftrightarrow> a = ActionImport"
  by (cases a) auto

fun action_text :: "action \<Rightarrow> string" where
  "action_text ActionNone = ''None''"
| "action_text ActionImport = ''Import''"

definition ReasonAbsentInVault :: string where
  "ReasonAbsentInVault = ''AbsentInVault''"

definition ReasonLeafChanged :: string where
  "ReasonLeafChanged = ''LeafChanged''"

definition ReasonChainChanged :: string where
  "ReasonChainChanged = ''ChainChanged''"

definition ReasonUpToDate :: string where
  "ReasonUpToDate = ''UpToDate''"

definition ReasonExpiryRegression :: string where
  "ReasonExpiryRegression = ''ExpiryRegression''"

definition ReasonDisabledInVault :: string where
  "ReasonDisabledInVault = ''DisabledInVault''"

lemmas decide_reasons =
  ReasonAbsentInVault_def ReasonLeafChanged_def ReasonChainChanged_def ReasonUpToDate_def
  ReasonExpiryRegression_def ReasonDisabledInVault_def

record vault_snapshot =
  sn_Exists :: bool
  sn_Thumbprint :: bytes
  sn_ChainDigest :: string
  sn_Enabled :: bool
  sn_NotAfter :: time

text \<open>The zero value of \<open>VaultSnapshot\<close>, which also stands for a missing certificate.\<close>

definition absent_snapshot :: vault_snapshot where
  "absent_snapshot =
     \<lparr>sn_Exists = False, sn_Thumbprint = [], sn_ChainDigest = [], sn_Enabled = False, sn_NotAfter = 0\<rparr>"

record decision =
  dc_Action :: action
  dc_Reason :: string
  dc_Warning :: string
  dc_WarningReason :: string

section \<open>The decision\<close>

definition disabled_warning :: string where
  "disabled_warning =
     ''the certificate in Key Vault is disabled, so Application Gateway cannot serve it; '' @
     ''re-enable it, or delete it to have this operator import a fresh version''"

text \<open>The desired bundle is a pointer: \<open>None\<close> is \<open>nil\<close>.\<close>

definition DecideSync :: "platform \<Rightarrow> cert_bundle option \<Rightarrow> vault_snapshot \<Rightarrow> time \<Rightarrow> decision go_result" where
  "DecideSync P desired snap now =
     (case desired of
        None \<Rightarrow> Inl (EDomain ErrNoCertificates)
      | Some b \<Rightarrow>
          (case Validate b now of
             Inl err \<Rightarrow> Inl err
           | Inr _ \<Rightarrow>
               if \<not> sn_Exists snap
               then Inr \<lparr>dc_Action = ActionImport, dc_Reason = ReasonAbsentInVault,
                         dc_Warning = [], dc_WarningReason = []\<rparr>
               else
                 let (warning, warningReason) =
                       (if \<not> IsZero (sn_NotAfter snap) \<and> bundle_NotAfter b < sn_NotAfter snap
                        then (sprintf P ''source certificate expires %s, earlier than the one already in Key Vault (%s)''
                                [format_RFC3339 (bundle_NotAfter b), format_RFC3339 (sn_NotAfter snap)],
                              ReasonExpiryRegression)
                        else ([], []));
                     (warning, warningReason) =
                       (if \<not> sn_Enabled snap then (disabled_warning, ReasonDisabledInVault)
                        else (warning, warningReason))
                 in if sn_Thumbprint snap \<noteq> Thumbprint P b
                    then Inr \<lparr>dc_Action = ActionImport, dc_Reason = ReasonLeafChanged,
                              dc_Warning = warning, dc_WarningReason = warningReason\<rparr>
                    else if sn_ChainDigest snap \<noteq> ChainDigest P b
                    then Inr \<lparr>dc_Action = ActionImport, dc_Reason = ReasonChainChanged,
                              dc_Warning = warning, dc_WarningReason = warningReason\<rparr>
                    else Inr \<lparr>dc_Action = ActionNone, dc_Reason = ReasonUpToDate,
                              dc_Warning = warning, dc_WarningReason = warningReason\<rparr>))"

section \<open>Lemmas\<close>

text \<open>The vault holds the bundle: the leaf's thumbprint and the digest of the whole chain agree.\<close>

definition holds_bundle :: "platform \<Rightarrow> vault_snapshot \<Rightarrow> cert_bundle \<Rightarrow> bool" where
  "holds_bundle P snap b =
     (sn_Exists snap \<and> sn_Thumbprint snap = Thumbprint P b \<and> sn_ChainDigest snap = ChainDigest P b)"

definition import_case :: "platform \<Rightarrow> cert_bundle \<Rightarrow> vault_snapshot \<Rightarrow> action \<times> string" where
  "import_case P b snap =
     (if \<not> sn_Exists snap then (ActionImport, ReasonAbsentInVault)
      else if sn_Thumbprint snap \<noteq> Thumbprint P b then (ActionImport, ReasonLeafChanged)
      else if sn_ChainDigest snap \<noteq> ChainDigest P b then (ActionImport, ReasonChainChanged)
      else (ActionNone, ReasonUpToDate))"

definition regression_warning :: "platform \<Rightarrow> cert_bundle \<Rightarrow> vault_snapshot \<Rightarrow> string" where
  "regression_warning P b snap =
     sprintf P ''source certificate expires %s, earlier than the one already in Key Vault (%s)''
       [format_RFC3339 (bundle_NotAfter b), format_RFC3339 (sn_NotAfter snap)]"

definition warning_case :: "platform \<Rightarrow> cert_bundle \<Rightarrow> vault_snapshot \<Rightarrow> string \<times> string" where
  "warning_case P b snap =
     (if \<not> sn_Exists snap then ([], [])
      else if \<not> sn_Enabled snap then (disabled_warning, ReasonDisabledInVault)
      else if \<not> IsZero (sn_NotAfter snap) \<and> bundle_NotAfter b < sn_NotAfter snap
      then (regression_warning P b snap, ReasonExpiryRegression)
      else ([], []))"

text \<open>The decision, taken apart into its action and its warning.\<close>

lemma DecideSync_eq:
  "DecideSync P (Some b) snap now =
     res_bind (Validate b now) (\<lambda>_. Inr
       \<lparr>dc_Action = fst (import_case P b snap), dc_Reason = snd (import_case P b snap),
        dc_Warning = fst (warning_case P b snap), dc_WarningReason = snd (warning_case P b snap)\<rparr>)"
  by (cases "Validate b now"; cases "sn_Exists snap"; cases "sn_Enabled snap";
      cases "\<not> IsZero (sn_NotAfter snap) \<and> bundle_NotAfter b < sn_NotAfter snap")
     (simp_all add: DecideSync_def import_case_def warning_case_def regression_warning_def)

lemma DecideSync_error_iff: "DecideSync P (Some b) snap now = Inl e \<longleftrightarrow> Validate b now = Inl e"
  by (simp add: DecideSync_eq res_bind_Inl_iff)

lemma import_case_None: "fst (import_case P b snap) = ActionNone \<longleftrightarrow> holds_bundle P snap b"
  by (simp add: import_case_def holds_bundle_def)

lemma DecideSync_action:
  "DecideSync P (Some b) snap now = Inr d \<Longrightarrow> dc_Action d = ActionNone \<longleftrightarrow> holds_bundle P snap b"
  by (auto simp: DecideSync_eq res_bind_Inr_iff import_case_None)

lemma DecideSync_Inr: "(\<exists>d. DecideSync P (Some b) snap now = Inr d) \<longleftrightarrow> Validate b now = Inr ()"
  by (simp add: DecideSync_eq res_bind_Inr_iff)

section \<open>Properties\<close>

text \<open>
  C14. The decision is complete and exact: it is an error exactly when the bundle may not be
  imported at this time (expired, not yet valid, or without a DNS name); otherwise nothing is
  imported exactly when the vault holds this leaf and this chain, and the reason says which
  of the four cases it is.
\<close>
theorem DecideSync_exact:
  "(case DecideSync P (Some b) snap now of
      Inl e \<Rightarrow> \<not> (bundle_NotBefore b \<le> now \<and> now \<le> bundle_NotAfter b \<and> bundle_DNSNames b \<noteq> [])
    | Inr d \<Rightarrow> bundle_NotBefore b \<le> now \<and> now \<le> bundle_NotAfter b \<and> bundle_DNSNames b \<noteq> [] \<and>
        (dc_Action d = ActionNone) = holds_bundle P snap b \<and>
        (dc_Reason d = ReasonAbsentInVault) = (\<not> sn_Exists snap) \<and>
        (dc_Reason d = ReasonLeafChanged) = (sn_Exists snap \<and> sn_Thumbprint snap \<noteq> Thumbprint P b) \<and>
        (dc_Reason d = ReasonChainChanged) =
          (sn_Exists snap \<and> sn_Thumbprint snap = Thumbprint P b \<and> sn_ChainDigest snap \<noteq> ChainDigest P b) \<and>
        (dc_Reason d = ReasonUpToDate) = holds_bundle P snap b)"
proof (cases "Validate b now")
  case (Inl e)
  then have "\<not> (bundle_NotBefore b \<le> now \<and> now \<le> bundle_NotAfter b \<and> bundle_DNSNames b \<noteq> [])"
    using bundle_Validate_iff [of b now "()"] by simp
  with Inl show ?thesis by (simp add: DecideSync_eq)
next
  case (Inr u)
  then have "bundle_NotBefore b \<le> now \<and> now \<le> bundle_NotAfter b \<and> bundle_DNSNames b \<noteq> []"
    using bundle_Validate_iff by blast
  with Inr show ?thesis
    by (simp add: DecideSync_eq import_case_def holds_bundle_def decide_reasons)
qed

text \<open>
  A warning accompanies a decision exactly when the certificate in the vault is disabled, or
  is enabled and expires later than the one in the cluster; disablement wins, and the warning
  is independent of the action.
\<close>
theorem DecideSync_warning:
  assumes "DecideSync P (Some b) snap now = Inr d"
  shows "dc_WarningReason d =
     (if \<not> sn_Exists snap then []
      else if \<not> sn_Enabled snap then ReasonDisabledInVault
      else if sn_NotAfter snap \<noteq> 0 \<and> bundle_NotAfter b < sn_NotAfter snap then ReasonExpiryRegression
      else []) \<and>
     (dc_Warning d = [] \<longleftrightarrow> dc_WarningReason d = [])"
proof -
  have "regression_warning P b snap \<noteq> []" by (simp add: regression_warning_def)
  then show ?thesis
    using assms
    by (auto simp: DecideSync_eq res_bind_Inr_iff warning_case_def IsZero_def decide_reasons disabled_warning_def)
qed

text \<open>
  The warning of a disabled version is given although another one is imported, which the vault
  enables.
\<close>

lemma disabled_yet_imported:
  assumes "Validate b now = Inr ()" and "sn_Exists snap" and "\<not> sn_Enabled snap" and "sn_Thumbprint snap \<noteq> Thumbprint P b"
  shows "\<exists>d. DecideSync P (Some b) snap now = Inr d \<and> dc_Action d = ActionImport \<and> dc_WarningReason d = ReasonDisabledInVault"
  using assms by (simp add: DecideSync_def Let_def)

definition stale_snapshot :: vault_snapshot where
  "stale_snapshot =
     \<lparr>sn_Exists = True, sn_Thumbprint = ''old'', sn_ChainDigest = ''old'', sn_Enabled = True,
      sn_NotAfter = 9000\<rparr>"

lemma DecideSync_warning_witness:
  "case DecideSync sample_platform (Some toy_bundle) stale_snapshot 2000 of
     Inl e \<Rightarrow> False | Inr d \<Rightarrow> dc_WarningReason d = ReasonExpiryRegression"
proof -
  have "Validate toy_bundle 2000 = Inr ()"
    by (simp add: bundle_Validate_iff bundle_NotBefore_def bundle_NotAfter_def bundle_DNSNames_def
        toy_bundle_def toy_cert_def)
  then obtain d where d: "DecideSync sample_platform (Some toy_bundle) stale_snapshot 2000 = Inr d"
    using DecideSync_Inr by blast
  from DecideSync_warning [OF d] d show ?thesis
    by (simp add: stale_snapshot_def toy_bundle_def toy_cert_def bundle_NotAfter_def)
qed

end
