(* ===== verification/Ports.thy ===== *)
theory Ports
  imports GoIO Decide
begin

text \<open>
  The ports of the use cases (\<open>internal/app/ports.go\<close>): what identifies a certificate on
  either side, the tags an import carries, and the interfaces, each a record of functions of a
  world, with the contract of each as a locale.
\<close>

section \<open>References\<close>

record secret_ref =
  sr_Namespace :: string
  sr_Name :: string

definition secret_ref_String :: "secret_ref \<Rightarrow> string" where
  "secret_ref_String r = sr_Namespace r @ ''/'' @ sr_Name r"

record vault_ref =
  vr_VaultURL :: string
  vr_CertificateName :: string

definition SecretIdentifier :: "vault_ref \<Rightarrow> string" where
  "SecretIdentifier r = TrimSuffix (vr_VaultURL r) ''/'' @ ''/secrets/'' @ vr_CertificateName r"

section \<open>Tags and content type\<close>

definition TagManagedBy :: string where "TagManagedBy = ''managed-by''"
definition TagManagedByValue :: string where "TagManagedByValue = ''keyvault-certoperator''"
definition TagSourceNamespace :: string where "TagSourceNamespace = ''source-namespace''"
definition TagSourceSecret :: string where "TagSourceSecret = ''source-secret''"
definition TagChainDigest :: string where "TagChainDigest = ''chain-sha256''"
definition TagNotAfter :: string where "TagNotAfter = ''not-after''"
definition TagSerial :: string where "TagSerial = ''serial''"

lemmas tag_defs =
  TagManagedBy_def TagSourceNamespace_def TagSourceSecret_def TagChainDigest_def TagNotAfter_def TagSerial_def

definition ContentTypePKCS12 :: string where
  "ContentTypePKCS12 = ''application/x-pkcs12''"

section \<open>Interfaces\<close>

record import_request =
  ir_Blob :: bytes
  ir_Password :: string
  ir_ContentType :: string
  ir_Tags :: "(string \<times> string) list"

record import_result =
  im_Version :: string
  im_Thumbprint :: bytes

type_synonym 'w certificate_source = "secret_ref \<Rightarrow> ('w, cert_bundle) io"

record 'w vault_repository =
  vp_Snapshot :: "vault_ref \<Rightarrow> ('w, vault_snapshot) io"
  vp_Import :: "vault_ref \<Rightarrow> import_request \<Rightarrow> ('w, import_result) io"

record 'w encoder =
  en_Encode :: "cert_bundle option \<Rightarrow> ('w, bytes \<times> string) io"
  en_ContentType :: string

type_synonym 'w host_source = "('w, string list) io"

type_synonym 'w clock = "'w \<Rightarrow> time \<times> 'w"

section \<open>Contracts\<close>

text \<open>
  The contract of a vault repository, in the worlds that satisfy its invariant \<open>wf\<close> and on
  the references it serves (\<open>served\<close>), over a view of what the vault holds under a
  reference. A snapshot reports that view and changes nothing; an import that succeeds makes
  the vault hold the leaf of the uploaded archive, enabled, with the tags of the request, and
  leaves every other reference alone; one that fails changes nothing. \<open>archive_leaf\<close> is what
  a reader of the archive finds.
\<close>

locale vault_contract =
  fixes P :: platform
    and vault :: "'w vault_repository"
    and wf :: "'w \<Rightarrow> bool"
    and served :: "vault_ref \<Rightarrow> bool"
    and view :: "'w \<Rightarrow> vault_ref \<Rightarrow> vault_snapshot"
    and archive_leaf :: "bytes \<Rightarrow> string \<Rightarrow> x509_cert option"
  assumes snapshot_view:
      "wf w \<Longrightarrow> served ref \<Longrightarrow> vp_Snapshot vault ref w = (r, w') \<Longrightarrow>
         wf w' \<and> view w' = view w \<and> (\<forall>sn. r = Inr sn \<longrightarrow> sn = view w ref)"
    and import_failed:
      "wf w \<Longrightarrow> served ref \<Longrightarrow> vp_Import vault ref rq w = (Inl e, w') \<Longrightarrow> wf w' \<and> view w' = view w"
    and import_stores:
      "wf w \<Longrightarrow> served ref \<Longrightarrow> vp_Import vault ref rq w = (Inr res, w') \<Longrightarrow>
         wf w' \<and> (\<exists>leaf. archive_leaf (ir_Blob rq) (ir_Password rq) = Some leaf \<and>
           sn_Exists (view w' ref) \<and> sn_Enabled (view w' ref) \<and>
           sn_Thumbprint (view w' ref) = sha1_Sum P (x_Raw leaf) \<and>
           sn_ChainDigest (view w' ref) =
             (case map_of (ir_Tags rq) TagChainDigest of None \<Rightarrow> [] | Some d \<Rightarrow> d))"
    and import_frame:
      "wf w \<Longrightarrow> served ref \<Longrightarrow> vp_Import vault ref rq w = (Inr res, w') \<Longrightarrow>
         served ref' \<Longrightarrow> ref' \<noteq> ref \<Longrightarrow> view w' ref' = view w ref'"

text \<open>
  The contract of an encoder: it touches nothing the vault's view depends on, and a reader of
  the archive finds the leaf of the bundle.
\<close>

locale encoder_contract =
  fixes enc :: "'w encoder"
    and wf :: "'w \<Rightarrow> bool"
    and view :: "'w \<Rightarrow> vault_ref \<Rightarrow> vault_snapshot"
    and archive_leaf :: "bytes \<Rightarrow> string \<Rightarrow> x509_cert option"
  assumes encode_leaf:
      "en_Encode enc (Some b) w = (Inr (blob, pw), w') \<Longrightarrow> archive_leaf blob pw = Some (bd_Leaf b)"
    and encode_keeps: "wf w \<Longrightarrow> en_Encode enc ob w = (r, w') \<Longrightarrow> wf w' \<and> view w' = view w"

text \<open>The contract of a source of certificates and of a clock: they only read.\<close>

locale reader_contract =
  fixes source :: "'w certificate_source"
    and clock :: "'w clock"
    and wf :: "'w \<Rightarrow> bool"
    and view :: "'w \<Rightarrow> vault_ref \<Rightarrow> vault_snapshot"
  assumes load_keeps: "wf w \<Longrightarrow> source ref w = (r, w') \<Longrightarrow> wf w' \<and> view w' = view w"
    and clock_keeps: "wf w \<Longrightarrow> clock w = (t, w') \<Longrightarrow> wf w' \<and> view w' = view w"

text \<open>The contract of a source of host names: the routed hosts, sorted, each once, none blank.\<close>

locale host_contract =
  fixes source :: "'w host_source"
    and routed :: "'w \<Rightarrow> string set"
  assumes hosts_exact:
      "source w = (Inr hosts, w') \<Longrightarrow> sorted hosts \<and> distinct hosts \<and> set hosts = routed w - {[]}"

end
