(* ===== verification/Syncer.thy ===== *)
theory Syncer
  imports Ports VaultName
begin

text \<open>
  The sync workflow (\<open>internal/app/syncer.go\<close>): from a Secret to a certificate in Key Vault.
\<close>

section \<open>Data\<close>

record sync_request =
  rq_Source :: secret_ref
  rq_Vault :: vault_ref

record sync_outcome =
  so_Action :: action
  so_Reason :: string
  so_Warning :: string
  so_WarningReason :: string
  so_CertificateName :: string
  so_Thumbprint :: string
  so_ChainDigest :: string
  so_NotAfter :: time
  so_DNSNames :: "string list"
  so_Version :: string
  so_SecretIdentifier :: string

record 'w syncer =
  sy_Source :: "'w certificate_source"
  sy_Vault :: "'w vault_repository"
  sy_Encode :: "'w encoder"
  sy_Clock :: "'w clock"

section \<open>Operations\<close>

definition tagsFor :: "platform \<Rightarrow> sync_request \<Rightarrow> cert_bundle \<Rightarrow> (string \<times> string) list" where
  "tagsFor P req b =
     [(TagManagedBy, TagManagedByValue),
      (TagSourceNamespace, sr_Namespace (rq_Source req)),
      (TagSourceSecret, sr_Name (rq_Source req)),
      (TagChainDigest, ChainDigest P b),
      (TagNotAfter, format_RFC3339 (bundle_NotAfter b)),
      (TagSerial, SerialHex b)]"

text \<open>The Key Vault name: the one of the request, or one derived from the certificate.\<close>

definition sync_name :: "platform \<Rightarrow> sync_request \<Rightarrow> cert_bundle \<Rightarrow> string go_result" where
  "sync_name P req b =
     (if vr_CertificateName (rq_Vault req) = []
      then (case DeriveVaultCertificateName P (PrimaryDNSName P (bundle_DNSNames b)) of
              Inl err \<Rightarrow> Inl (Errorf ''deriving a Key Vault certificate name for %s: %w''
                               [AStr (secret_ref_String (rq_Source req)), AErr err])
            | Inr derived \<Rightarrow> Inr derived)
      else Inr (vr_CertificateName (rq_Vault req)))"

definition Sync :: "platform \<Rightarrow> 'w syncer \<Rightarrow> sync_request \<Rightarrow> ('w, sync_outcome) io" where
  "Sync P s req =
     io_bind (io_wrap (\<lambda>err. Errorf ''loading certificate from %s: %w''
                          [AStr (secret_ref_String (rq_Source req)), AErr err])
                (sy_Source s (rq_Source req))) (\<lambda>bundle.
     io_bind (io_lift (sync_name P req bundle)) (\<lambda>name.
     let req = req\<lparr>rq_Vault := (rq_Vault req)\<lparr>vr_CertificateName := name\<rparr>\<rparr> in
     io_bind (io_lift (ValidateVaultCertificateName (vr_CertificateName (rq_Vault req)))) (\<lambda>_.
     io_bind (io_wrap (\<lambda>err. Errorf ''reading %s from Key Vault: %w''
                          [AStr (vr_CertificateName (rq_Vault req)), AErr err])
                (vp_Snapshot (sy_Vault s) (rq_Vault req))) (\<lambda>snapshot.
     io_bind (io_effect (sy_Clock s)) (\<lambda>now.
     io_bind (io_lift (DecideSync P (Some bundle) snapshot now)) (\<lambda>decision.
     let outcome =
       \<lparr> so_Action = dc_Action decision, so_Reason = dc_Reason decision,
         so_Warning = dc_Warning decision, so_WarningReason = dc_WarningReason decision,
         so_CertificateName = vr_CertificateName (rq_Vault req),
         so_Thumbprint = ThumbprintHex P bundle, so_ChainDigest = ChainDigest P bundle,
         so_NotAfter = bundle_NotAfter bundle, so_DNSNames = bundle_DNSNames bundle,
         so_Version = [], so_SecretIdentifier = SecretIdentifier (rq_Vault req) \<rparr> in
     if dc_Action decision = ActionNone then io_return outcome
     else
       io_bind (io_wrap (\<lambda>err. Errorf ''encoding certificate: %w'' [AErr err])
                  (en_Encode (sy_Encode s) (Some bundle))) (\<lambda>(blob, password).
       io_bind (io_wrap (\<lambda>err. Errorf ''importing %s into Key Vault: %w''
                            [AStr (vr_CertificateName (rq_Vault req)), AErr err])
                  (vp_Import (sy_Vault s) (rq_Vault req)
                     \<lparr> ir_Blob = blob, ir_Password = password,
                       ir_ContentType = en_ContentType (sy_Encode s), ir_Tags = tagsFor P req bundle \<rparr>)) (\<lambda>result.
       io_return (outcome\<lparr>so_Version := im_Version result\<rparr>)))))))))"

section \<open>A successful run, step by step\<close>

text \<open>The reference that a run uses once it has its name.\<close>

definition named_ref :: "sync_request \<Rightarrow> string \<Rightarrow> vault_ref" where
  "named_ref req name = (rq_Vault req)\<lparr>vr_CertificateName := name\<rparr>"

lemma vr_named [simp]: "vr_CertificateName (named_ref req n) = n"
  by (simp add: named_ref_def)

definition import_of :: "platform \<Rightarrow> 'w syncer \<Rightarrow> sync_request \<Rightarrow> cert_bundle \<Rightarrow> bytes \<Rightarrow> string \<Rightarrow> import_request" where
  "import_of P s req b blob password =
     \<lparr> ir_Blob = blob, ir_Password = password, ir_ContentType = en_ContentType (sy_Encode s),
       ir_Tags = tagsFor P req b \<rparr>"

lemma tagsFor_vault [simp]: "tagsFor P (req\<lparr>rq_Vault := v\<rparr>) b = tagsFor P req b"
  by (simp add: tagsFor_def)

lemma Sync_InrE:
  assumes "Sync P s req w = (Inr out, w')"
  obtains b w1 name sn w2 now w3 d
  where "sy_Source s (rq_Source req) w = (Inr b, w1)"
    and "sync_name P req b = Inr name" and "valid_vault_name name"
    and "vp_Snapshot (sy_Vault s) (named_ref req name) w1 = (Inr sn, w2)"
    and "sy_Clock s w2 = (now, w3)" and "DecideSync P (Some b) sn now = Inr d"
    and "so_Action out = dc_Action d" and "so_CertificateName out = name"
    and "dc_Action d = ActionNone \<longrightarrow> w' = w3"
    and "dc_Action d = ActionImport \<longrightarrow> (\<exists>blob pw w4 res.
           en_Encode (sy_Encode s) (Some b) w3 = (Inr (blob, pw), w4) \<and>
           vp_Import (sy_Vault s) (named_ref req name) (import_of P s req b blob pw) w4 = (Inr res, w'))"
proof -
  obtain b w1 name sn w2 now w3 d
    where l: "sy_Source s (rq_Source req) w = (Inr b, w1)" "sync_name P req b = Inr name"
      "ValidateVaultCertificateName name = Inr ()"
      "vp_Snapshot (sy_Vault s) (named_ref req name) w1 = (Inr sn, w2)"
      "sy_Clock s w2 = (now, w3)" "DecideSync P (Some b) sn now = Inr d"
    using assms by (auto simp: Sync_def io_Inr_iffs Let_def named_ref_def)
  have out: "so_Action out = dc_Action d \<and> so_CertificateName out = name"
    and none: "dc_Action d = ActionNone \<longrightarrow> w' = w3"
    and imp: "dc_Action d = ActionImport \<longrightarrow> (\<exists>blob pw w4 res.
           en_Encode (sy_Encode s) (Some b) w3 = (Inr (blob, pw), w4) \<and>
           vp_Import (sy_Vault s) (named_ref req name) (import_of P s req b blob pw) w4 = (Inr res, w'))"
    using assms l
    by (auto simp: Sync_def io_Inr_iffs Let_def named_ref_def import_of_def split: if_splits)
  show ?thesis
    by (rule that [OF l(1,2) _ l(4-6)]) (use out none imp l(3) in \<open>auto simp: Validate_Inr_iff\<close>)
qed

section \<open>What a sync guarantees\<close>

lemma thumbprint_leaf: "sha1_Sum P (x_Raw (bd_Leaf b)) = Thumbprint P b"
  by (simp add: Thumbprint_def)

lemma tagsFor_digest [simp]: "map_of (tagsFor P req b) TagChainDigest = Some (ChainDigest P b)"
  by (simp add: tagsFor_def tag_defs)

text \<open>The guarantees of a sync over any ports that keep their contracts.\<close>

locale sync_contract =
  vault_contract P vault wf served view archive_leaf + encoder_contract enc wf view archive_leaf +
  reader_contract source clock wf view
  for P vault wf served view archive_leaf and enc :: "'w encoder" and source clock
begin

abbreviation "S \<equiv> \<lparr>sy_Source = source, sy_Vault = vault, sy_Encode = enc, sy_Clock = clock\<rparr>"

lemma Sync_stages:
  assumes "Sync P S req w = (Inr out, w')" and "wf w" and "served (named_ref req (so_CertificateName out))"
  obtains b w1 w3 now d where "source (rq_Source req) w = (Inr b, w1)"
    and "wf w3" and "view w3 = view w"
    and "DecideSync P (Some b) (view w (named_ref req (so_CertificateName out))) now = Inr d"
    and "so_Action out = dc_Action d" and "dc_Action d = ActionNone \<longrightarrow> w' = w3"
    and "dc_Action d = ActionImport \<longrightarrow> (\<exists>blob pw w4 res. archive_leaf blob pw = Some (bd_Leaf b) \<and>
           wf w4 \<and> view w4 = view w \<and>
           vp_Import vault (named_ref req (so_CertificateName out)) (import_of P S req b blob pw) w4 = (Inr res, w'))"
proof -
  obtain b w1 name sn w2 now w3 d
    where s: "source (rq_Source req) w = (Inr b, w1)"
      "sync_name P req b = Inr name" "valid_vault_name name"
      "vp_Snapshot vault (named_ref req name) w1 = (Inr sn, w2)" "clock w2 = (now, w3)"
      "DecideSync P (Some b) sn now = Inr d" "so_Action out = dc_Action d" "so_CertificateName out = name"
      "dc_Action d = ActionNone \<longrightarrow> w' = w3"
      "dc_Action d = ActionImport \<longrightarrow> (\<exists>blob pw w4 res. en_Encode enc (Some b) w3 = (Inr (blob, pw), w4) \<and>
         vp_Import vault (named_ref req name) (import_of P S req b blob pw) w4 = (Inr res, w'))"
    by (rule Sync_InrE [OF assms(1), unfolded syncer.select_convs])
  note k1 = load_keeps [OF assms(2) s(1)]
  have k2: "wf w2 \<and> view w2 = view w1 \<and> sn = view w1 (named_ref req name)"
    using snapshot_view [OF _ _ s(4)] k1 assms(3) s(8) by simp
  note k3 = clock_keeps [OF conjunct1 [OF k2] s(5)]
  show ?thesis
  proof (rule that [OF s(1), of w3 now d], goal_cases)
    case 6
    show ?case
    proof
    assume "dc_Action d = ActionImport"
    then obtain blob pw w4 res where e: "en_Encode enc (Some b) w3 = (Inr (blob, pw), w4)"
      "vp_Import vault (named_ref req name) (import_of P S req b blob pw) w4 = (Inr res, w')"
      using s(10) by blast
    have "wf w4 \<and> view w4 = view w3" by (rule encode_keeps [OF _ e(1)]) (use k3 in simp)
    with e k1 k2 k3 s(8) encode_leaf [OF e(1)] show "\<exists>blob pw w4 res. archive_leaf blob pw = Some (bd_Leaf b) \<and>
           wf w4 \<and> view w4 = view w \<and>
           vp_Import vault (named_ref req (so_CertificateName out)) (import_of P S req b blob pw) w4 = (Inr res, w')"
      by auto
    qed
  qed (use s k1 k2 k3 in auto)
qed

text \<open>After a sync that succeeds, the vault holds the bundle of the Secret.\<close>

lemma Sync_holds:
  assumes "Sync P S req w = (Inr out, w')" and "wf w" and "served (named_ref req (so_CertificateName out))"
    and "source (rq_Source req) w = (Inr b, w1)"
  shows "wf w' \<and> holds_bundle P (view w' (named_ref req (so_CertificateName out))) b"
proof -
  obtain b' w3 now d where s: "source (rq_Source req) w = (Inr b', w1)" "wf w3" "view w3 = view w"
    "DecideSync P (Some b') (view w (named_ref req (so_CertificateName out))) now = Inr d"
    "dc_Action d = ActionNone \<longrightarrow> w' = w3"
    "dc_Action d = ActionImport \<longrightarrow> (\<exists>blob pw w4 res. archive_leaf blob pw = Some (bd_Leaf b') \<and>
       wf w4 \<and> view w4 = view w \<and>
       vp_Import vault (named_ref req (so_CertificateName out)) (import_of P S req b' blob pw) w4 = (Inr res, w'))"
    by (rule Sync_stages [OF assms(1-3)]) (use assms(4) in auto)
  have b: "b' = b" using s(1) assms(4) by simp
  show ?thesis
  proof (cases "dc_Action d")
    case ActionNone
    then show ?thesis using DecideSync_action [OF s(4)] s(2,3,5) b by simp
  next
    case ActionImport
    then obtain blob pw w4 res where i: "archive_leaf blob pw = Some (bd_Leaf b)" "wf w4"
      "vp_Import vault (named_ref req (so_CertificateName out)) (import_of P S req b blob pw) w4 = (Inr res, w')"
      using s(6) b by blast
    show ?thesis
      using import_stores [OF i(2) assms(3) i(3)] i(1)
      by (auto simp: holds_bundle_def import_of_def thumbprint_leaf)
  qed
qed

text \<open>A sync changes nothing in the vault but the certificate it is about.\<close>

lemma Sync_frame:
  assumes "Sync P S req w = (Inr out, w')" and "wf w" and "served (named_ref req (so_CertificateName out))"
    and "served ref" and "ref \<noteq> named_ref req (so_CertificateName out)"
  shows "view w' ref = view w ref"
proof -
  obtain b w1 w3 now d where s: "source (rq_Source req) w = (Inr b, w1)" "wf w3" "view w3 = view w"
    "DecideSync P (Some b) (view w (named_ref req (so_CertificateName out))) now = Inr d"
    "so_Action out = dc_Action d" "dc_Action d = ActionNone \<longrightarrow> w' = w3"
    "dc_Action d = ActionImport \<longrightarrow> (\<exists>blob pw w4 res. archive_leaf blob pw = Some (bd_Leaf b) \<and>
       wf w4 \<and> view w4 = view w \<and>
       vp_Import vault (named_ref req (so_CertificateName out)) (import_of P S req b blob pw) w4 = (Inr res, w'))"
    by (rule Sync_stages [OF assms(1-3)])
  show ?thesis
  proof (cases "dc_Action d")
    case ActionImport
    then obtain blob pw w4 res where i: "wf w4" "view w4 = view w"
      "vp_Import vault (named_ref req (so_CertificateName out)) (import_of P S req b blob pw) w4 = (Inr res, w')"
      using s(7) by blast
    show ?thesis using import_frame [OF i(1) assms(3) i(3) assms(4,5)] i(2) by simp
  qed (use s in simp)
qed

text \<open>Once the vault holds the bundle, syncing again imports nothing and changes nothing.\<close>

lemma Sync_idle:
  assumes "Sync P S req w = (Inr out, w')" and "wf w" and "served (named_ref req (so_CertificateName out))"
    and "source (rq_Source req) w = (Inr b, w1)"
    and "holds_bundle P (view w (named_ref req (so_CertificateName out))) b"
  shows "so_Action out = ActionNone \<and> view w' = view w"
proof -
  obtain b' w3 now d where s: "source (rq_Source req) w = (Inr b', w1)" "view w3 = view w"
    "DecideSync P (Some b') (view w (named_ref req (so_CertificateName out))) now = Inr d"
    "so_Action out = dc_Action d" "dc_Action d = ActionNone \<longrightarrow> w' = w3"
    by (rule Sync_stages [OF assms(1-3)]) (use assms(4) in auto)
  then show ?thesis using DecideSync_action [OF s(3)] assms(4,5) by simp
qed

end

end
