(* ===== verification/SyncTrace.thy ===== *)
theory SyncTrace
  imports Syncer
begin

text \<open>
  The order of the effects of a sync. Any ports can be instrumented with a trace; what a sync
  does in a trace is proved for every environment, with no contract assumed.
\<close>

section \<open>Instrumented ports\<close>

datatype sync_event =
    EvLoad secret_ref "cert_bundle go_result"
  | EvSnapshot vault_ref "vault_snapshot go_result"
  | EvNow time
  | EvEncode "cert_bundle option"
  | EvImport vault_ref import_request "import_result go_result"

definition traced :: "'w syncer \<Rightarrow> ('w, sync_event) logged syncer" where
  "traced s =
     \<lparr> sy_Source = (\<lambda>ref. io_log (EvLoad ref) (sy_Source s ref)),
       sy_Vault = \<lparr>vp_Snapshot = (\<lambda>ref. io_log (EvSnapshot ref) (vp_Snapshot (sy_Vault s) ref)),
                   vp_Import = (\<lambda>ref rq. io_log (EvImport ref rq) (vp_Import (sy_Vault s) ref rq))\<rparr>,
       sy_Encode = \<lparr>en_Encode = (\<lambda>b. io_log (\<lambda>_. EvEncode b) (en_Encode (sy_Encode s) b)),
                    en_ContentType = en_ContentType (sy_Encode s)\<rparr>,
       sy_Clock = (\<lambda>(w, tr). case sy_Clock s w of (t, w') \<Rightarrow> (t, (w', tr @ [EvNow t]))) \<rparr>"

text \<open>The steps of a run, one after the other; a run may stop after any of them.\<close>

inductive sync_run :: "platform \<Rightarrow> sync_request \<Rightarrow> sync_event list \<Rightarrow> bool"
  for P :: platform and req :: sync_request where
  load: "sync_run P req [EvLoad (rq_Source req) r]"
| read: "sync_run P req [EvLoad (rq_Source req) (Inr b)] \<Longrightarrow> sync_name P req b = Inr name \<Longrightarrow>
    valid_vault_name name \<Longrightarrow>
    sync_run P req [EvLoad (rq_Source req) (Inr b), EvSnapshot (named_ref req name) r]"
| time: "sync_run P req [EvLoad (rq_Source req) (Inr b), EvSnapshot ref (Inr sn)] \<Longrightarrow>
    sync_run P req [EvLoad (rq_Source req) (Inr b), EvSnapshot ref (Inr sn), EvNow now]"
| encode: "sync_run P req [EvLoad (rq_Source req) (Inr b), EvSnapshot ref (Inr sn), EvNow now] \<Longrightarrow>
    DecideSync P (Some b) sn now = Inr d \<Longrightarrow> dc_Action d = ActionImport \<Longrightarrow>
    sync_run P req [EvLoad (rq_Source req) (Inr b), EvSnapshot ref (Inr sn), EvNow now, EvEncode (Some b)]"
| upload: "sync_run P req
      [EvLoad (rq_Source req) (Inr b), EvSnapshot ref (Inr sn), EvNow now, EvEncode (Some b)] \<Longrightarrow>
    ir_Tags rq = tagsFor P req b \<Longrightarrow>
    sync_run P req [EvLoad (rq_Source req) (Inr b), EvSnapshot ref (Inr sn), EvNow now,
      EvEncode (Some b), EvImport ref rq r]"

inductive_cases sync_run_uploadE:
  "sync_run P req [EvLoad src l, EvSnapshot ref' s, EvNow now, EvEncode ob, EvImport ref rq r]"
inductive_cases sync_run_encodeE: "sync_run P req [EvLoad src l, EvSnapshot ref' s, EvNow now, EvEncode ob]"
inductive_cases sync_run_timeE: "sync_run P req [EvLoad src l, EvSnapshot ref' s, EvNow now]"
inductive_cases sync_run_readE: "sync_run P req [EvLoad src l, EvSnapshot ref' s]"

lemma sync_run_import_last:
  "sync_run P req tr \<Longrightarrow> EvImport ref rq r \<in> set tr \<Longrightarrow> \<exists>b sn now.
     tr = [EvLoad (rq_Source req) (Inr b), EvSnapshot ref (Inr sn), EvNow now, EvEncode (Some b), EvImport ref rq r]"
  by (induction rule: sync_run.induct) auto

lemma traced_ports:
  "sy_Source (traced s) ref = io_log (EvLoad ref) (sy_Source s ref)"
  "vp_Snapshot (sy_Vault (traced s)) ref' = io_log (EvSnapshot ref') (vp_Snapshot (sy_Vault s) ref')"
  "vp_Import (sy_Vault (traced s)) ref' rq = io_log (EvImport ref' rq) (vp_Import (sy_Vault s) ref' rq)"
  "en_Encode (sy_Encode (traced s)) b = io_log (\<lambda>_. EvEncode b) (en_Encode (sy_Encode s) b)"
  "en_ContentType (sy_Encode (traced s)) = en_ContentType (sy_Encode s)"
  "sy_Clock (traced s) (w, tr) = (fst (sy_Clock s w), (snd (sy_Clock s w), tr @ [EvNow (fst (sy_Clock s w))]))"
  by (simp_all add: traced_def split: prod.split)

lemma Sync_traced_run:
  assumes "Sync P (traced s) req (w, []) = (r, (w', tr))"
  shows "sync_run P req tr"
proof -
  have upload [intro!]: "sync_run P req [EvLoad (rq_Source req) (Inr b), EvSnapshot ref (Inr sn), EvNow now, EvEncode (Some b),
        EvImport ref (import_of P s req b blob pw) r]"
    if "sync_run P req [EvLoad (rq_Source req) (Inr b), EvSnapshot ref (Inr sn), EvNow now, EvEncode (Some b)]"
    for b ref sn now r blob pw
    using that by (intro sync_run.upload) (simp_all add: import_of_def)
  have "io_post (\<lambda>r wt. sync_run P req (snd wt)) (Sync P (traced s) req) (w, [])"
    unfolding Sync_def Let_def
    by (auto simp: io_wp traced_ports Validate_Inr_iff named_ref_def [symmetric] import_of_def [symmetric]
        intro!: io_post_any intro: sync_run.intros split: sum.split prod.split)
  from io_post_run [OF this assms] show ?thesis by simp
qed

lemma sync_run_import_decided:
  assumes "sync_run P req [EvLoad src (Inr b), EvSnapshot ref (Inr sn), EvNow now, EvEncode (Some b), EvImport ref rq r]"
  obtains name d where "ref = named_ref req name" and "valid_vault_name name" and "sync_name P req b = Inr name"
    and "DecideSync P (Some b) sn now = Inr d" and "dc_Action d = ActionImport"
    and "ir_Tags rq = tagsFor P req b"
proof -
  have "sync_run P req [EvLoad src (Inr b), EvSnapshot ref (Inr sn), EvNow now, EvEncode (Some b)]"
    and tags: "ir_Tags rq = tagsFor P req b"
    using assms by (cases; simp)+
  then have "sync_run P req [EvLoad src (Inr b), EvSnapshot ref (Inr sn), EvNow now]"
    and "\<exists>d. DecideSync P (Some b) sn now = Inr d \<and> dc_Action d = ActionImport"
    by (cases; auto)+
  moreover from this(1) have "sync_run P req [EvLoad src (Inr b), EvSnapshot ref (Inr sn)]"
    by cases simp_all
  then have "\<exists>name. ref = named_ref req name \<and> valid_vault_name name \<and> sync_name P req b = Inr name"
    by cases auto
  ultimately show ?thesis using that tags by blast
qed

section \<open>The order of effects\<close>

text \<open>
  In every environment, whatever the cluster, the vault and the encoder answer, a sync
  imports at most once and as its last step; the import goes to the vault of the request, under
  a valid name, and only after the certificate was loaded, the vault was read under the very
  same reference, and the decision on what was read was to import; it carries the tags of that
  certificate. In particular a vault that already holds the certificate is never written to.
\<close>
theorem Sync_imports_only_after_snapshot:
  assumes "Sync P (traced s) req (w, []) = (r, (w', tr))" and "EvImport ref rq res \<in> set tr"
  shows "\<exists>b sn now d.
     tr = [EvLoad (rq_Source req) (Inr b), EvSnapshot ref (Inr sn), EvNow now, EvEncode (Some b), EvImport ref rq res] \<and>
     DecideSync P (Some b) sn now = Inr d \<and> dc_Action d = ActionImport \<and> \<not> holds_bundle P sn b \<and>
     vr_VaultURL ref = vr_VaultURL (rq_Vault req) \<and> valid_vault_name (vr_CertificateName ref) \<and>
     ir_Tags rq = tagsFor P req b"
proof -
  have run: "sync_run P req tr" by (rule Sync_traced_run [OF assms(1)])
  then obtain b sn now where tr: "tr = [EvLoad (rq_Source req) (Inr b), EvSnapshot ref (Inr sn), EvNow now,
      EvEncode (Some b), EvImport ref rq res]"
    using sync_run_import_last assms(2) by blast
  obtain name d where "ref = named_ref req name" "valid_vault_name name"
    and d: "DecideSync P (Some b) sn now = Inr d" "dc_Action d = ActionImport" and "ir_Tags rq = tagsFor P req b"
    by (rule sync_run_import_decided [OF run [unfolded tr]])
  then show ?thesis using tr DecideSync_action [OF d(1)] by (auto simp: named_ref_def)
qed

text \<open>A cluster with one Secret, and a vault that is empty and takes every archive.\<close>

definition toy_syncer :: "unit syncer" where
  "toy_syncer =
     \<lparr> sy_Source = (\<lambda>ref. io_return toy_bundle),
       sy_Vault = \<lparr>vp_Snapshot = (\<lambda>ref. io_return absent_snapshot),
                   vp_Import = (\<lambda>ref rq. io_return \<lparr>im_Version = ''v1'', im_Thumbprint = []\<rparr>)\<rparr>,
       sy_Encode = \<lparr>en_Encode = (\<lambda>b. io_return (''pfx'', ''pw'')), en_ContentType = ContentTypePKCS12\<rparr>,
       sy_Clock = (\<lambda>w. (2000, w)) \<rparr>"

definition toy_request :: sync_request where
  "toy_request =
     \<lparr> rq_Source = \<lparr>sr_Namespace = ''ns'', sr_Name = ''tls''\<rparr>,
       rq_Vault = \<lparr>vr_VaultURL = ''https://v.vault.azure.net'', vr_CertificateName = ''cert''\<rparr> \<rparr>"

definition toy_import :: import_request where
  "toy_import =
     \<lparr>ir_Blob = ''pfx'', ir_Password = ''pw'', ir_ContentType = ContentTypePKCS12,
      ir_Tags = tagsFor sample_platform toy_request toy_bundle\<rparr>"

definition toy_trace :: "sync_event list" where
  "toy_trace =
     [EvLoad (rq_Source toy_request) (Inr toy_bundle),
      EvSnapshot (rq_Vault toy_request) (Inr absent_snapshot), EvNow 2000, EvEncode (Some toy_bundle),
      EvImport (rq_Vault toy_request) toy_import (Inr \<lparr>im_Version = ''v1'', im_Thumbprint = []\<rparr>)]"

lemma toy_run: "snd (Sync sample_platform (traced toy_syncer) toy_request ((), [])) = ((), toy_trace)"
  by code_simp

lemma Sync_imports_only_after_snapshot_witness:
  "\<exists>b d. DecideSync sample_platform (Some b) absent_snapshot 2000 = Inr d \<and> dc_Action d = ActionImport"
proof -
  obtain r where run: "Sync sample_platform (traced toy_syncer) toy_request ((), []) = (r, ((), toy_trace))"
    using toy_run by (metis prod.collapse)
  from Sync_imports_only_after_snapshot [OF run, of "rq_Vault toy_request" toy_import]
  show ?thesis by (auto simp: toy_trace_def)
qed

end
