(* ===== verification/GoUrl.thy ===== *)
theory GoUrl
  imports Platform
begin

text \<open>
  What the program uses of \<open>net/url\<close>: the scheme, host and path of \<open>url.Parse\<close>, and
  \<open>Hostname\<close>. The address parser of \<open>net/netip\<close>, which decides whether the text between
  brackets is an IPv6 address, is a parameter.
\<close>

record url =
  u_Scheme :: string
  u_Host :: string
  u_Path :: string

text \<open>\<open>netip.ParseAddr\<close> succeeds with an address that is not IPv4.\<close>

type_synonym parse_addr = "string \<Rightarrow> bool"

section \<open>Characters\<close>

definition is_ctl :: "char \<Rightarrow> bool" where
  "is_ctl c = (of_char c < (32 :: nat) \<or> of_char c = (127 :: nat))"

definition scheme_char :: "char \<Rightarrow> bool" where
  "scheme_char c = (ascii_letter c \<or> ascii_digit c \<or> List.member ''+-.'' c)"

definition host_ok_char :: "char \<Rightarrow> bool" where
  "host_ok_char c =
     (\<not> is_ascii c \<or> ascii_letter c \<or> ascii_digit c \<or>
      List.member (CHR 0x22 # CHR 0x27 # ''!$&()*+,;=:[]<>-_.~'') c)"

definition userinfo_char :: "char \<Rightarrow> bool" where
  "userinfo_char c =
     (ascii_letter c \<or> ascii_digit c \<or> List.member (CHR 0x27 # ''-._:~!$&()*+,;=%@'') c)"

text \<open>The value of a hexadecimal digit, if it is one.\<close>

definition unhex :: "char \<Rightarrow> nat option" where
  "unhex c =
     (if ascii_digit c then Some (of_char c - 48)
      else if CHR ''a'' \<le> c \<and> c \<le> CHR ''f'' then Some (of_char c - 87)
      else if CHR ''A'' \<le> c \<and> c \<le> CHR ''F'' then Some (of_char c - 55)
      else None)"

section \<open>Unescaping\<close>

text \<open>
  \<open>unescape\<close>: \<open>esc\<close> says which escaped bytes are admitted and \<open>lit\<close> which literal
  ones, which is how the modes of the Go function differ.
\<close>

fun unescape :: "(nat \<Rightarrow> bool) \<Rightarrow> (char \<Rightarrow> bool) \<Rightarrow> string \<Rightarrow> string option" where
  "unescape esc lit [] = Some []"
| "unescape esc lit (c # s) =
     (if c = CHR ''%'' then
        (case s of
           a # b # r \<Rightarrow>
             (case (unhex a, unhex b) of
                (Some x, Some y) \<Rightarrow>
                  if esc (16 * x + y) then map_option (Cons (char_of (16 * x + y))) (unescape esc lit r)
                  else None
              | _ \<Rightarrow> None)
         | _ \<Rightarrow> None)
      else if lit c then map_option (Cons c) (unescape esc lit s) else None)"

abbreviation unescape_path :: "string \<Rightarrow> string option" where
  "unescape_path \<equiv> unescape (\<lambda>_. True) (\<lambda>_. True)"

text \<open>In a host only the escape of a percent sign and escapes of non-ASCII bytes are admitted.\<close>

definition unescape_host :: "string \<Rightarrow> string option" where
  "unescape_host = unescape (\<lambda>v. 128 \<le> v \<or> v = 37) host_ok_char"

definition unescape_zone :: "string \<Rightarrow> string option" where
  "unescape_zone = unescape (\<lambda>v. v = 37 \<or> v = 32 \<or> host_ok_char (char_of v)) host_ok_char"

section \<open>The parts of a URL\<close>

text \<open>Everything before the first occurrence of a character, and everything from it on.\<close>

definition upto_char :: "char \<Rightarrow> string \<Rightarrow> string" where
  "upto_char c s = takeWhile (\<lambda>x. x \<noteq> c) s"

definition onward :: "char \<Rightarrow> string \<Rightarrow> string" where
  "onward c s = dropWhile (\<lambda>x. x \<noteq> c) s"

text \<open>The part after the last occurrence, if there is one.\<close>

definition after_last :: "char \<Rightarrow> string \<Rightarrow> string option" where
  "after_last c s =
     (if List.member s c then Some (rev (takeWhile (\<lambda>x. x \<noteq> c) (rev s))) else None)"

definition getScheme :: "string \<Rightarrow> (string \<times> string) option" where
  "getScheme raw =
     (let pre = takeWhile scheme_char raw; rest = dropWhile scheme_char raw in
      if pre \<noteq> [] \<and> \<not> ascii_letter (hd pre) then Some ([], raw)
      else (case rest of
              [] \<Rightarrow> Some ([], raw)
            | c # r \<Rightarrow>
                if c = CHR '':'' then (if pre = [] then None else Some (pre, r)) else Some ([], raw)))"

definition validOptionalPort :: "string \<Rightarrow> bool" where
  "validOptionalPort port =
     (case port of [] \<Rightarrow> True | c # digits \<Rightarrow> c = CHR '':'' \<and> list_all ascii_digit digits)"

text \<open>The host inside brackets, with the zone of an IPv6 address after an escaped percent sign.\<close>

definition bracket_host :: "parse_addr \<Rightarrow> string \<Rightarrow> string option" where
  "bracket_host ip host =
     (case after_last CHR '']'' host of
        None \<Rightarrow> None
      | Some colonPort \<Rightarrow>
          if \<not> validOptionalPort colonPort then None
          else
            let hostname = drop 1 (take (length host - length colonPort - 1) host);
                addr = (case Index hostname ''%25'' of
                          Some i \<Rightarrow>
                            (case (unescape_host (take i hostname), unescape_zone (drop i hostname)) of
                               (Some h, Some z) \<Rightarrow> Some (h @ z) | _ \<Rightarrow> None)
                        | None \<Rightarrow> unescape_host hostname)
            in (case addr of
                  None \<Rightarrow> None
                | Some a \<Rightarrow> if ip a then Some (''['' @ a @ '']'' @ colonPort) else None))"

definition parseHost :: "parse_addr \<Rightarrow> string \<Rightarrow> string option" where
  "parseHost ip host =
     (if HasPrefix host ''['' then bracket_host ip host
      else if List.member host CHR ''['' then None
      else
        let colonPort = onward CHR '':'' host in
        if validOptionalPort colonPort then unescape_host host else None)"

definition parseAuthority :: "parse_addr \<Rightarrow> string \<Rightarrow> string option" where
  "parseAuthority ip authority =
     (case after_last CHR ''@'' authority of
        None \<Rightarrow> parseHost ip authority
      | Some h \<Rightarrow>
          (case parseHost ip h of
             None \<Rightarrow> None
           | Some host \<Rightarrow>
               let userinfo = take (length authority - length h - 1) authority in
               if list_all userinfo_char userinfo \<and> unescape_path userinfo \<noteq> None then Some host else None))"

definition lower_ascii :: "string \<Rightarrow> string" where
  "lower_ascii s = map lower_byte s"

definition parse_rest :: "parse_addr \<Rightarrow> string \<Rightarrow> string \<Rightarrow> url option" where
  "parse_rest ip scheme rest =
     (let rest = upto_char CHR ''?'' rest in
      if \<not> HasPrefix rest ''/'' then
        (if scheme \<noteq> [] then Some \<lparr>u_Scheme = scheme, u_Host = [], u_Path = []\<rparr>
         else if List.member (upto_char CHR ''/'' rest) CHR '':'' then None
         else map_option (\<lambda>p. \<lparr>u_Scheme = [], u_Host = [], u_Path = p\<rparr>) (unescape_path rest))
      else if (scheme \<noteq> [] \<or> \<not> HasPrefix rest ''///'') \<and> HasPrefix rest ''//'' then
        (let r = drop 2 rest in
         (case parseAuthority ip (upto_char CHR ''/'' r) of
            None \<Rightarrow> None
          | Some host \<Rightarrow>
              map_option (\<lambda>p. \<lparr>u_Scheme = scheme, u_Host = host, u_Path = p\<rparr>)
                (unescape_path (onward CHR ''/'' r))))
      else map_option (\<lambda>p. \<lparr>u_Scheme = scheme, u_Host = [], u_Path = p\<rparr>) (unescape_path rest))"

definition parse_url :: "parse_addr \<Rightarrow> string \<Rightarrow> url go_result" where
  "parse_url ip raw =
     (let u = upto_char CHR ''#'' raw;
          fragment = drop 1 (onward CHR ''#'' raw);
          bad = Inl (Errorf ''parse %q: %s'' [AStr u, AStr ''invalid URL'']) in
      if list_ex is_ctl u then bad
      else (case getScheme u of
              None \<Rightarrow> bad
            | Some (scheme, rest) \<Rightarrow>
                (case parse_rest ip (lower_ascii scheme) rest of
                   None \<Rightarrow> bad
                 | Some p \<Rightarrow> if unescape_path fragment = None then bad else Inr p)))"

text \<open>The method \<open>Hostname\<close>: the host without its port and without brackets.\<close>

definition stripPort :: "string \<Rightarrow> string" where
  "stripPort host =
     (case after_last CHR '':'' host of
        None \<Rightarrow> host
      | Some port \<Rightarrow>
          if list_all ascii_digit port then take (length host - length port - 1) host else host)"

definition Hostname :: "string \<Rightarrow> string" where
  "Hostname host =
     (let h = stripPort host in
      if HasPrefix h ''['' \<and> HasSuffix h '']'' then take (length h - 2) (drop 1 h) else h)"

section \<open>What a parsed host looks like\<close>

lemma unhex_less: "unhex c = Some x \<Longrightarrow> x < 16"
proof -
  assume u: "unhex c = Some x"
  have of_le: "a \<le> c \<Longrightarrow> c \<le> b \<Longrightarrow> of_char a \<le> (of_char c :: nat) \<and> of_char c \<le> (of_char b :: nat)" for a b
    by (simp add: less_eq_char_def)
  show ?thesis
    using u of_le [of "CHR ''0''" "CHR ''9''"] of_le [of "CHR ''a''" "CHR ''f''"] of_le [of "CHR ''A''" "CHR ''F''"]
    by (auto simp: unhex_def ascii_digit_def split: if_splits)
qed

lemma unescape_chars:
  "unescape esc lit s = Some t \<Longrightarrow> c \<in> set t \<Longrightarrow>
     (c \<in> set s \<and> lit c \<and> c \<noteq> CHR ''%'') \<or> (\<exists>v. esc v \<and> v < 256 \<and> c = char_of v)"
proof (induction esc lit s arbitrary: t rule: unescape.induct)
  case (2 esc lit d s)
  show ?case
  proof (cases "d = CHR ''%''")
    case True
    with "2.prems" obtain a b r x y t' where s: "s = a # b # r" and xy: "unhex a = Some x" "unhex b = Some y"
      and e: "esc (16 * x + y)" and t: "unescape esc lit r = Some t'" "t = char_of (16 * x + y) # t'"
      by (auto split: list.splits option.splits if_splits)
    have v: "16 * x + y < 256" using unhex_less [OF xy(1)] unhex_less [OF xy(2)] by simp
    show ?thesis
    proof (cases "c = char_of (16 * x + y)")
      case False
      with t "2.prems"(2) have "c \<in> set t'" by simp
      from "2.IH"(1) [OF True s refl refl xy e t(1) this] s show ?thesis by auto
    qed (use e v in blast)
  next
    case False
    with "2.prems" obtain t' where t: "unescape esc lit s = Some t'" "t = d # t'" "lit d"
      by (auto split: if_splits)
    show ?thesis
    proof (cases "c = d")
      case False
      with t "2.prems"(2) have "c \<in> set t'" by simp
      from "2.IH"(2) [OF \<open>d \<noteq> CHR ''%''\<close> t(3,1) this] show ?thesis by auto
    qed (use t False in auto)
  qed
qed simp

end
