(* ===== verification/AzureVaultUrl.thy ===== *)
theory AzureVaultUrl
  imports GoUrl
begin

text \<open>
  Vault names and vault URLs (\<open>internal/infra/azure/vaulturl.go\<close>).
\<close>

section \<open>Clouds\<close>

type_synonym cloud = string

definition CloudPublic :: cloud where "CloudPublic = ''AzurePublicCloud''"
definition CloudUSGovernment :: cloud where "CloudUSGovernment = ''AzureUSGovernmentCloud''"
definition CloudChina :: cloud where "CloudChina = ''AzureChinaCloud''"

definition vaultSuffixes :: "(cloud \<times> string) list" where
  "vaultSuffixes =
     [(CloudPublic, ''vault.azure.net''),
      (CloudUSGovernment, ''vault.usgovcloudapi.net''),
      (CloudChina, ''vault.azure.cn'')]"

definition vaultHostSuffixes :: "string list" where
  "vaultHostSuffixes =
     [''vault.azure.net'', ''vaultcore.azure.net'',
      ''vault.usgovcloudapi.net'', ''vaultcore.usgovcloudapi.net'',
      ''vault.azure.cn'', ''vaultcore.azure.cn'']"

definition KnownClouds :: "string list" where
  "KnownClouds = sort (map fst vaultSuffixes)"

definition ParseCloud :: "platform \<Rightarrow> string \<Rightarrow> cloud go_result" where
  "ParseCloud P value =
     (if TrimSpace P value = [] then Inr CloudPublic
      else
        let cloud = TrimSpace P value in
        if map_of vaultSuffixes cloud = None
        then Inl (Errorf ''unknown Azure cloud %q; expected one of %s''
                   [AStr value, AStr (Join KnownClouds '', '')])
        else Inr cloud)"

section \<open>Vault URLs\<close>

definition isVaultHost :: "platform \<Rightarrow> string \<Rightarrow> bool" where
  "isVaultHost P hostname =
     (let host = ToLower P hostname in
      list_ex (\<lambda>suffix. HasSuffix host (''.'' @ suffix)) vaultHostSuffixes)"

definition knownVaultSuffixes :: "string list" where
  "knownVaultSuffixes = sort vaultHostSuffixes"

definition vault_name_ok :: "char \<Rightarrow> bool" where
  "vault_name_ok r = (ascii_letter r \<or> ascii_digit r \<or> r = CHR ''-'')"

definition validateVaultName :: "string \<Rightarrow> unit go_result" where
  "validateVaultName name =
     (if length name < 3 \<or> 24 < length name
      then Inl (Errorf ''key vault name %q must be 3-24 characters'' [AStr name])
      else if \<not> list_all vault_name_ok name
      then Inl (Errorf ''key vault name %q may only contain letters, digits and hyphens'' [AStr name])
      else if \<not> ascii_letter (name ! 0)
      then Inl (Errorf ''key vault name %q must begin with a letter'' [AStr name])
      else if name ! (length name - 1) = CHR ''-''
      then Inl (Errorf ''key vault name %q must end with a letter or digit'' [AStr name])
      else if Contains name ''--''
      then Inl (Errorf ''key vault name %q must not contain consecutive hyphens'' [AStr name])
      else Inr ())"

definition VaultURL :: "platform \<Rightarrow> parse_addr \<Rightarrow> string \<Rightarrow> cloud \<Rightarrow> string go_result" where
  "VaultURL P ip nameOrURL cloud =
     (let value = TrimSpace P nameOrURL in
      if value = [] then Inl (EText ''key vault name or URL is required'')
      else if Contains value ''://'' then
        (case parse_url ip value of
           Inl err \<Rightarrow> Inl (Errorf ''parsing key vault URL %q: %w'' [AStr value, AErr err])
         | Inr parsed \<Rightarrow>
             if u_Scheme parsed \<noteq> ''https'' \<or> u_Host parsed = []
             then Inl (Errorf ''key vault URL %q must be an https URL with a host'' [AStr value])
             else if \<not> isVaultHost P (Hostname (u_Host parsed))
             then Inl (Errorf ''key vault URL %q does not name a Key Vault host; expected one ending in %s''
                        [AStr value, AStr (Join knownVaultSuffixes '', '')])
             else Inr (TrimSuffix (u_Scheme parsed @ ''://'' @ u_Host parsed @ u_Path parsed) ''/''))
      else
        let cloud = (if cloud = [] then CloudPublic else cloud) in
        (case map_of vaultSuffixes cloud of
           None \<Rightarrow> Inl (Errorf ''unknown Azure cloud %q'' [AStr cloud])
         | Some suffix \<Rightarrow>
             (case validateVaultName value of
                Inl err \<Rightarrow> Inl err
              | Inr _ \<Rightarrow> Inr (''https://'' @ value @ ''.'' @ suffix))))"

section \<open>What the host of a resolved URL may hold\<close>

text \<open>The characters that end an authority or begin another part of a URL.\<close>

definition delimiter :: "char \<Rightarrow> bool" where
  "delimiter c = List.member ''/?#@'' c"

lemma host_ok_not_delimiter: "host_ok_char c \<Longrightarrow> \<not> delimiter c"
  by (auto simp: host_ok_char_def delimiter_def ascii_letter_def ascii_digit_def is_ascii_def less_eq_char_def)

lemma delimiter_of_char: "delimiter c \<Longrightarrow> of_char c \<in> {47, 63, 35, 64 :: nat}"
  by (auto simp: delimiter_def)

lemma char_of_not_delimiter:
  "v < 256 \<Longrightarrow> v \<notin> {47, 63, 35, 64 :: nat} \<Longrightarrow> \<not> delimiter (char_of v)"
  using delimiter_of_char [of "char_of v"] by auto

lemma unescape_host_chars:
  "unescape_host s = Some h \<Longrightarrow> c \<in> set h \<Longrightarrow> \<not> delimiter c"
proof -
  assume "unescape_host s = Some h" and "c \<in> set h"
  then consider "host_ok_char c" | v where "128 \<le> v \<or> v = 37" "v < 256" "c = char_of (v :: nat)"
    unfolding unescape_host_def by (auto dest!: unescape_chars)
  then show ?thesis
  proof cases
    case 2
    then show ?thesis using char_of_not_delimiter [of v] by auto
  qed (rule host_ok_not_delimiter)
qed

lemma unescape_zone_chars:
  "unescape_zone s = Some h \<Longrightarrow> c \<in> set h \<Longrightarrow> \<not> delimiter c"
proof -
  assume "unescape_zone s = Some h" and "c \<in> set h"
  then consider "host_ok_char c" | v where "v = 37 \<or> v = 32" "c = char_of (v :: nat)"
    unfolding unescape_zone_def by (auto dest!: unescape_chars)
  then show ?thesis
    using char_of_not_delimiter [of 37] char_of_not_delimiter [of 32]
    by cases (auto simp: host_ok_not_delimiter)
qed

lemma port_chars: "validOptionalPort p \<Longrightarrow> c \<in> set p \<Longrightarrow> \<not> delimiter c"
  by (cases p) (auto simp: validOptionalPort_def list_all_iff delimiter_def ascii_digit_def less_eq_char_def)

lemma parseHost_chars:
  assumes "parseHost ip s = Some h" and "c \<in> set h"
  shows "\<not> delimiter c"
proof (cases "HasPrefix s ''[''")
  case False
  then show ?thesis using assms unescape_host_chars
    by (auto simp: parseHost_def Let_def split: if_splits)
next
  case True
  then obtain a p where h: "h = ''['' @ a @ '']'' @ p" and p: "validOptionalPort p"
    and a: "(\<exists>s. unescape_host s = Some a) \<or>
      (\<exists>s t x z. unescape_host s = Some x \<and> unescape_zone t = Some z \<and> a = x @ z)"
    using assms(1)
    by (fastforce simp: parseHost_def bracket_host_def Let_def split: if_splits option.splits prod.splits)
  from a have "\<forall>c \<in> set a. \<not> delimiter c"
    using unescape_host_chars unescape_zone_chars by fastforce
  then show ?thesis
    using assms(2) port_chars [OF p] by (auto simp: h delimiter_def)
qed

lemma parseAuthority_chars: "parseAuthority ip s = Some h \<Longrightarrow> c \<in> set h \<Longrightarrow> \<not> delimiter c"
  using parseHost_chars by (auto simp: parseAuthority_def Let_def split: option.splits if_splits)

end
