(* ===== verification/VaultAllowlist.thy ===== *)
theory VaultAllowlist
  imports Platform
begin

text \<open>
  The list of vaults the operator may write to (\<open>internal/domain/vault.go\<close>).
\<close>

type_synonym vault_allowlist = "string list"

definition normaliseVaultURL :: "platform \<Rightarrow> string \<Rightarrow> string" where
  "normaliseVaultURL P value = ToLower P (TrimSuffix (TrimSpace P value) ''/'')"

text \<open>The loop of \<open>Permits\<close>, on a target that is normalised once.\<close>

fun permits_loop :: "platform \<Rightarrow> string \<Rightarrow> vault_allowlist \<Rightarrow> bool" where
  "permits_loop P target [] = False"
| "permits_loop P target (allowed # a) =
     (if normaliseVaultURL P allowed = target then True else permits_loop P target a)"

definition Permits :: "platform \<Rightarrow> vault_allowlist \<Rightarrow> string \<Rightarrow> bool" where
  "Permits P a vaultURL =
     (if length a = 0 then True else permits_loop P (normaliseVaultURL P vaultURL) a)"

definition Enforced :: "vault_allowlist \<Rightarrow> bool" where
  "Enforced a = (length a > 0)"

definition allowlist_String :: "vault_allowlist \<Rightarrow> string" where
  "allowlist_String a = Join a '', ''"

lemma permits_loop_iff: "permits_loop P target a \<longleftrightarrow> target \<in> normaliseVaultURL P ` set a"
  by (induction P target a rule: permits_loop.induct) auto

lemma Permits_cases:
  "Permits P a url \<longleftrightarrow> \<not> Enforced a \<or> normaliseVaultURL P url \<in> normaliseVaultURL P ` set a"
  by (auto simp: Permits_def Enforced_def permits_loop_iff)

lemma Permits_entry:
  "Permits P a url \<longleftrightarrow>
     \<not> Enforced a \<or> (\<exists>entry \<in> set a. normaliseVaultURL P entry = normaliseVaultURL P url)"
  unfolding Permits_cases image_iff by metis

text \<open>
  An enforced allowlist admits a URL exactly when one of its entries is the same vault up to
  surrounding space, one trailing slash and letter case; so two spellings of one vault are
  admitted or refused together, and an empty list admits everything.
\<close>
theorem Permits_iff_entry:
  "Permits P a url = (\<not> Enforced a \<or> (\<exists>entry \<in> set a. normaliseVaultURL P entry = normaliseVaultURL P url)) \<and>
   Permits P [] url \<and>
   (normaliseVaultURL P url = normaliseVaultURL P url' \<longrightarrow> Permits P a url = Permits P a url')"
  unfolding Permits_entry by (simp add: Enforced_def)

lemma Permits_iff_entry_witness:
  "Permits sample_platform [''https://v.vault.azure.net''] '' HTTPS://V.vault.azure.net/ '' =
   Permits sample_platform [''https://v.vault.azure.net''] ''https://v.vault.azure.net''"
proof -
  have "normaliseVaultURL sample_platform '' HTTPS://V.vault.azure.net/ '' =
      normaliseVaultURL sample_platform ''https://v.vault.azure.net''" by code_simp
  with Permits_iff_entry [of sample_platform "[''https://v.vault.azure.net'']" "'' HTTPS://V.vault.azure.net/ ''"
      "''https://v.vault.azure.net''"] show ?thesis by blast
qed

end
