(* ===== verification/VaultUrlProps.thy ===== *)
theory VaultUrlProps
  imports AzureVaultUrl VaultAllowlist
begin

text \<open>
  What a resolved vault URL is: its host is a Key Vault host, and a bare name and its URL are
  the same vault.
\<close>

section \<open>Bare names\<close>

lemma validateVaultName_Inr:
  "validateVaultName name = Inr u \<longleftrightarrow>
     3 \<le> length name \<and> length name \<le> 24 \<and> list_all vault_name_ok name \<and> ascii_letter (hd name) \<and>
     last name \<noteq> CHR ''-'' \<and> \<not> Contains name ''--''"
  by (cases "name = []") (auto simp: validateVaultName_def hd_conv_nth last_conv_nth)

text \<open>The characters of a host name without a port.\<close>

definition plain_char :: "char \<Rightarrow> bool" where
  "plain_char c = (ascii_letter c \<or> ascii_digit c \<or> c = CHR ''-'' \<or> c = CHR ''.'')"

lemma plain_charD:
  assumes "plain_char c"
  shows "is_ascii c" "\<not> is_space c" "\<not> is_ctl c" "host_ok_char c" "\<not> delimiter c"
    "c \<noteq> CHR '':''" "c \<noteq> CHR ''%''" "c \<noteq> CHR ''[''" "c \<noteq> CHR ''/''" "c \<noteq> CHR ''@''" "c \<noteq> CHR ''?''" "c \<noteq> CHR ''#''"
proof -
  have range: "(48 \<le> n \<and> n \<le> 57) \<or> (65 \<le> n \<and> n \<le> 90) \<or> (97 \<le> n \<and> n \<le> 122) \<or> n = 45 \<or> n = 46"
    if "n = (of_char c :: nat)" for n
    using assms that
    by (auto simp: plain_char_def ascii_letter_def ascii_digit_def less_eq_char_def)
  then show "is_ascii c" "\<not> is_space c" "\<not> is_ctl c"
    by (auto simp: is_ascii_def is_space_def is_ctl_def)
  show "host_ok_char c" using assms by (auto simp: host_ok_char_def plain_char_def)
  then show "\<not> delimiter c" by (rule host_ok_not_delimiter)
  show "c \<noteq> CHR '':''" "c \<noteq> CHR ''%''" "c \<noteq> CHR ''[''" "c \<noteq> CHR ''/''" "c \<noteq> CHR ''@''" "c \<noteq> CHR ''?''" "c \<noteq> CHR ''#''"
    using range by auto
qed

lemma plain_no:
  assumes "list_all plain_char h"
  shows "CHR '':'' \<notin> set h" "CHR ''@'' \<notin> set h" "CHR ''['' \<notin> set h" "CHR ''/'' \<notin> set h"
    "CHR ''?'' \<notin> set h" "CHR ''#'' \<notin> set h"
proof -
  have "\<not> plain_char CHR '':''" "\<not> plain_char CHR ''@''" "\<not> plain_char CHR ''[''" "\<not> plain_char CHR ''/''"
    "\<not> plain_char CHR ''?''" "\<not> plain_char CHR ''#''" by code_simp+
  with assms show "CHR '':'' \<notin> set h" "CHR ''@'' \<notin> set h" "CHR ''['' \<notin> set h" "CHR ''/'' \<notin> set h"
    "CHR ''?'' \<notin> set h" "CHR ''#'' \<notin> set h" by (auto simp: list_all_iff)
qed

lemma vault_name_plain: "list_all vault_name_ok name \<Longrightarrow> list_all plain_char name"
  by (auto simp: list_all_iff vault_name_ok_def plain_char_def)

lemma suffixes_plain:
  "map_of vaultSuffixes cloud = Some suffix \<Longrightarrow>
     list_all plain_char suffix \<and> suffix \<in> set vaultHostSuffixes \<and> map lower_byte suffix = suffix"
proof -
  assume "map_of vaultSuffixes cloud = Some suffix"
  then consider "suffix = ''vault.azure.net''" | "suffix = ''vault.usgovcloudapi.net''" | "suffix = ''vault.azure.cn''"
    by (auto simp: vaultSuffixes_def split: if_splits)
  then show ?thesis by cases (simp_all, code_simp+)
qed

text \<open>A bare name resolves to a host of plain characters.\<close>

lemma VaultURL_bare:
  assumes "VaultURL P ip nameOrURL cloud = Inr u" and "\<not> Contains (TrimSpace P nameOrURL) ''://''"
  obtains name suffix where "u = ''https://'' @ name @ ''.'' @ suffix" and "list_all plain_char (name @ ''.'' @ suffix)"
    and "suffix \<in> set vaultHostSuffixes" and "map lower_byte suffix = suffix"
proof -
  obtain suffix cl where s: "map_of vaultSuffixes cl = Some suffix"
    and n: "validateVaultName (TrimSpace P nameOrURL) = Inr ()"
    and u: "u = ''https://'' @ TrimSpace P nameOrURL @ ''.'' @ suffix"
    using assms by (auto simp: VaultURL_def Let_def split: if_splits option.splits sum.splits)
  have "list_all plain_char (TrimSpace P nameOrURL)"
    using n vault_name_plain by (simp add: validateVaultName_Inr)
  then show ?thesis
    using suffixes_plain [OF s] u by (intro that [of "TrimSpace P nameOrURL" suffix]) (auto simp: plain_char_def)
qed

lemma takeWhile_all: "(\<And>x. x \<in> set s \<Longrightarrow> q x) \<Longrightarrow> takeWhile q s = s \<and> dropWhile q s = []"
  by (simp add: takeWhile_eq_all_conv dropWhile_eq_Nil_conv)

lemma unescape_plain: "list_all plain_char h \<Longrightarrow> unescape_host h = Some h"
  unfolding unescape_host_def by (induction h) (auto dest: plain_charD)

lemma after_last_None: "c \<notin> set s \<Longrightarrow> after_last c s = None"
  by (simp add: after_last_def)

lemma parseAuthority_plain:
  assumes "list_all plain_char h"
  shows "parseAuthority ip h = Some h"
proof -
  have no: "CHR ''@'' \<notin> set h" "CHR ''['' \<notin> set h" "CHR '':'' \<notin> set h"
    using plain_no [OF assms] by simp_all
  then have "onward CHR '':'' h = []" by (auto simp: onward_def dropWhile_eq_Nil_conv)
  moreover have "\<not> HasPrefix h ''[''" using no(2) by (auto simp: HasPrefix_iff)
  ultimately show ?thesis
    using no unescape_plain [OF assms]
    by (simp add: parseAuthority_def after_last_None parseHost_def validOptionalPort_def)
qed

lemma getScheme_https: "getScheme (''https://'' @ h) = Some (''https'', ''//'' @ h)"
proof -
  have "list_all scheme_char ''https''" "\<not> scheme_char CHR '':''" "ascii_letter CHR ''h''" by code_simp+
  then show ?thesis by (simp add: getScheme_def)
qed

lemma lower_https: "lower_ascii ''https'' = ''https''"
  by code_simp

lemma https_chars: "list_all (\<lambda>c. is_ascii c \<and> \<not> is_space c \<and> \<not> is_ctl c) ''https://''"
  by code_simp

lemma parse_plain:
  assumes h: "list_all plain_char h" and "h \<noteq> []"
  shows "parse_url ip (''https://'' @ h) = Inr \<lparr>u_Scheme = ''https'', u_Host = h, u_Path = []\<rparr>"
proof -
  have no: "\<And>x. x \<in> set h \<Longrightarrow> x \<noteq> CHR ''/'' \<and> x \<noteq> CHR ''?'' \<and> x \<noteq> CHR ''#''"
    using plain_no [OF h] by blast
  have cut: "upto_char CHR ''#'' (''https://'' @ h) = ''https://'' @ h" "onward CHR ''#'' (''https://'' @ h) = []"
    "upto_char CHR ''?'' (''//'' @ h) = ''//'' @ h" "upto_char CHR ''/'' h = h" "onward CHR ''/'' h = []"
    using no by (auto simp: upto_char_def onward_def takeWhile_eq_all_conv dropWhile_eq_Nil_conv)
  have ctl: "\<not> list_ex is_ctl (''https://'' @ h)"
    using https_chars h plain_charD(3) by (auto simp: list_ex_iff list_all_iff)
  have rest: "parse_rest ip ''https'' (''//'' @ h) = Some \<lparr>u_Scheme = ''https'', u_Host = h, u_Path = []\<rparr>"
    using cut(3-5) parseAuthority_plain [OF h] by (simp add: parse_rest_def Let_def HasPrefix_def)
  show ?thesis
    unfolding parse_url_def Let_def cut(1,2) getScheme_https
    using ctl rest by (simp add: lower_https)
qed

section \<open>Vault hosts\<close>

lemma Hostname_plain: "list_all plain_char h \<Longrightarrow> Hostname h = h"
proof -
  assume h: "list_all plain_char h"
  then have no: "CHR '':'' \<notin> set h" "CHR ''['' \<notin> set h" using plain_no by blast+
  then have "\<not> HasPrefix h ''[''" by (auto simp: HasPrefix_iff)
  with no show ?thesis by (simp add: Hostname_def stripPort_def after_last_None)
qed

lemma isVaultHost_plain:
  assumes "list_all plain_char (name @ ''.'' @ suffix)" and "suffix \<in> set vaultHostSuffixes"
    and "map lower_byte suffix = suffix"
  shows "isVaultHost P (name @ ''.'' @ suffix)"
proof -
  have "list_all is_ascii (name @ ''.'' @ suffix)"
    using assms(1) plain_charD(1) by (auto simp: list_all_iff)
  moreover have "lower_byte CHR ''.'' = CHR ''.''" by code_simp
  ultimately have "ToLower P (name @ ''.'' @ suffix) = map lower_byte name @ ''.'' @ suffix"
    using assms(3) by (simp add: ToLower_def)
  then have "HasSuffix (ToLower P (name @ ''.'' @ suffix)) (''.'' @ suffix)"
    by (metis HasSuffix_append append_assoc)
  then show ?thesis unfolding isVaultHost_def Let_def using assms(2) by (auto simp: list_ex_iff)
qed

lemma parse_url_host:
  "parse_url ip raw = Inr p \<Longrightarrow> c \<in> set (u_Host p) \<Longrightarrow> \<not> delimiter c"
  using parseAuthority_chars
  by (auto simp: parse_url_def parse_rest_def Let_def split: if_splits option.splits prod.splits)

lemma unescape_path_hd: "unescape_path s = Some p \<Longrightarrow> s = [] \<or> hd s = CHR ''/'' \<Longrightarrow> p = [] \<or> hd p = CHR ''/''"
  by (cases s) auto

lemma onward_hd: "onward c s = [] \<or> hd (onward c s) = c"
  using hd_dropWhile [of "\<lambda>x. x \<noteq> c" s] by (auto simp: onward_def)

lemma parse_url_path:
  assumes "parse_url ip raw = Inr p" and "u_Host p \<noteq> []"
  shows "u_Path p = [] \<or> hd (u_Path p) = CHR ''/''"
proof -
  obtain r where "unescape_path (onward CHR ''/'' r) = Some (u_Path p)"
    using assms by (auto simp: parse_url_def parse_rest_def Let_def split: if_splits option.splits prod.splits)
  then show ?thesis by (rule unescape_path_hd) (rule onward_hd)
qed

lemma TrimSuffix_path:
  assumes "host \<noteq> []" and "CHR ''/'' \<notin> set host" and "path = [] \<or> hd path = CHR ''/''"
  obtains path' where "TrimSuffix (''https://'' @ host @ path) ''/'' = ''https://'' @ host @ path'"
    and "path' = [] \<or> hd path' = CHR ''/''"
proof (cases "path = []")
  case True
  have "\<not> HasSuffix (''https://'' @ host) ''/''"
  proof
    assume "HasSuffix (''https://'' @ host) ''/''"
    then obtain t where "''https://'' @ host = t @ ''/''" by (auto simp: HasSuffix_iff)
    then have "last (''https://'' @ host) = CHR ''/''" by (simp only: last_snoc)
    then have "last host = CHR ''/''" using assms(1) by simp
    then show False using assms(1,2) last_in_set by metis
  qed
  then show ?thesis using that [of "[]"] True by (simp add: TrimSuffix_def)
next
  case False
  show ?thesis
  proof (cases "last path = CHR ''/''")
    case True
    then have p: "path = butlast path @ ''/''" using False by (metis append_butlast_last_id)
    have "TrimSuffix (''https://'' @ host @ path) ''/'' = ''https://'' @ host @ butlast path"
      by (subst p) (metis TrimSuffix_append append_assoc)
    moreover have "butlast path = [] \<or> hd (butlast path) = CHR ''/''"
      using assms(3) False by (cases path) auto
    ultimately show ?thesis by (rule that)
  next
    case last: False
    have "\<not> HasSuffix (''https://'' @ host @ path) ''/''"
    proof
      assume "HasSuffix (''https://'' @ host @ path) ''/''"
      then obtain t where "''https://'' @ host @ path = t @ ''/''" by (auto simp: HasSuffix_iff)
      then have "last (''https://'' @ host @ path) = CHR ''/''" by (simp only: last_snoc)
      then show False using last False by simp
    qed
    then show ?thesis using that [of path] assms(3) False by (simp add: TrimSuffix_def)
  qed
qed

section \<open>Properties\<close>



lemma lower_byte_dot: "lower_byte CHR ''.'' = CHR ''.''"
  by code_simp

text \<open>
  A bare vault name and the URL it resolves to are the same vault: the URL resolves to
  itself, whatever cloud is set beside it, so an allowlist entry given as a name admits a
  resource that gives the URL, and the other way round.
\<close>
theorem VaultURL_name_fixpoint:
  assumes "VaultURL P ip name cloud = Inr u" and "\<not> Contains (TrimSpace P name) ''://''"
  shows "VaultURL P ip u cloud' = Inr u \<and> Permits P [u] u"
proof -
  obtain n suffix where u: "u = ''https://'' @ n @ ''.'' @ suffix"
    and h: "list_all plain_char (n @ ''.'' @ suffix)" "suffix \<in> set vaultHostSuffixes" "map lower_byte suffix = suffix"
    by (rule VaultURL_bare [OF assms])
  let ?h = "n @ ''.'' @ suffix"
  have ascii: "list_all is_ascii u" and space: "\<And>c. c \<in> set u \<Longrightarrow> \<not> is_space c"
    using https_chars h(1) plain_charD(1,2) by (auto simp: u list_all_iff)
  have trim: "TrimSpace P u = u" using ascii trim_ascii_id [OF space] by (simp add: TrimSpace_def)
  have con: "Contains u ''://''"
  proof -
    have "Index u ''://'' = Some 5" unfolding u by (simp add: HasPrefix_def)
    then show ?thesis by (simp add: Contains_def)
  qed
  have "\<not> HasSuffix u ''/''"
  proof
    assume "HasSuffix u ''/''"
    then obtain t where "u = t @ ''/''" by (auto simp: HasSuffix_iff)
    then have "last u = CHR ''/''" by (simp only: last_snoc)
    moreover have "last u \<in> set ?h" unfolding u by simp
    ultimately show False using plain_no(4) [OF h(1)] by metis
  qed
  then have "TrimSuffix u ''/'' = u" by (simp add: TrimSuffix_def)
  then have "VaultURL P ip u cloud' = Inr u"
    using trim con isVaultHost_plain [OF h] Hostname_plain [OF h(1)] parse_plain [OF h(1)]
    by (simp add: VaultURL_def u)
  then show ?thesis by (simp add: Permits_entry)
qed

lemma VaultURL_name_fixpoint_witness:
  "VaultURL sample_platform (\<lambda>_. False) ''https://my-vault.vault.azure.cn'' [] = Inr ''https://my-vault.vault.azure.cn''"
proof -
  have "VaultURL sample_platform (\<lambda>_. False) '' my-vault '' CloudChina = Inr ''https://my-vault.vault.azure.cn''"
    and "\<not> Contains (TrimSpace sample_platform '' my-vault '') ''://''" by code_simp+
  from VaultURL_name_fixpoint [OF this, of "[]"] show ?thesis by (rule conjunct1)
qed

section \<open>IPv6 literals\<close>

text \<open>
  The host check reads the zone of an IPv6 literal as part of a host name: when the address
  parser admits the address, a URL that names it is accepted if its zone ends in a Key Vault
  suffix, although no Key Vault is named. (An escaped percent sign introduces the zone; it is
  escaped twice here so that the URL that is returned can be parsed again.)
\<close>
lemma VaultURL_accepts_ipv6_zone:
  "VaultURL sample_platform (\<lambda>addr. addr = ''2001:db8::1%25x.vault.azure.net'')
     ''https://[2001:db8::1%2525x.vault.azure.net]'' [] = Inr ''https://[2001:db8::1%25x.vault.azure.net]''"
  by code_simp

text \<open>The result keeps a trailing slash when the path has two.\<close>

lemma VaultURL_keeps_slash:
  "VaultURL sample_platform (\<lambda>_. False) ''https://v.vault.azure.net//'' [] = Inr ''https://v.vault.azure.net/''"
  by code_simp

end
