(* ===== verification/Pkcs12.thy ===== *)
theory Pkcs12
  imports Ports
begin

text \<open>
  The PKCS#12 encoder (\<open>internal/infra/pkcs12/encoder.go\<close>). The archive format itself is the
  business of \<open>go-pkcs12\<close>, and random bytes come from \<open>crypto/rand\<close>: both are fields of
  \<open>pkcs12_lib\<close>.
\<close>

section \<open>Profiles\<close>

type_synonym profile = string

definition ProfileLegacy :: profile where "ProfileLegacy = ''legacy''"
definition ProfilePasswordless :: profile where "ProfilePasswordless = ''passwordless''"
definition ProfileModern :: profile where "ProfileModern = ''modern''"

lemmas profile_defs = ProfileLegacy_def ProfilePasswordless_def ProfileModern_def

text \<open>The encoders of the library that the program chooses from.\<close>

datatype p12_scheme = LegacyDES | PasswordlessScheme | Modern2023

record 'w pkcs12_lib =
  p12_Encode :: "p12_scheme \<Rightarrow> private_key \<Rightarrow> x509_cert \<Rightarrow> x509_cert list \<Rightarrow> string \<Rightarrow> ('w, bytes) io"
  p12_DefaultPassword :: string
  rand_Read :: "nat \<Rightarrow> ('w, bytes) io"

section \<open>The encoder\<close>

text \<open>An \<open>Encoder\<close> holds nothing but its profile.\<close>

definition NewEncoder :: "profile \<Rightarrow> profile go_result" where
  "NewEncoder p =
     (if p = [] then Inr ProfileLegacy
      else if p = ProfileLegacy \<or> p = ProfilePasswordless \<or> p = ProfileModern then Inr p
      else Inl (Errorf ''unknown pkcs12 profile %q'' [AStr p]))"

definition encoder_ContentType :: string where
  "encoder_ContentType = ContentTypePKCS12"

definition randomPassword :: "'w pkcs12_lib \<Rightarrow> ('w, string) io" where
  "randomPassword L =
     io_bind (io_wrap (\<lambda>err. Errorf ''generating pkcs#12 password: %w'' [AErr err]) (rand_Read L 24))
       (\<lambda>buf. io_return (hex_EncodeToString buf))"

definition encoder_settings :: "'w pkcs12_lib \<Rightarrow> profile \<Rightarrow> ('w, p12_scheme \<times> string) io" where
  "encoder_settings L p =
     (if p = ProfilePasswordless then io_return (PasswordlessScheme, [])
      else if p = ProfileModern
      then io_bind (randomPassword L) (\<lambda>password. io_return (Modern2023, password))
      else io_return (LegacyDES, p12_DefaultPassword L))"

definition EncodeBundle :: "'w pkcs12_lib \<Rightarrow> profile \<Rightarrow> cert_bundle option \<Rightarrow> ('w, bytes \<times> string) io" where
  "EncodeBundle L p ob =
     (case ob of
        None \<Rightarrow> io_fail (EDomain ErrNoCertificates)
      | Some b \<Rightarrow>
          io_bind (encoder_settings L p) (\<lambda>(scheme, password).
          io_bind (io_wrap (\<lambda>err. Errorf ''encoding pkcs#12 (%s profile): %w'' [AStr p, AErr err])
                     (p12_Encode L scheme (bd_PrivateKey b) (bd_Leaf b) (bd_Chain b) password)) (\<lambda>blob.
          io_return (blob, password))))"

definition the_encoder :: "'w pkcs12_lib \<Rightarrow> profile \<Rightarrow> 'w encoder" where
  "the_encoder L p = \<lparr>en_Encode = EncodeBundle L p, en_ContentType = encoder_ContentType\<rparr>"

section \<open>Lemmas\<close>

lemma NewEncoder_Inr: "NewEncoder p = Inr q \<Longrightarrow> q = ProfileLegacy \<or> q = ProfilePasswordless \<or> q = ProfileModern"
  by (auto simp: NewEncoder_def split: if_splits)

lemma EncodeBundle_Inr:
  assumes "EncodeBundle L p (Some b) w = (Inr (blob, pw), w')"
  obtains scheme w1 where "encoder_settings L p w = (Inr (scheme, pw), w1)"
    and "p12_Encode L scheme (bd_PrivateKey b) (bd_Leaf b) (bd_Chain b) pw w1 = (Inr blob, w')"
  using assms by (auto simp: EncodeBundle_def io_Inr_iffs)

lemma EncodeBundle_keeps:
  assumes "\<And>s k l c pw. io_keeps f (p12_Encode L s k l c pw)" and "\<And>n. io_keeps f (rand_Read L n)"
  shows "io_keeps f (EncodeBundle L p ob)"
  unfolding EncodeBundle_def encoder_settings_def randomPassword_def
  by (auto split: option.split prod.split intro!: io_keep assms)

section \<open>The contract\<close>

text \<open>
  \<open>DecodeChain\<close> of the library, and the leaf that a reader finds in an archive that has a key.
\<close>

type_synonym decode_chain = "bytes \<Rightarrow> string \<Rightarrow> (private_key option \<times> x509_cert \<times> x509_cert list) go_result"

definition archive_leaf_of :: "decode_chain \<Rightarrow> bytes \<Rightarrow> string \<Rightarrow> x509_cert option" where
  "archive_leaf_of dec blob pw = (case dec blob pw of Inr (Some k, leaf, chain) \<Rightarrow> Some leaf | _ \<Rightarrow> None)"

text \<open>
  A library that reads back each archive before it returns it. Its archives are the bytes of the
  leaf; its random bytes are zeros.
\<close>

definition checked_p12 :: "decode_chain \<Rightarrow> 'w pkcs12_lib" where
  "checked_p12 dec =
     \<lparr> p12_Encode = (\<lambda>s k l c pw.
         if archive_leaf_of dec (x_Raw l) pw = Some l then io_return (x_Raw l)
         else io_fail (EText ''archive cannot be read back'')),
       p12_DefaultPassword = ''changeit'',
       rand_Read = (\<lambda>n. io_return (replicate n (char_of (0 :: nat)))) \<rparr>"

interpretation pkcs12_encoder: encoder_contract "the_encoder (checked_p12 dec) p" wf view "archive_leaf_of dec"
  for dec p wf view
proof
  fix b w blob pw w'
  assume "en_Encode (the_encoder (checked_p12 dec) p) (Some b) w = (Inr (blob, pw), w')"
  then show "archive_leaf_of dec blob pw = Some (bd_Leaf b)"
    by (auto simp: the_encoder_def checked_p12_def io_return_def io_fail_def
        elim!: EncodeBundle_Inr split: if_splits)
next
  fix ob w r w'
  assume "wf w" and e: "en_Encode (the_encoder (checked_p12 dec) p) ob w = (r, w')"
  have "io_keeps id (EncodeBundle (checked_p12 dec) p ob)"
    by (rule EncodeBundle_keeps) (auto simp: checked_p12_def intro!: io_keep)
  then have "w' = w" using e by (auto simp: the_encoder_def dest: io_keepsD)
  with \<open>wf w\<close> show "wf w' \<and> view w' = view w" by simp
qed

section \<open>Property\<close>

text \<open>
  The password that protects an archive goes with its profile: none for a passwordless one,
  the library's well-known one for the legacy one, and for the modern one 48 hexadecimal digits
  of fresh random bytes, drawn before the archive is made; the archive is made by the scheme of
  the profile from the key, the leaf and the whole chain of the bundle.
\<close>
theorem EncodeBundle_password:
  assumes "NewEncoder p = Inr q" and "EncodeBundle L q (Some b) w = (Inr (blob, pw), w')"
    and "\<And>n v bs v'. rand_Read L n v = (Inr bs, v') \<Longrightarrow> length bs = n"
  shows "(q = ProfilePasswordless \<and> pw = [] \<and>
            p12_Encode L PasswordlessScheme (bd_PrivateKey b) (bd_Leaf b) (bd_Chain b) [] w = (Inr blob, w')) \<or>
         (q = ProfileLegacy \<and> pw = p12_DefaultPassword L \<and>
            p12_Encode L LegacyDES (bd_PrivateKey b) (bd_Leaf b) (bd_Chain b) pw w = (Inr blob, w')) \<or>
         (q = ProfileModern \<and> length pw = 48 \<and> (\<exists>bs w1. rand_Read L 24 w = (Inr bs, w1) \<and>
            pw = hex_EncodeToString bs \<and>
            p12_Encode L Modern2023 (bd_PrivateKey b) (bd_Leaf b) (bd_Chain b) pw w1 = (Inr blob, w')))"
proof -
  obtain scheme w1 where s: "encoder_settings L q w = (Inr (scheme, pw), w1)"
    and e: "p12_Encode L scheme (bd_PrivateKey b) (bd_Leaf b) (bd_Chain b) pw w1 = (Inr blob, w')"
    by (rule EncodeBundle_Inr [OF assms(2)])
  from NewEncoder_Inr [OF assms(1)] consider "q = ProfileLegacy" | "q = ProfilePasswordless" | "q = ProfileModern"
    by blast
  then show ?thesis
  proof cases
    case 3
    with s have m: "scheme = Modern2023" "\<exists>bs. rand_Read L 24 w = (Inr bs, w1) \<and> pw = hex_EncodeToString bs"
      by (auto simp: encoder_settings_def profile_defs randomPassword_def io_Inr_iffs)
    with assms(3) have "length pw = 48" by fastforce
    with 3 m e show ?thesis by blast
  qed (use s e in \<open>auto simp: encoder_settings_def profile_defs io_return_Inr_iff\<close>)
qed

text \<open>A library whose archives are the leaf's bytes, and whose random bytes are zeros.\<close>

definition toy_p12 :: "'w pkcs12_lib" where
  "toy_p12 =
     \<lparr> p12_Encode = (\<lambda>s k l c pw. io_return (x_Raw l)), p12_DefaultPassword = ''changeit'',
       rand_Read = (\<lambda>n. io_return (replicate n (char_of (0 :: nat)))) \<rparr>"

lemma EncodeBundle_password_witness:
  "EncodeBundle toy_p12 ProfileModern (Some toy_bundle) () =
     (Inr (''cert3'', replicate 48 (CHR ''0'')), ()) \<and> length (replicate 48 (CHR ''0'')) = 48"
proof -
  have e: "EncodeBundle toy_p12 ProfileModern (Some toy_bundle) () =
     (Inr (''cert3'', replicate 48 (CHR ''0'')), ())" by code_simp
  have n: "NewEncoder ''modern'' = Inr ProfileModern" by code_simp
  have r: "rand_Read toy_p12 n v = (Inr bs, v') \<Longrightarrow> length bs = n" for n and v v' :: unit and bs
    by (auto simp: toy_p12_def io_return_def)
  from EncodeBundle_password [OF n e r] e show ?thesis by (auto simp: profile_defs)
qed

end
