(* ===== verification/Base64.thy ===== *)
theory Base64
  imports Errors
begin

text \<open>
  \<open>base64.StdEncoding\<close>, in which a PKCS#12 archive travels to Key Vault: \<open>EncodeToString\<close>
  and \<open>DecodeString\<close>, and the round trip.
\<close>

section \<open>Digits\<close>

definition b64_alphabet :: string where
  "b64_alphabet = ''ABCDEFGHIJKLMNOPQRSTUVWXYZabcdefghijklmnopqrstuvwxyz0123456789+/''"

definition b64_char :: "nat \<Rightarrow> char" where
  "b64_char n = b64_alphabet ! n"

definition b64_value :: "char \<Rightarrow> nat option" where
  "b64_value c = (if List.member b64_alphabet c then Some (length (takeWhile (\<lambda>x. x \<noteq> c) b64_alphabet)) else None)"

lemma b64_digits: "n < 64 \<Longrightarrow> b64_value (b64_char n) = Some n \<and> b64_char n \<noteq> CHR ''='' \<and>
    b64_char n \<noteq> char_of (10 :: nat) \<and> b64_char n \<noteq> char_of (13 :: nat)"
proof -
  have "list_all (\<lambda>n. b64_value (b64_char n) = Some n \<and> b64_char n \<noteq> CHR ''='' \<and>
    b64_char n \<noteq> char_of (10 :: nat) \<and> b64_char n \<noteq> char_of (13 :: nat)) [0..<64]" by code_simp
  then show "n < 64 \<Longrightarrow> ?thesis" by (simp add: list_all_iff)
qed

section \<open>Encoding\<close>

fun b64_encode :: "bytes \<Rightarrow> string" where
  "b64_encode [] = []"
| "b64_encode [a] =
     [b64_char (of_char a div 4), b64_char (of_char a mod 4 * 16), CHR ''='', CHR ''='']"
| "b64_encode [a, b] =
     [b64_char (of_char a div 4), b64_char (of_char a mod 4 * 16 + of_char b div 16),
      b64_char (of_char b mod 16 * 4), CHR ''='']"
| "b64_encode (a # b # c # s) =
     b64_char (of_char a div 4) # b64_char (of_char a mod 4 * 16 + of_char b div 16) #
     b64_char (of_char b mod 16 * 4 + of_char c div 64) # b64_char (of_char c mod 64) # b64_encode s"

section \<open>Decoding\<close>

definition join2 :: "nat \<Rightarrow> nat \<Rightarrow> char" where
  "join2 x y = char_of (x * 4 + y div 16)"

definition join3 :: "nat \<Rightarrow> nat \<Rightarrow> char" where
  "join3 y z = char_of (y mod 16 * 16 + z div 4)"

definition join4 :: "nat \<Rightarrow> nat \<Rightarrow> char" where
  "join4 z u = char_of (z mod 4 * 64 + u)"

text \<open>Groups of four digits, of which only the last may be padded.\<close>

fun b64_groups :: "string \<Rightarrow> bytes option" where
  "b64_groups [] = Some []"
| "b64_groups (p # q # r # s # rest) =
     (if s = CHR ''='' then
        (if rest \<noteq> [] then None
         else if r = CHR ''='' then
           (case (b64_value p, b64_value q) of (Some x, Some y) \<Rightarrow> Some [join2 x y] | _ \<Rightarrow> None)
         else
           (case (b64_value p, b64_value q, b64_value r) of
              (Some x, Some y, Some z) \<Rightarrow> Some [join2 x y, join3 y z] | _ \<Rightarrow> None))
      else
        (case (b64_value p, b64_value q, b64_value r, b64_value s) of
           (Some x, Some y, Some z, Some u) \<Rightarrow>
             map_option (\<lambda>bs. join2 x y # join3 y z # join4 z u # bs) (b64_groups rest)
         | _ \<Rightarrow> None))"
| "b64_groups _ = None"

text \<open>Line breaks are ignored.\<close>

definition b64_decode :: "string \<Rightarrow> bytes go_result" where
  "b64_decode s =
     (case b64_groups (filter (\<lambda>c. c \<noteq> char_of (10 :: nat) \<and> c \<noteq> char_of (13 :: nat)) s) of
        None \<Rightarrow> Inl (EText ''illegal base64 data'')
      | Some bs \<Rightarrow> Inr bs)"

section \<open>Round trip\<close>

lemma of_char_256: "of_char c < (256 :: nat)"
  by simp

lemma b64_join:
  "of_char a = n \<Longrightarrow> join2 (n div 4) (n mod 4 * 16 + k) = a" if "k < 16"
proof -
  assume "of_char a = n"
  moreover have "(n mod 4 * 16 + k) div 16 = n mod 4" using that by simp
  ultimately show ?thesis by (simp add: join2_def) (metis char_of_char mod_div_mult_eq add.commute)
qed

lemma b64_join3:
  "of_char b = n \<Longrightarrow> join3 (m * 16 + n div 16) (n mod 16 * 4 + k) = b" if "k < 4"
proof -
  assume n: "of_char b = n"
  then have "n < 256" using of_char_256 [of b] by simp
  then have "(m * 16 + n div 16) mod 16 = n div 16" "(n mod 16 * 4 + k) div 4 = n mod 16" using that by auto
  then show ?thesis using n by (simp add: join3_def) (metis char_of_char div_mult_mod_eq)
qed

lemma b64_join4: "of_char c = n \<Longrightarrow> join4 (m * 4 + n div 64) (n mod 64) = c"
proof -
  assume n: "of_char c = n"
  then have "n < 256" using of_char_256 [of c] by simp
  then have "(m * 4 + n div 64) mod 4 = n div 64" by auto
  then show ?thesis using n by (simp add: join4_def) (metis char_of_char div_mult_mod_eq)
qed

lemma b64_bounds:
  assumes "n < 256" and "m < 256"
  shows "n div 4 < 64" "n mod 4 * 16 < (64 :: nat)" "n mod 4 * 16 + m div 16 < 64" "n mod 16 * 4 < 64"
    "n mod 16 * 4 + m div 64 < 64" "n mod 64 < 64" "m div 16 < 16" "m div 64 < (4 :: nat)"
proof -
  have "n mod 4 < 4" "n mod 16 < 16" by simp_all
  moreover show "n div 4 < 64" "n mod 64 < 64" and m: "m div 16 < 16" "m div 64 < 4"
    using assms by (simp_all add: less_mult_imp_div_less)
  ultimately show "n mod 4 * 16 < (64 :: nat)" "n mod 4 * 16 + m div 16 < 64" "n mod 16 * 4 < 64"
    "n mod 16 * 4 + m div 64 < 64" by linarith+
qed

lemma b64_groups_encode: "b64_groups (b64_encode s) = Some s"
proof (induction s rule: b64_encode.induct)
  case (2 a)
  note b = b64_bounds [OF of_char_256 [of a] of_char_256 [of a]]
  show ?case
    using b64_digits b b64_join [of 0 a] by simp
next
  case (3 a b)
  note b = b64_bounds [OF of_char_256 [of a] of_char_256 [of b]] b64_bounds [OF of_char_256 [of b] of_char_256 [of a]]
  show ?case
    using b64_digits b b64_join [OF b(7), of a] b64_join3 [of 0 b] by simp
next
  case (4 a b c s)
  note b = b64_bounds [OF of_char_256 [of a] of_char_256 [of b]] b64_bounds [OF of_char_256 [of b] of_char_256 [of c]]
    b64_bounds [OF of_char_256 [of c] of_char_256 [of a]]
  show ?case
    using 4 b64_digits b b64_join [OF b(7), of a] b64_join3 [OF b(16), of b] b64_join4 [of c] by simp
qed simp

lemma b64_encode_set: "set (b64_encode s) \<subseteq> insert (CHR ''='') (b64_char ` {..<64})"
  by (induction s rule: b64_encode.induct)
     (auto intro!: imageI simp: b64_bounds less_mult_imp_div_less)

lemma b64_encode_chars: "c \<in> set (b64_encode s) \<Longrightarrow> c \<noteq> char_of (10 :: nat) \<and> c \<noteq> char_of (13 :: nat)"
proof -
  assume "c \<in> set (b64_encode s)"
  then have "c \<in> insert (CHR ''='') (b64_char ` {..<64})" using b64_encode_set [of s] by (rule rev_subsetD)
  then consider "c = CHR ''=''" | n where "n < 64" "c = b64_char n" by blast
  then show ?thesis
  proof cases
    case 1
    then show ?thesis by simp code_simp
  qed (use b64_digits in simp)
qed

lemma b64_round_trip: "b64_decode (b64_encode s) = Inr s"
proof -
  have "filter (\<lambda>c. c \<noteq> char_of (10 :: nat) \<and> c \<noteq> char_of (13 :: nat)) (b64_encode s) = b64_encode s"
    by (rule filter_True) (use b64_encode_chars in blast)
  then show ?thesis by (simp add: b64_decode_def b64_groups_encode)
qed

end
