(* ===== verification/AzureRepository.thy ===== *)
theory AzureRepository
  imports Ports Base64
begin

text \<open>
  The Key Vault repository (\<open>internal/infra/azure/keyvault.go\<close>). The SDK is a parameter:
  the factory of clients and the two calls on a client. A client is a handle of any type.
  \<open>ClientCache\<close> shows that concurrent callers see \<open>clientFor\<close> as it is here.
\<close>

section \<open>The SDK\<close>

record cert_attributes =
  at_Enabled :: "bool option"
  at_Expires :: "time option"

record cert_response =
  cp_X509Thumbprint :: bytes
  cp_Tags :: "(string \<times> string option) list"
  cp_Attributes :: "cert_attributes option"
  cp_Version :: "string option"

record import_parameters =
  ip_Base64 :: string
  ip_ContentType :: string
  ip_Password :: "string option"
  ip_Tags :: "(string \<times> string option) list option"

record ('c, 'w) azure_sdk =
  new_client :: "string \<Rightarrow> ('w, 'c) io"
  GetCertificate :: "'c \<Rightarrow> string \<Rightarrow> string \<Rightarrow> ('w, cert_response) io"
  ImportCertificate :: "'c \<Rightarrow> string \<Rightarrow> import_parameters \<Rightarrow> ('w, cert_response) io"

section \<open>The repository\<close>

text \<open>
  The state of a repository is its cache of clients, one per vault URL. It is kept beside the
  world that the SDK acts on. The mutex of the code makes \<open>clientFor\<close> one step.
\<close>

type_synonym ('c, 'w) repo_world = "(string \<times> 'c) list \<times> 'w"

definition outside :: "('w, 'a) io \<Rightarrow> (('c, 'w) repo_world, 'a) io" where
  "outside m cw = (case cw of (clients, w) \<Rightarrow> (case m w of (r, w') \<Rightarrow> (r, (clients, w'))))"

definition clientFor :: "('c, 'w) azure_sdk \<Rightarrow> string \<Rightarrow> (('c, 'w) repo_world, 'c) io" where
  "clientFor S vaultURL cw =
     (case map_of (fst cw) vaultURL of
        Some client \<Rightarrow> (Inr client, cw)
      | None \<Rightarrow>
          (case outside (new_client S vaultURL) cw of
             (Inl err, cw') \<Rightarrow> (Inl (Errorf ''creating Key Vault client for %q: %w'' [AStr vaultURL, AErr err]), cw')
           | (Inr client, (clients, w')) \<Rightarrow> (Inr client, (AList.update vaultURL client clients, w'))))"

text \<open>\<open>errors.As\<close> into an \<open>azcore.ResponseError\<close> with status 404: the first response decides.\<close>

fun response_status :: "go_error \<Rightarrow> nat option" where
  "response_status (EResponse n _) = Some n"
| "response_status _ = None"

definition isNotFound :: "go_error \<Rightarrow> bool" where
  "isNotFound err = (first_some response_status (error_chain err) = Some 404)"

definition toAzureTags :: "(string \<times> string) list \<Rightarrow> (string \<times> string option) list option" where
  "toAzureTags tags = (if tags = [] then None else Some (map (\<lambda>(k, v). (k, Some v)) tags))"

definition snapshot_of :: "cert_response \<Rightarrow> vault_snapshot" where
  "snapshot_of resp =
     \<lparr> sn_Exists = True, sn_Thumbprint = cp_X509Thumbprint resp,
       sn_ChainDigest = (case map_of (cp_Tags resp) TagChainDigest of Some (Some value) \<Rightarrow> value | _ \<Rightarrow> []),
       sn_Enabled = (case cp_Attributes resp of
                       Some attrs \<Rightarrow> (case at_Enabled attrs of Some e \<Rightarrow> e | None \<Rightarrow> True) | None \<Rightarrow> True),
       sn_NotAfter = (case cp_Attributes resp of
                       Some attrs \<Rightarrow> (case at_Expires attrs of Some t \<Rightarrow> t | None \<Rightarrow> 0) | None \<Rightarrow> 0) \<rparr>"

definition repo_Snapshot :: "('c, 'w) azure_sdk \<Rightarrow> vault_ref \<Rightarrow> (('c, 'w) repo_world, vault_snapshot) io" where
  "repo_Snapshot S ref =
     io_bind (clientFor S (vr_VaultURL ref)) (\<lambda>client.
     io_case (outside (GetCertificate S client (vr_CertificateName ref) []))
       (\<lambda>err. if isNotFound err then io_return absent_snapshot
              else io_fail (Errorf ''getting certificate %q: %w'' [AStr (vr_CertificateName ref), AErr err]))
       (\<lambda>resp. io_return (snapshot_of resp)))"

definition repo_Import ::
  "('c, 'w) azure_sdk \<Rightarrow> vault_ref \<Rightarrow> import_request \<Rightarrow> (('c, 'w) repo_world, import_result) io" where
  "repo_Import S ref req =
     io_bind (clientFor S (vr_VaultURL ref)) (\<lambda>client.
     let params =
       \<lparr> ip_Base64 = b64_encode (ir_Blob req), ip_ContentType = ir_ContentType req,
         ip_Password = (if ir_Password req \<noteq> [] then Some (ir_Password req) else None),
         ip_Tags = toAzureTags (ir_Tags req) \<rparr> in
     io_bind (io_wrap (\<lambda>err. Errorf ''importing certificate %q: %w'' [AStr (vr_CertificateName ref), AErr err])
                (outside (ImportCertificate S client (vr_CertificateName ref) params))) (\<lambda>resp.
     io_return
       \<lparr> im_Version = (case cp_Version resp of Some v \<Rightarrow> v | None \<Rightarrow> []),
         im_Thumbprint = cp_X509Thumbprint resp \<rparr>))"

definition Repository :: "('c, 'w) azure_sdk \<Rightarrow> ('c, 'w) repo_world vault_repository" where
  "Repository S = \<lparr>vp_Snapshot = repo_Snapshot S, vp_Import = repo_Import S\<rparr>"

text \<open>The factory for a credential, and a repository around it, whose cache is empty.\<close>

definition NewClientFactory :: "(string \<Rightarrow> 'a \<Rightarrow> ('w, 'c) io) \<Rightarrow> 'a \<Rightarrow> string \<Rightarrow> ('w, 'c) io" where
  "NewClientFactory NewClient cred = (\<lambda>vaultURL. NewClient vaultURL cred)"

definition NewRepository ::
  "('c, 'w) azure_sdk \<Rightarrow> (string \<Rightarrow> ('w, 'c) io) \<Rightarrow> (('c, 'w) repo_world, ('c, 'w) repo_world vault_repository) io" where
  "NewRepository S factory cw = (Inr (Repository (S\<lparr>new_client := factory\<rparr>)), ([], snd cw))"

section \<open>Lemmas\<close>

text \<open>A cache in which every client is one the factory gives for its URL.\<close>

definition cached_by :: "(string \<Rightarrow> 'c) \<Rightarrow> (string \<times> 'c) list \<Rightarrow> bool" where
  "cached_by f clients = list_all (\<lambda>(u, c). c = f u) clients"

lemma cached_by_lookup: "cached_by f clients \<Longrightarrow> map_of clients u = Some c \<Longrightarrow> c = f u"
  by (auto simp: cached_by_def list_all_iff dest: map_of_SomeD)

lemma cached_by_update: "cached_by f clients \<Longrightarrow> cached_by f (AList.update u (f u) clients)"
  by (induction clients) (auto simp: cached_by_def)

text \<open>A factory that always succeeds with a fixed client per URL and leaves the world alone.\<close>

lemma clientFor_pure:
  assumes "\<And>u w. new_client S u w = (Inr (f u), w)" and "cached_by f clients"
  shows "\<exists>clients'. clientFor S u (clients, w) = (Inr (f u), (clients', w)) \<and> cached_by f clients'"
proof (cases "map_of clients u")
  case (Some c)
  then show ?thesis using cached_by_lookup [OF assms(2)] assms(2) by (auto simp: clientFor_def)
next
  case None
  then show ?thesis using cached_by_update [OF assms(2)] by (simp add: clientFor_def outside_def assms(1))
qed

section \<open>Property\<close>

text \<open>
  A client is made at most once for a vault URL: once a call for the URL has succeeded, every
  later one gives the same client, asks the factory for nothing and changes nothing, and the
  clients of other URLs are untouched.
\<close>
theorem clientFor_cached:
  assumes "clientFor S u cw = (Inr c, cw')"
  shows "clientFor S u cw' = (Inr c, cw') \<and> (u' \<noteq> u \<longrightarrow> map_of (fst cw') u' = map_of (fst cw) u')"
  using assms
  by (cases cw; cases "map_of (fst cw) u")
     (auto simp: clientFor_def outside_def update_conv' split: prod.splits sum.splits)

definition counting_sdk :: "(string, nat) azure_sdk" where
  "counting_sdk =
     \<lparr> new_client = (\<lambda>u n. (Inr u, Suc n)),
       GetCertificate = (\<lambda>c name v. io_fail (EResponse 404 ''CertificateNotFound'')),
       ImportCertificate = (\<lambda>c name ps. io_fail (EText ''read only'')) \<rparr>"

lemma clientFor_cached_witness:
  "clientFor counting_sdk ''https://v'' ([(''https://v'', ''https://v'')], 1) =
     (Inr ''https://v'', ([(''https://v'', ''https://v'')], 1))"
proof -
  have "clientFor counting_sdk ''https://v'' ([], 0) = (Inr ''https://v'', ([(''https://v'', ''https://v'')], 1))"
    by code_simp
  from clientFor_cached [OF this] show ?thesis by blast
qed

end
