(* ===== verification/FakeKeyVault.thy ===== *)
theory FakeKeyVault
  imports Syncer Pkcs12 AzureRepository
begin

text \<open>
  The repository's own Key Vault server (\<open>test/e2e/fakekeyvault/server.go\<close>), which the
  end-to-end tests run the operator against, and the SDK on top of it. It provides the contract
  of a vault repository, and with it everything a sync guarantees. The HTTP server before it is that
  of \<open>FakeServer\<close>. The reader of PKCS#12
  archives and the encoder of the library are parameters.
\<close>

section \<open>The server\<close>

record stored =
  sd_thumbprint :: bytes
  sd_tags :: "(string \<times> string) list"
  sd_version :: string
  sd_notAfter :: time

record fk_import =
  fi_Name :: string
  fi_ContentType :: string
  fi_Tags :: "(string \<times> string) list"
  fi_Leaf :: x509_cert
  fi_Chain :: "x509_cert list"
  fi_Thumbprint :: bytes
  fi_Version :: string

record fk_server =
  fs_certs :: "(string \<times> stored) list"
  fs_imports :: "fk_import list"
  fs_counter :: nat

definition VaultHost :: string where
  "VaultHost = ''e2e-fake.vault.azure.net''"

definition server_URL :: string where
  "server_URL = ''https://'' @ VaultHost"

text \<open>\<open>fmt.Sprintf("%032x", n)\<close>.\<close>

fun nat_hex :: "nat \<Rightarrow> string" where
  "nat_hex n = (if n < 16 then [hex_digit n] else nat_hex (n div 16) @ [hex_digit (n mod 16)])"

declare nat_hex.simps [simp del]

definition version_of :: "nat \<Rightarrow> string" where
  "version_of n = (let h = nat_hex n in replicate (32 - length h) (CHR ''0'') @ h)"

text \<open>The JSON body of an answer, by its fields.\<close>

record fk_body =
  fb_id_version :: string
  fb_x5t :: bytes
  fb_tags :: "(string \<times> string) list"
  fb_enabled :: bool
  fb_exp :: int

definition server_body :: "stored \<Rightarrow> fk_body" where
  "server_body current =
     \<lparr> fb_id_version = sd_version current, fb_x5t = sd_thumbprint current, fb_tags = sd_tags current,
       fb_enabled = True, fb_exp = Unix (sd_notAfter current) \<rparr>"

definition getCertificate :: "string \<Rightarrow> (fk_server, fk_body) io" where
  "getCertificate name s =
     (case map_of (fs_certs s) name of
        None \<Rightarrow> (Inl (EResponse 404 ''CertificateNotFound''), s)
      | Some current \<Rightarrow> (Inr (server_body current), s))"

record fk_params =
  fp_Value :: string
  fp_Pwd :: string
  fp_Tags :: "(string \<times> string) list"
  fp_ContentType :: string

definition importCertificate :: "platform \<Rightarrow> decode_chain \<Rightarrow> fk_params \<Rightarrow> string \<Rightarrow> (fk_server, fk_body) io" where
  "importCertificate P dec params name s =
     (case b64_decode (fp_Value params) of
        Inl err \<Rightarrow> (Inl (EResponse 400 (''value is not base64: '' @ error_text P err)), s)
      | Inr blob \<Rightarrow>
          (case dec blob (fp_Pwd params) of
             Inl err \<Rightarrow> (Inl (EResponse 400 (''pkcs#12 archive is unreadable: '' @ error_text P err)), s)
           | Inr (key, leaf, chain) \<Rightarrow>
               if key = None then (Inl (EResponse 400 ''archive has no private key''), s)
               else
                 let sum = sha1_Sum P (x_Raw leaf);
                     counter = Suc (fs_counter s);
                     version = version_of counter;
                     current = \<lparr> sd_thumbprint = sum, sd_tags = fp_Tags params, sd_version = version,
                                 sd_notAfter = x_NotAfter leaf \<rparr>
                 in (Inr (server_body current),
                     \<lparr> fs_certs = AList.update name current (fs_certs s),
                       fs_imports = fs_imports s @
                         [\<lparr> fi_Name = name, fi_ContentType = fp_ContentType params, fi_Tags = fp_Tags params,
                            fi_Leaf = leaf, fi_Chain = chain, fi_Thumbprint = sum, fi_Version = version \<rparr>],
                       fs_counter = counter \<rparr>)))"

definition ImportCount :: "fk_server \<Rightarrow> string \<Rightarrow> nat" where
  "ImportCount s name = length (filter (\<lambda>imported. fi_Name imported = name) (fs_imports s))"

section \<open>The SDK over the server\<close>

definition response_of :: "fk_body \<Rightarrow> cert_response" where
  "response_of b =
     \<lparr> cp_X509Thumbprint = fb_x5t b, cp_Tags = map (\<lambda>(k, v). (k, Some v)) (fb_tags b),
       cp_Attributes = Some \<lparr>at_Enabled = Some (fb_enabled b), at_Expires = Some (time_Unix (fb_exp b))\<rparr>,
       cp_Version = Some (fb_id_version b) \<rparr>"

definition params_of :: "import_parameters \<Rightarrow> fk_params" where
  "params_of ps =
     \<lparr> fp_Value = ip_Base64 ps, fp_Pwd = (case ip_Password ps of None \<Rightarrow> [] | Some pw \<Rightarrow> pw),
       fp_Tags = (case ip_Tags ps of None \<Rightarrow> [] | Some ts \<Rightarrow> map (\<lambda>(k, v). (k, case v of None \<Rightarrow> [] | Some t \<Rightarrow> t)) ts),
       fp_ContentType = ip_ContentType ps \<rparr>"

text \<open>A client is the URL it was made for; only the server's own URL leads to the server.\<close>

definition fake_sdk :: "platform \<Rightarrow> decode_chain \<Rightarrow> (string, fk_server) azure_sdk" where
  "fake_sdk P dec =
     \<lparr> new_client = io_return,
       GetCertificate = (\<lambda>client name version.
         if client = server_URL then io_bind (getCertificate name) (\<lambda>b. io_return (response_of b))
         else io_fail (EText ''no such host'')),
       ImportCertificate = (\<lambda>client name ps.
         if client = server_URL
         then io_bind (importCertificate P dec (params_of ps) name) (\<lambda>b. io_return (response_of b))
         else io_fail (EText ''no such host'')) \<rparr>"

section \<open>The contract\<close>

type_synonym fk_world = "(string, fk_server) repo_world"

definition fk_wf :: "fk_world \<Rightarrow> bool" where
  "fk_wf w = cached_by id (fst w)"

definition fk_served :: "vault_ref \<Rightarrow> bool" where
  "fk_served ref = (vr_VaultURL ref = server_URL)"

definition fk_view :: "fk_world \<Rightarrow> vault_ref \<Rightarrow> vault_snapshot" where
  "fk_view w ref =
     (case map_of (fs_certs (snd w)) (vr_CertificateName ref) of
        None \<Rightarrow> absent_snapshot
      | Some current \<Rightarrow> snapshot_of (response_of (server_body current)))"

lemma fk_clientFor:
  assumes "fk_wf w"
  shows "\<exists>clients. clientFor (fake_sdk P dec) u w = (Inr u, (clients, snd w)) \<and> cached_by id clients"
  using clientFor_pure [of "fake_sdk P dec" id "fst w" u "snd w"] assms
  by (auto simp: fake_sdk_def io_return_def fk_wf_def)

lemma map_of_Some_tags: "map_of (map (\<lambda>(k, v). (k, Some v)) ts) k = map_option Some (map_of ts k)"
  by (induction ts) auto

lemma tags_round_trip: "fp_Tags (params_of (ps\<lparr>ip_Tags := toAzureTags ts\<rparr>)) = ts"
  by (auto simp: params_of_def toAzureTags_def comp_def split_def)

lemma fk_snapshot:
  assumes "fk_wf w" and "fk_served ref"
  shows "\<exists>w'. repo_Snapshot (fake_sdk P dec) ref w = (Inr (fk_view w ref), w') \<and> fk_wf w' \<and> snd w' = snd w"
proof -
  obtain clients where c: "clientFor (fake_sdk P dec) server_URL w = (Inr server_URL, (clients, snd w))"
    "cached_by id clients" using fk_clientFor [OF assms(1)] by blast
  have "repo_Snapshot (fake_sdk P dec) ref w = (Inr (fk_view w ref), (clients, snd w))"
    using assms(2) c(1)
    by (cases "map_of (fs_certs (snd w)) (vr_CertificateName ref)")
       (simp_all add: repo_Snapshot_def fk_served_def io_simps outside_def fake_sdk_def getCertificate_def
          isNotFound_def fk_view_def)
  with c(2) show ?thesis by (simp add: fk_wf_def)
qed

text \<open>What an import of an archive does on the server, when the archive can be read.\<close>

definition store_import :: "platform \<Rightarrow> string \<Rightarrow> import_request \<Rightarrow> x509_cert \<Rightarrow> x509_cert list \<Rightarrow> fk_server \<Rightarrow> fk_server" where
  "store_import P name rq leaf chain s =
     (let version = version_of (Suc (fs_counter s)) in
      \<lparr> fs_certs = AList.update name
          \<lparr> sd_thumbprint = sha1_Sum P (x_Raw leaf), sd_tags = ir_Tags rq, sd_version = version,
            sd_notAfter = x_NotAfter leaf \<rparr> (fs_certs s),
        fs_imports = fs_imports s @
          [\<lparr> fi_Name = name, fi_ContentType = ir_ContentType rq, fi_Tags = ir_Tags rq, fi_Leaf = leaf,
             fi_Chain = chain, fi_Thumbprint = sha1_Sum P (x_Raw leaf), fi_Version = version \<rparr>],
        fs_counter = Suc (fs_counter s) \<rparr>)"

lemma params_of_request:
  "params_of \<lparr>ip_Base64 = v, ip_ContentType = t, ip_Password = (if pw \<noteq> [] then Some pw else None),
      ip_Tags = toAzureTags ts\<rparr> =
   \<lparr>fp_Value = v, fp_Pwd = pw, fp_Tags = ts, fp_ContentType = t\<rparr>"
  using tags_round_trip [where ts = ts and
      ps = "\<lparr>ip_Base64 = v, ip_ContentType = t, ip_Password = None, ip_Tags = None\<rparr>"]
  by (simp add: params_of_def)

lemma fk_import_cases:
  assumes "fk_wf w" and "fk_served ref"
  shows "\<exists>clients. cached_by id clients \<and>
     (case ir_Blob rq of blob \<Rightarrow>
       case archive_leaf_of dec blob (ir_Password rq) of
         None \<Rightarrow> \<exists>e. repo_Import (fake_sdk P dec) ref rq w = (Inl e, (clients, snd w))
       | Some leaf \<Rightarrow> \<exists>chain res. repo_Import (fake_sdk P dec) ref rq w =
           (Inr res, (clients, store_import P (vr_CertificateName ref) rq leaf chain (snd w))))"
proof -
  obtain clients where c: "clientFor (fake_sdk P dec) server_URL w = (Inr server_URL, (clients, snd w))"
    "cached_by id clients" using fk_clientFor [OF assms(1)] by blast
  show ?thesis
  proof (intro exI [of _ clients] conjI c(2))
    show "case ir_Blob rq of blob \<Rightarrow>
       case archive_leaf_of dec blob (ir_Password rq) of
         None \<Rightarrow> \<exists>e. repo_Import (fake_sdk P dec) ref rq w = (Inl e, (clients, snd w))
       | Some leaf \<Rightarrow> \<exists>chain res. repo_Import (fake_sdk P dec) ref rq w =
           (Inr res, (clients, store_import P (vr_CertificateName ref) rq leaf chain (snd w)))"
      using assms(2) c(1)
      by (cases "dec (ir_Blob rq) (ir_Password rq)")
         (auto simp: repo_Import_def fk_served_def io_simps outside_def fake_sdk_def importCertificate_def
            b64_round_trip archive_leaf_of_def store_import_def params_of_request Let_def split: option.splits)
  qed
qed

lemma fk_view_store:
  "fk_view (clients, store_import P name rq leaf chain s) ref =
     (if vr_CertificateName ref = name
      then snapshot_of (response_of (server_body
             \<lparr> sd_thumbprint = sha1_Sum P (x_Raw leaf), sd_tags = ir_Tags rq,
               sd_version = version_of (Suc (fs_counter s)), sd_notAfter = x_NotAfter leaf \<rparr>))
      else fk_view (clients, s) ref)"
  by (simp add: fk_view_def store_import_def Let_def update_conv')

lemma fk_view_store_other:
  "vr_CertificateName ref \<noteq> name \<Longrightarrow>
     fk_view (clients, store_import P name rq leaf chain (snd w)) ref = fk_view w ref"
  by (simp add: fk_view_store) (simp add: fk_view_def)

lemma fk_view_snd: "snd w = snd w' \<Longrightarrow> fk_view w = fk_view w'"
  by (rule ext) (simp add: fk_view_def)

interpretation fake_vault: vault_contract P "Repository (fake_sdk P dec)" fk_wf fk_served fk_view "archive_leaf_of dec"
  for P dec
proof
  fix w r w' ref
  assume "fk_wf w" and "fk_served ref" and "vp_Snapshot (Repository (fake_sdk P dec)) ref w = (r, w')"
  then show "fk_wf w' \<and> fk_view w' = fk_view w \<and> (\<forall>sn. r = Inr sn \<longrightarrow> sn = fk_view w ref)"
    using fk_snapshot [where w = w and ref = ref and P = P and dec = dec] by (auto simp: Repository_def dest: fk_view_snd)
next
  fix w w' ref rq e
  assume "fk_wf w" and "fk_served ref" and "vp_Import (Repository (fake_sdk P dec)) ref rq w = (Inl e, w')"
  then show "fk_wf w' \<and> fk_view w' = fk_view w"
    using fk_import_cases [where w = w and ref = ref and rq = rq and dec = dec and P = P]
    by (auto simp: Repository_def fk_wf_def split: option.splits intro: fk_view_snd)
next
  fix w w' ref rq res
  assume "fk_wf w" and "fk_served ref" and "vp_Import (Repository (fake_sdk P dec)) ref rq w = (Inr res, w')"
  then show "fk_wf w' \<and> (\<exists>leaf. archive_leaf_of dec (ir_Blob rq) (ir_Password rq) = Some leaf \<and>
      sn_Exists (fk_view w' ref) \<and> sn_Enabled (fk_view w' ref) \<and>
      sn_Thumbprint (fk_view w' ref) = sha1_Sum P (x_Raw leaf) \<and>
      sn_ChainDigest (fk_view w' ref) =
        (case map_of (ir_Tags rq) TagChainDigest of None \<Rightarrow> [] | Some d \<Rightarrow> d))"
    using fk_import_cases [where w = w and ref = ref and rq = rq and dec = dec and P = P]
    by (auto simp: Repository_def fk_wf_def fk_view_store snapshot_of_def response_of_def server_body_def
        map_of_Some_tags split: option.splits)
next
  fix w w' ref rq res ref'
  assume "fk_wf w" and r: "fk_served ref" and "vp_Import (Repository (fake_sdk P dec)) ref rq w = (Inr res, w')"
    and r': "fk_served ref'" "ref' \<noteq> ref"
  moreover have "vr_CertificateName ref' \<noteq> vr_CertificateName ref"
    using r r' by (auto simp: fk_served_def)
  ultimately show "fk_view w' ref' = fk_view w ref'"
    using fk_import_cases [where w = w and ref = ref and rq = rq and dec = dec and P = P]
    by (auto simp: Repository_def fk_view_store_other intro: fk_view_snd [THEN fun_cong] split: option.splits)
qed

end
