(* ===== verification/Kube.thy ===== *)
theory Kube
  imports Ports
begin

text \<open>
  The adapters that read the cluster (\<open>internal/infra/kube/secretsource.go\<close> and
  \<open>internal/infra/kube/hostsource.go\<close>). The Kubernetes client is a parameter: a record of the
  reads the code makes, each by the fields of the objects that the code looks at.
\<close>

section \<open>Labels (\<open>api/v1alpha1/labels.go\<close>)\<close>

definition LabelManaged :: string where "LabelManaged = ''certsync.vileend.io/managed''"
definition LabelManagedValue :: string where "LabelManagedValue = ''true''"
definition LabelPolicy :: string where "LabelPolicy = ''certsync.vileend.io/policy''"
definition LabelCertificate :: string where "LabelCertificate = ''certsync.vileend.io/certificate''"
definition FinalizerName :: string where "FinalizerName = ''certsync.vileend.io/finalizer''"

section \<open>Objects and reads\<close>

record secret =
  se_Type :: string
  se_Data :: "(string \<times> bytes) list"

record ingress =
  ing_Namespace :: string
  ing_RuleHosts :: "string list"
  ing_TLSHosts :: "string list list"

record http_route =
  rt_Namespace :: string
  rt_Hostnames :: "string list"

record gateway =
  gw_Namespace :: string
  gw_Listeners :: "string option list"

text \<open>A parsed label selector: whether it is empty, and its text.\<close>

record selector =
  sl_Empty :: bool
  sl_String :: string

record 'w kube_reader =
  get_secret :: "secret_ref \<Rightarrow> ('w, secret) io"
  list_ingresses :: "('w, ingress list) io"
  list_httproutes :: "('w, http_route list) io"
  list_gateways :: "('w, gateway list) io"
  list_namespaces :: "selector \<Rightarrow> ('w, string list) io"

definition SecretTypeTLS :: string where "SecretTypeTLS = ''kubernetes.io/tls''"
definition TLSCertKey :: string where "TLSCertKey = ''tls.crt''"
definition TLSPrivateKeyKey :: string where "TLSPrivateKeyKey = ''tls.key''"

section \<open>The source of certificates\<close>

definition secret_error :: "secret_ref \<Rightarrow> go_error \<Rightarrow> go_error" where
  "secret_error ref err =
     (if IsNotFound err
      then Errorf ''secret %s not found (if it exists, check it carries the %s=%s label, without which it is outside this operator's cache): %w''
             [AStr (secret_ref_String ref), AStr LabelManaged, AStr LabelManagedValue, AErr err]
      else Errorf ''reading secret %s: %w'' [AStr (secret_ref_String ref), AErr err])"

definition bundle_of_secret :: "x509_lib \<Rightarrow> secret_ref \<Rightarrow> secret \<Rightarrow> cert_bundle go_result" where
  "bundle_of_secret L ref s =
     (if se_Type s \<noteq> SecretTypeTLS
      then Inl (Errorf ''secret %s has type %q, want %q''
                  [AStr (secret_ref_String ref), AStr (se_Type s), AStr SecretTypeTLS])
      else (case map_of (se_Data s) TLSCertKey of
              None \<Rightarrow> Inl (Errorf ''secret %s has no %s'' [AStr (secret_ref_String ref), AStr TLSCertKey])
            | Some certPEM \<Rightarrow>
                if certPEM = []
                then Inl (Errorf ''secret %s has no %s'' [AStr (secret_ref_String ref), AStr TLSCertKey])
                else (case map_of (se_Data s) TLSPrivateKeyKey of
                        None \<Rightarrow> Inl (Errorf ''secret %s has no %s'' [AStr (secret_ref_String ref), AStr TLSPrivateKeyKey])
                      | Some keyPEM \<Rightarrow>
                          if keyPEM = []
                          then Inl (Errorf ''secret %s has no %s'' [AStr (secret_ref_String ref), AStr TLSPrivateKeyKey])
                          else (case ParseBundle L certPEM keyPEM of
                                  Inl err \<Rightarrow> Inl (Errorf ''parsing secret %s: %w''
                                               [AStr (secret_ref_String ref), AErr err])
                                | Inr b \<Rightarrow> Inr b))))"

definition SecretSource_Load :: "x509_lib \<Rightarrow> 'w kube_reader \<Rightarrow> 'w certificate_source" where
  "SecretSource_Load L R ref =
     io_bind (io_wrap (secret_error ref) (get_secret R ref))
       (\<lambda>s. io_lift (bundle_of_secret L ref s))"

definition NewSecretSource :: "x509_lib \<Rightarrow> 'w kube_reader \<Rightarrow> 'w certificate_source" where
  "NewSecretSource L reader = SecretSource_Load L reader"

section \<open>The source of host names\<close>

record host_source_config =
  hc_IncludeIngress :: bool
  hc_IncludeHTTPRoutes :: bool
  hc_IncludeGateways :: bool
  hc_NamespaceSelector :: "selector option"

definition allowedNamespaces :: "'w kube_reader \<Rightarrow> host_source_config \<Rightarrow> ('w, string list option) io" where
  "allowedNamespaces R h =
     (case hc_NamespaceSelector h of
        None \<Rightarrow> io_return None
      | Some sel \<Rightarrow>
          if sl_Empty sel then io_return None
          else io_bind (io_wrap (\<lambda>err. Errorf ''listing namespaces: %w'' [AErr err]) (list_namespaces R sel))
                 (\<lambda>names. io_return (Some names)))"

definition inNamespace :: "string list option \<Rightarrow> string \<Rightarrow> bool" where
  "inNamespace allowed ns = (case allowed of None \<Rightarrow> True | Some names \<Rightarrow> ns \<in> set names)"

definition add_host :: "string \<Rightarrow> string list \<Rightarrow> string list" where
  "add_host host seen = (if host = [] then seen else List.insert host seen)"

definition ingress_step :: "string list option \<Rightarrow> ingress \<Rightarrow> string list \<Rightarrow> string list" where
  "ingress_step allowed i seen =
     (if \<not> inNamespace allowed (ing_Namespace i) then seen
      else fold (fold add_host) (ing_TLSHosts i) (fold add_host (ing_RuleHosts i) seen))"

definition route_step :: "string list option \<Rightarrow> http_route \<Rightarrow> string list \<Rightarrow> string list" where
  "route_step allowed r seen =
     (if \<not> inNamespace allowed (rt_Namespace r) then seen else fold add_host (rt_Hostnames r) seen)"

definition gateway_step :: "string list option \<Rightarrow> gateway \<Rightarrow> string list \<Rightarrow> string list" where
  "gateway_step allowed g seen =
     (if \<not> inNamespace allowed (gw_Namespace g) then seen
      else fold (\<lambda>l seen. case l of None \<Rightarrow> seen | Some hostname \<Rightarrow> add_host hostname seen) (gw_Listeners g) seen)"

text \<open>One kind of object: listed, and folded into the set of hosts, if the kind is included.\<close>

definition collect :: "bool \<Rightarrow> string \<Rightarrow> ('w, 'x list) io \<Rightarrow> ('x \<Rightarrow> string list \<Rightarrow> string list) \<Rightarrow>
    string list \<Rightarrow> ('w, string list) io" where
  "collect include what list_all_of step seen =
     (if include
      then io_bind (io_wrap (\<lambda>err. Errorf (''listing '' @ what @ '': %w'') [AErr err]) list_all_of)
             (\<lambda>items. io_return (fold step items seen))
      else io_return seen)"

definition HostSource_Hosts :: "'w kube_reader \<Rightarrow> host_source_config \<Rightarrow> 'w host_source" where
  "HostSource_Hosts R h =
     io_bind (allowedNamespaces R h) (\<lambda>allowed.
     io_bind (collect (hc_IncludeIngress h) ''ingresses'' (list_ingresses R) (ingress_step allowed) []) (\<lambda>seen.
     io_bind (collect (hc_IncludeHTTPRoutes h) ''httproutes'' (list_httproutes R) (route_step allowed) seen) (\<lambda>seen.
     io_bind (collect (hc_IncludeGateways h) ''gateways'' (list_gateways R) (gateway_step allowed) seen) (\<lambda>seen.
     io_return (sort seen)))))"

section \<open>What the steps collect\<close>

definition ingress_hosts :: "ingress \<Rightarrow> string set" where
  "ingress_hosts i = set (ing_RuleHosts i) \<union> \<Union> (set ` set (ing_TLSHosts i))"

definition gateway_hosts :: "gateway \<Rightarrow> string set" where
  "gateway_hosts g = {h. Some h \<in> set (gw_Listeners g)}"

lemma fold_add_host:
  "set (fold add_host hs seen) = set seen \<union> (set hs - {[]})"
  "distinct seen \<Longrightarrow> distinct (fold add_host hs seen)"
  by (induction hs arbitrary: seen) (auto simp: add_host_def distinct_insert)

lemma fold_fold_add_host:
  "set (fold (fold add_host) hss seen) = set seen \<union> (\<Union> (set ` set hss) - {[]})"
  "distinct seen \<Longrightarrow> distinct (fold (fold add_host) hss seen)"
  by (induction hss arbitrary: seen) (auto simp: fold_add_host)

lemma fold_listeners:
  "set (fold (\<lambda>l seen. case l of None \<Rightarrow> seen | Some h \<Rightarrow> add_host h seen) ls seen) =
     set seen \<union> ({h. Some h \<in> set ls} - {[]})"
  "distinct seen \<Longrightarrow> distinct (fold (\<lambda>l seen. case l of None \<Rightarrow> seen | Some h \<Rightarrow> add_host h seen) ls seen)"
  by (induction ls arbitrary: seen) (auto simp: add_host_def distinct_insert split: option.splits)

lemma ingress_step_set:
  "set (ingress_step a i seen) = set seen \<union> ((if inNamespace a (ing_Namespace i) then ingress_hosts i else {}) - {[]})"
  "distinct seen \<Longrightarrow> distinct (ingress_step a i seen)"
  by (auto simp: ingress_step_def fold_add_host fold_fold_add_host ingress_hosts_def)

lemma route_step_set:
  "set (route_step a r seen) = set seen \<union> ((if inNamespace a (rt_Namespace r) then set (rt_Hostnames r) else {}) - {[]})"
  "distinct seen \<Longrightarrow> distinct (route_step a r seen)"
  by (auto simp: route_step_def fold_add_host)

lemma gateway_step_set:
  "set (gateway_step a g seen) = set seen \<union> ((if inNamespace a (gw_Namespace g) then gateway_hosts g else {}) - {[]})"
  "distinct seen \<Longrightarrow> distinct (gateway_step a g seen)"
  by (auto simp: gateway_step_def fold_listeners gateway_hosts_def)

lemma fold_steps:
  assumes "\<And>x s. set (step x s) = set s \<union> (f x - {[]})" and "\<And>x s. distinct s \<Longrightarrow> distinct (step x s)"
  shows "set (fold step xs seen) = set seen \<union> (\<Union> (f ` set xs) - {[]})"
    and "distinct seen \<Longrightarrow> distinct (fold step xs seen)"
  using assms by (induction xs arbitrary: seen) auto

section \<open>A cluster that can be read\<close>

text \<open>
  A cluster as the lists of its objects; a reader of it never fails but for a Secret that is
  missing. \<open>routed_hosts\<close> is what its routing objects name.
\<close>

record cluster =
  cs_Secrets :: "(secret_ref \<times> secret) list"
  cs_Ingresses :: "ingress list"
  cs_HTTPRoutes :: "http_route list"
  cs_Gateways :: "gateway list"
  cs_Namespaces :: "(string \<times> string list) list"

text \<open>Namespaces carry the texts of the selectors that match them.\<close>

definition cluster_reader :: "('w \<Rightarrow> cluster) \<Rightarrow> 'w kube_reader" where
  "cluster_reader c =
     \<lparr> get_secret = (\<lambda>ref w. case map_of (cs_Secrets (c w)) ref of
         None \<Rightarrow> (Inl (EStatus StatusNotFound ''not found''), w) | Some s \<Rightarrow> (Inr s, w)),
       list_ingresses = (\<lambda>w. (Inr (cs_Ingresses (c w)), w)),
       list_httproutes = (\<lambda>w. (Inr (cs_HTTPRoutes (c w)), w)),
       list_gateways = (\<lambda>w. (Inr (cs_Gateways (c w)), w)),
       list_namespaces = (\<lambda>sel w.
         (Inr (map fst (filter (\<lambda>(n, sels). sl_String sel \<in> set sels) (cs_Namespaces (c w)))), w)) \<rparr>"

definition in_scope :: "host_source_config \<Rightarrow> cluster \<Rightarrow> string \<Rightarrow> bool" where
  "in_scope h c ns =
     (case hc_NamespaceSelector h of
        None \<Rightarrow> True
      | Some sel \<Rightarrow> sl_Empty sel \<or> (\<exists>(n, sels) \<in> set (cs_Namespaces c). n = ns \<and> sl_String sel \<in> set sels))"

definition routed_hosts :: "host_source_config \<Rightarrow> cluster \<Rightarrow> string set" where
  "routed_hosts h c =
     (if hc_IncludeIngress h then \<Union> (ingress_hosts ` {i \<in> set (cs_Ingresses c). in_scope h c (ing_Namespace i)}) else {}) \<union>
     (if hc_IncludeHTTPRoutes h then \<Union> ((\<lambda>r. set (rt_Hostnames r)) ` {r \<in> set (cs_HTTPRoutes c). in_scope h c (rt_Namespace r)}) else {}) \<union>
     (if hc_IncludeGateways h then \<Union> (gateway_hosts ` {g \<in> set (cs_Gateways c). in_scope h c (gw_Namespace g)}) else {})"

lemma io_bind_step: "m w = (Inr x, w') \<Longrightarrow> io_bind m f w = f x w'"
  by (simp add: io_bind_def)

lemma collect_read:
  "m w = (Inr items, w) \<Longrightarrow>
     collect b what m step seen w = (Inr (if b then fold step items seen else seen), w)"
  by (simp add: collect_def io_simps)

lemma cluster_reads:
  "list_ingresses (cluster_reader c) w = (Inr (cs_Ingresses (c w)), w)"
  "list_httproutes (cluster_reader c) w = (Inr (cs_HTTPRoutes (c w)), w)"
  "list_gateways (cluster_reader c) w = (Inr (cs_Gateways (c w)), w)"
  by (simp_all add: cluster_reader_def)

definition cluster_allowed :: "host_source_config \<Rightarrow> cluster \<Rightarrow> string list option" where
  "cluster_allowed h c =
     (case hc_NamespaceSelector h of
        None \<Rightarrow> None
      | Some sel \<Rightarrow> if sl_Empty sel then None
          else Some (map fst (filter (\<lambda>(n, sels). sl_String sel \<in> set sels) (cs_Namespaces c))))"

lemma cluster_allowed_eq: "allowedNamespaces (cluster_reader c) h w = (Inr (cluster_allowed h (c w)), w)"
  by (auto simp: allowedNamespaces_def cluster_allowed_def cluster_reader_def io_simps split: option.split)

lemma cluster_allowed_scope: "inNamespace (cluster_allowed h c) ns = in_scope h c ns"
  by (force simp: inNamespace_def cluster_allowed_def in_scope_def split: option.split)

lemma HostSource_cluster:
  obtains hosts where "HostSource_Hosts (cluster_reader c) h w = (Inr hosts, w)"
    and "sorted hosts" and "distinct hosts" and "set hosts = routed_hosts h (c w) - {[]}"
proof -
  let ?a = "cluster_allowed h (c w)"
  let ?s1 = "if hc_IncludeIngress h then fold (ingress_step ?a) (cs_Ingresses (c w)) [] else []"
  let ?s2 = "if hc_IncludeHTTPRoutes h then fold (route_step ?a) (cs_HTTPRoutes (c w)) ?s1 else ?s1"
  let ?s3 = "if hc_IncludeGateways h then fold (gateway_step ?a) (cs_Gateways (c w)) ?s2 else ?s2"
  note f1 = fold_steps [where step = "ingress_step ?a", OF ingress_step_set]
  note f2 = fold_steps [where step = "route_step ?a", OF route_step_set]
  note f3 = fold_steps [where step = "gateway_step ?a", OF gateway_step_set]
  have run: "HostSource_Hosts (cluster_reader c) h w = (Inr (sort ?s3), w)"
    by (simp only: HostSource_Hosts_def io_bind_step [OF cluster_allowed_eq]
        io_bind_step [OF collect_read [OF cluster_reads(1)]] io_bind_step [OF collect_read [OF cluster_reads(2)]]
        io_bind_step [OF collect_read [OF cluster_reads(3)]] io_return_def)
  have "distinct ?s1" using f1(2) by simp
  then have "distinct ?s2" using f2(2) by simp
  then have d: "distinct ?s3" using f3(2) by simp
  have "set ?s3 = routed_hosts h (c w) - {[]}"
    by (simp add: f1(1) f2(1) f3(1) cluster_allowed_scope routed_hosts_def) (auto split: if_splits)
  with run d show ?thesis by (intro that [of "sort ?s3"]) simp_all
qed

section \<open>The contracts\<close>

interpretation kube_hosts: host_contract "HostSource_Hosts (cluster_reader c) h" "\<lambda>w. routed_hosts h (c w)"
  for c h
proof
  fix w hosts w'
  assume "HostSource_Hosts (cluster_reader c) h w = (Inr hosts, w')"
  then show "sorted hosts \<and> distinct hosts \<and> set hosts = routed_hosts h (c w) - {[]}"
    by (rule_tac HostSource_cluster [of c h w]) simp
qed

lemma Load_reads_only: "SecretSource_Load L (cluster_reader c) ref w = (r, w') \<Longrightarrow> w' = w"
  by (auto simp: SecretSource_Load_def cluster_reader_def io_simps split: option.splits)

interpretation kube_source: reader_contract "SecretSource_Load L (cluster_reader c)" "\<lambda>w. (t w, w)" wf view
  for L c t wf view
  by unfold_locales (auto dest: Load_reads_only)

section \<open>Properties\<close>

text \<open>
  C19. Discovery succeeds on a cluster that can be read and returns exactly the host names that its
  Ingresses (rules and TLS blocks), HTTPRoutes and Gateway listeners name, of the kinds that are
  included and in the namespaces that are selected: sorted, each once, none blank. The cluster
  is not changed.
\<close>
theorem HostSource_exact:
  "\<exists>hosts. HostSource_Hosts (cluster_reader c) h w = (Inr hosts, w) \<and> sorted hosts \<and> distinct hosts \<and>
     set hosts = routed_hosts h (c w) - {[]}"
  by (rule HostSource_cluster [of c h w]) blast

text \<open>
  A Secret yields a bundle only if it is of the TLS type and has both entries, and then the
  bundle is what its entries parse to; a Secret that is missing gives an error that still tells
  the controller that nothing was found, and every domain error of the parser keeps its kind.
\<close>
theorem SecretSource_Load_cases:
  "case SecretSource_Load L (cluster_reader c) ref w of
     (Inr b, w') \<Rightarrow> w' = w \<and> (\<exists>s crt key. map_of (cs_Secrets (c w)) ref = Some s \<and> se_Type s = ''kubernetes.io/tls'' \<and>
        map_of (se_Data s) ''tls.crt'' = Some crt \<and> map_of (se_Data s) ''tls.key'' = Some key \<and>
        crt \<noteq> [] \<and> key \<noteq> [] \<and> ParseBundle L crt key = Inr b)
   | (Inl e, w') \<Rightarrow> w' = w \<and>
        (case map_of (cs_Secrets (c w)) ref of
           None \<Rightarrow> IsNotFound e
         | Some s \<Rightarrow> (case map_of (se_Data s) ''tls.crt'' of None \<Rightarrow> True | Some crt \<Rightarrow>
             (case map_of (se_Data s) ''tls.key'' of None \<Rightarrow> True | Some key \<Rightarrow>
                (case ParseBundle L crt key of Inr b \<Rightarrow> True | Inl err \<Rightarrow>
                   se_Type s = ''kubernetes.io/tls'' \<and> crt \<noteq> [] \<and> key \<noteq> [] \<longrightarrow> (\<forall>d. errors_Is e d = errors_Is err d)))))"
proof (cases "map_of (cs_Secrets (c w)) ref")
  case None
  then show ?thesis
    by (simp add: SecretSource_Load_def cluster_reader_def io_simps secret_error_def IsNotFound_def)
next
  case (Some s)
  then show ?thesis
    by (auto simp: SecretSource_Load_def cluster_reader_def io_simps bundle_of_secret_def
        SecretTypeTLS_def TLSCertKey_def TLSPrivateKeyKey_def split: option.split sum.split)
qed

text \<open>A Secret with certificates that do not belong to its key.\<close>

definition mismatched :: cluster where
  "mismatched =
     \<lparr> cs_Secrets = [(\<lparr>sr_Namespace = ''web'', sr_Name = ''x-tls''\<rparr>,
         \<lparr>se_Type = ''kubernetes.io/tls'', se_Data = [(''tls.crt'', ''C1C0''), (''tls.key'', ''K3'')]\<rparr>)],
       cs_Ingresses = [], cs_HTTPRoutes = [], cs_Gateways = [], cs_Namespaces = [] \<rparr>"

lemma SecretSource_Load_cases_witness:
  "\<exists>e. SecretSource_Load toy_x509 (cluster_reader (\<lambda>_. mismatched)) \<lparr>sr_Namespace = ''web'', sr_Name = ''x-tls''\<rparr> () =
     (Inl e, ()) \<and> errors_Is e ErrKeyMismatch"
proof -
  let ?ref = "\<lparr>sr_Namespace = ''web'', sr_Name = ''x-tls''\<rparr>"
  have p: "ParseBundle toy_x509 ''C1C0'' ''K3'' = Inl (EDomain ErrKeyMismatch)" by code_simp
  note all = SecretSource_Load_cases [where L = toy_x509 and c = "\<lambda>_. mismatched" and ref = ?ref and w = "()"]
  obtain r where r: "SecretSource_Load toy_x509 (cluster_reader (\<lambda>_. mismatched)) ?ref () = (r, ())"
    by (metis surj_pair unit.exhaust)
  show ?thesis
  proof (cases r)
    case (Inl e)
    with all r p show ?thesis by (simp add: mismatched_def)
  next
    case (Inr b)
    with all r p show ?thesis by (simp add: mismatched_def)
  qed
qed

end
