(* ===== verification/SyncSystem.thy ===== *)
theory SyncSystem
  imports FakeKeyVault Kube
begin

text \<open>
  The sync use case over the adapters of the repository: certificates come from the Secrets of a
  cluster, are packed by the PKCS#12 encoder and go through the Key Vault repository to the
  server that the end-to-end tests use.
\<close>

section \<open>The composition\<close>

definition the_operator ::
  "platform \<Rightarrow> decode_chain \<Rightarrow> x509_lib \<Rightarrow> profile \<Rightarrow> cluster \<Rightarrow> (fk_world \<Rightarrow> time) \<Rightarrow> fk_world syncer" where
  "the_operator P dec L p c t =
     \<lparr> sy_Source = SecretSource_Load L (cluster_reader (\<lambda>_. c)), sy_Vault = Repository (fake_sdk P dec),
       sy_Encode = the_encoder (checked_p12 dec) p, sy_Clock = (\<lambda>w. (t w, w)) \<rparr>"

interpretation keyvault_sync: sync_contract P "Repository (fake_sdk P dec)" fk_wf fk_served fk_view
    "archive_leaf_of dec" "the_encoder (checked_p12 dec) p" "SecretSource_Load L (cluster_reader c)" "\<lambda>w. (t w, w)"
  for P dec p L c t
  by unfold_locales

lemma Load_cluster: "SecretSource_Load L (cluster_reader (\<lambda>_. c)) ref w = (r, w') \<Longrightarrow>
    w' = w \<and> SecretSource_Load L (cluster_reader (\<lambda>_. c)) ref v = (r, v)"
  by (auto simp: SecretSource_Load_def cluster_reader_def io_simps split: option.splits)

lemma served_named [simp]: "fk_served (named_ref req n) \<longleftrightarrow> vr_VaultURL (rq_Vault req) = server_URL"
  by (simp add: fk_served_def named_ref_def)

text \<open>The encoder of a library whose archives can be read succeeds.\<close>

lemma encoder_succeeds:
  assumes "p = ProfileLegacy \<or> p = ProfilePasswordless \<or> p = ProfileModern"
    and "\<And>pw. archive_leaf_of dec (x_Raw (bd_Leaf b)) pw = Some (bd_Leaf b)"
  shows "\<exists>pw. en_Encode (the_encoder (checked_p12 dec) p) (Some b) w = (Inr (x_Raw (bd_Leaf b), pw), w)"
  using assms
  by (auto simp: the_encoder_def EncodeBundle_def encoder_settings_def randomPassword_def checked_p12_def
      io_simps profile_defs)

text \<open>A sync goes through when each of its calls does.\<close>

lemma Sync_import_intro:
  assumes "sy_Source s (rq_Source req) w = (Inr b, w1)" and "sync_name P req b = Inr name" and "valid_vault_name name"
    and "vp_Snapshot (sy_Vault s) (named_ref req name) w1 = (Inr sn, w2)" and "sy_Clock s w2 = (now, w3)"
    and "DecideSync P (Some b) sn now = Inr d" and "dc_Action d = ActionImport"
    and "en_Encode (sy_Encode s) (Some b) w3 = (Inr (blob, pw), w4)"
    and "vp_Import (sy_Vault s) (named_ref req name) (import_of P s req b blob pw) w4 = (Inr res, w5)"
  shows "\<exists>out. Sync P s req w = (Inr out, w5) \<and> so_Action out = ActionImport \<and> so_CertificateName out = name"
  using assms Validate_Inr_iff [of name]
  by (simp add: Sync_def io_simps Let_def import_of_def named_ref_def)

text \<open>A sync of a valid bundle that the vault does not hold: it imports.\<close>

lemma Sync_imports:
  assumes "fk_wf w" and "vr_VaultURL (rq_Vault req) = server_URL"
    and "SecretSource_Load L (cluster_reader (\<lambda>_. c)) (rq_Source req) w = (Inr b, w)"
    and "sync_name P req b = Inr name" and "valid_vault_name name" and "Validate b now = Inr ()"
    and "\<not> holds_bundle P (fk_view w (named_ref req name)) b"
    and "p = ProfileLegacy \<or> p = ProfilePasswordless \<or> p = ProfileModern"
    and "\<And>pw. archive_leaf_of dec (x_Raw (bd_Leaf b)) pw = Some (bd_Leaf b)"
  shows "\<exists>out w'. Sync P (the_operator P dec L p c (\<lambda>_. now)) req w = (Inr out, w') \<and> so_Action out = ActionImport"
proof -
  let ?ref = "named_ref req name"
  obtain w2 where sn: "repo_Snapshot (fake_sdk P dec) ?ref w = (Inr (fk_view w ?ref), w2)" and w2: "fk_wf w2"
    using fk_snapshot [OF assms(1)] assms(2) by (metis served_named)
  obtain d where d: "DecideSync P (Some b) (fk_view w ?ref) now = Inr d"
    using DecideSync_Inr assms(6) by blast
  have a: "dc_Action d = ActionImport" using DecideSync_action [OF d] assms(7) by (cases "dc_Action d") auto
  have v: "ValidateVaultCertificateName name = Inr ()" using assms(5) by (simp add: Validate_Inr_iff)
  obtain pw where e: "en_Encode (the_encoder (checked_p12 dec) p) (Some b) w2 = (Inr (x_Raw (bd_Leaf b), pw), w2)"
    by (rule exE [OF encoder_succeeds [OF assms(8,9)]])
  let ?rq = "\<lparr>ir_Blob = x_Raw (bd_Leaf b), ir_Password = pw,
      ir_ContentType = en_ContentType (the_encoder (checked_p12 dec) p :: fk_world encoder), ir_Tags = tagsFor P req b\<rparr>"
  obtain res w3 where i: "repo_Import (fake_sdk P dec) ?ref ?rq w2 = (Inr res, w3)"
    using fk_import_cases [OF w2, where ref = ?ref and dec = dec and rq = ?rq and P = P] assms(2,9) by auto
  have "\<exists>out. Sync P (the_operator P dec L p c (\<lambda>_. now)) req w = (Inr out, w3) \<and> so_Action out = ActionImport \<and>
      so_CertificateName out = name"
    by (rule Sync_import_intro [OF _ assms(4,5) _ _ d a])
       (use assms(3) sn e i in \<open>simp_all add: the_operator_def Repository_def import_of_def\<close>)
  then show ?thesis by blast
qed

text \<open>A sync of a bundle that the vault holds: it succeeds, and leaves the server as it was.\<close>

lemma Sync_held:
  assumes "fk_wf w" and "vr_VaultURL (rq_Vault req) = server_URL"
    and "SecretSource_Load L (cluster_reader (\<lambda>_. c)) (rq_Source req) w = (Inr b, w)"
    and "sync_name P req b = Inr name" and "valid_vault_name name" and "Validate b now = Inr ()"
    and "holds_bundle P (fk_view w (named_ref req name)) b"
  shows "\<exists>out w'. Sync P (the_operator P dec L p c (\<lambda>_. now)) req w = (Inr out, w') \<and>
     so_Action out = ActionNone \<and> so_CertificateName out = name \<and> snd w' = snd w"
proof -
  obtain w2 where sn: "repo_Snapshot (fake_sdk P dec) (named_ref req name) w = (Inr (fk_view w (named_ref req name)), w2)"
    "snd w2 = snd w"
    using fk_snapshot [OF assms(1)] assms(2) by (metis served_named)
  obtain d where d: "DecideSync P (Some b) (fk_view w (named_ref req name)) now = Inr d"
    using DecideSync_Inr assms(6) by blast
  have a: "dc_Action d = ActionNone" using DecideSync_action [OF d] assms(7) by simp
  have v: "ValidateVaultCertificateName name = Inr ()" using assms(5) by (simp add: Validate_Inr_iff)
  show ?thesis
    using assms(3,4) sn d a v
    by (simp add: Sync_def the_operator_def Repository_def io_simps named_ref_def Let_def)
qed

section \<open>Properties\<close>


text \<open>
  C16. Syncing is idempotent: after a sync that succeeded, syncing the same request again succeeds
  at every instant at which the certificate is valid, under the same name, and does nothing: no
  import is sent, and the server is left exactly as it was, with no new version.
\<close>
theorem Sync_idempotent:
  assumes "Sync P (the_operator P dec L p c t) req w = (Inr out, w')" and "fk_wf w"
    and "vr_VaultURL (rq_Vault req) = server_URL"
    and "SecretSource_Load L (cluster_reader (\<lambda>_. c)) (rq_Source req) w = (Inr b, w1)"
    and "Validate b now = Inr ()"
  shows "\<exists>out' w''. Sync P (the_operator P dec L p' c (\<lambda>_. now)) req w' = (Inr out', w'') \<and>
     so_Action out' = ActionNone \<and> so_CertificateName out' = so_CertificateName out \<and> snd w'' = snd w'"
proof -
  note run = assms(1) [unfolded the_operator_def]
  have n: "sync_name P req b = Inr (so_CertificateName out) \<and> valid_vault_name (so_CertificateName out)"
    by (rule Sync_InrE [OF run]) (use assms(4) in auto)
  have l: "SecretSource_Load L (cluster_reader (\<lambda>_. c)) (rq_Source req) w' = (Inr b, w')"
    using Load_cluster [OF assms(4), of w'] Load_cluster [of L c "rq_Source req" w'] by (metis surj_pair)
  have h: "fk_wf w' \<and> holds_bundle P (fk_view w' (named_ref req (so_CertificateName out))) b"
    using keyvault_sync.Sync_holds [OF run assms(2) _ assms(4)] assms(3) by simp
  show ?thesis
    by (rule Sync_held) (use h l n assms(3,5) in auto)
qed

text \<open>
  A sync gets through whenever it should: if the Secret yields a bundle that is valid at the
  time, the name for it is a valid one and its archive can be read back, then the sync succeeds
  under that name, for every profile; it imports exactly when the vault does not hold the bundle
  already.
\<close>
theorem Sync_succeeds:
  assumes "fk_wf w" and "vr_VaultURL (rq_Vault req) = server_URL"
    and "SecretSource_Load L (cluster_reader (\<lambda>_. c)) (rq_Source req) w = (Inr b, w)"
    and "sync_name P req b = Inr name" and "valid_vault_name name" and "Validate b now = Inr ()"
    and "p = ProfileLegacy \<or> p = ProfilePasswordless \<or> p = ProfileModern"
    and "\<And>pw. archive_leaf_of dec (x_Raw (bd_Leaf b)) pw = Some (bd_Leaf b)"
  shows "\<exists>out w'. Sync P (the_operator P dec L p c (\<lambda>_. now)) req w = (Inr out, w') \<and>
    so_CertificateName out = name \<and>
    (so_Action out = ActionImport) = (\<not> holds_bundle P (fk_view w (named_ref req name)) b)"
proof (cases "holds_bundle P (fk_view w (named_ref req name)) b")
  case True
  then show ?thesis using Sync_held [OF assms(1-6), of dec p] by auto
next
  case False
  obtain out w' where s: "Sync P (the_operator P dec L p c (\<lambda>_. now)) req w = (Inr out, w')"
    "so_Action out = ActionImport"
    using Sync_imports [OF assms(1-6) False assms(7,8)] by blast
  have "so_CertificateName out = name"
    by (rule Sync_InrE [OF s(1) [unfolded the_operator_def]]) (use assms(3,4) in auto)
  then show ?thesis using s False by blast
qed

section \<open>An example run\<close>

definition toy_decode :: decode_chain where
  "toy_decode = (\<lambda>blob pw. if blob = ''cert3'' then Inr (Some (RSAKey ''3''), toy_cert 3, []) else Inl (EText ''bad''))"

definition toy_cluster :: cluster where
  "toy_cluster =
     \<lparr> cs_Secrets = [(\<lparr>sr_Namespace = ''web'', sr_Name = ''x-tls''\<rparr>,
         \<lparr>se_Type = ''kubernetes.io/tls'', se_Data = [(''tls.crt'', ''C1C0C7C3C2''), (''tls.key'', ''K3'')]\<rparr>)],
       cs_Ingresses = [], cs_HTTPRoutes = [], cs_Gateways = [], cs_Namespaces = [] \<rparr>"

definition toy_request :: sync_request where
  "toy_request =
     \<lparr> rq_Source = \<lparr>sr_Namespace = ''web'', sr_Name = ''x-tls''\<rparr>,
       rq_Vault = \<lparr>vr_VaultURL = server_URL, vr_CertificateName = ''x-com''\<rparr> \<rparr>"

definition empty_world :: fk_world where
  "empty_world = ([], \<lparr>fs_certs = [], fs_imports = [], fs_counter = 0\<rparr>)"

abbreviation "toy_operator \<equiv> the_operator sample_platform toy_decode toy_x509 ProfileLegacy toy_cluster (\<lambda>_. 2000)"

lemma toy_facts:
  "fk_wf empty_world" "vr_VaultURL (rq_Vault toy_request) = server_URL"
  "SecretSource_Load toy_x509 (cluster_reader (\<lambda>_. toy_cluster)) (rq_Source toy_request) w = (Inr toy_bundle, w)"
  by (simp_all add: fk_wf_def empty_world_def cached_by_def toy_request_def SecretSource_Load_def io_simps
      cluster_reader_def toy_cluster_def bundle_of_secret_def SecretTypeTLS_def TLSCertKey_def
      TLSPrivateKeyKey_def toy_bundle_eq)

lemma toy_readable: "archive_leaf_of toy_decode (x_Raw (bd_Leaf toy_bundle)) pw = Some (bd_Leaf toy_bundle)"
proof -
  have "x_Raw (bd_Leaf toy_bundle) = ''cert3''" "bd_Leaf toy_bundle = toy_cert 3" by code_simp+
  then show ?thesis by (simp add: archive_leaf_of_def toy_decode_def)
qed

lemma toy_valid: "sync_name sample_platform toy_request toy_bundle = Inr ''x-com''" "valid_vault_name ''x-com''"
  "Validate toy_bundle 2000 = Inr ()" "Validate toy_bundle 3000 = Inr ()"
  by code_simp+

lemma first_run: "\<exists>out w'. Sync sample_platform toy_operator toy_request empty_world = (Inr out, w')"
proof -
  have "\<not> holds_bundle sample_platform (fk_view empty_world (named_ref toy_request ''x-com'')) toy_bundle"
    by (simp add: fk_view_def empty_world_def absent_snapshot_def holds_bundle_def)
  from Sync_imports [OF toy_facts toy_valid(1-3) this _ toy_readable, of ProfileLegacy] show ?thesis by auto
qed


lemma Sync_idempotent_witness:
  "\<exists>out w'. Sync sample_platform toy_operator toy_request empty_world = (Inr out, w') \<and>
     (\<exists>out' w''. Sync sample_platform (the_operator sample_platform toy_decode toy_x509 ProfileModern toy_cluster (\<lambda>_. 3000))
        toy_request w' = (Inr out', w'') \<and> so_Action out' = ActionNone)"
proof -
  obtain out w' where r: "Sync sample_platform toy_operator toy_request empty_world = (Inr out, w')"
    using first_run by blast
  from Sync_idempotent [OF r toy_facts toy_valid(4)] r show ?thesis by blast
qed

lemma Sync_succeeds_witness:
  "\<exists>out w'. Sync sample_platform (the_operator sample_platform toy_decode toy_x509 ProfileModern toy_cluster (\<lambda>_. 3000))
     toy_request empty_world = (Inr out, w') \<and> so_CertificateName out = ''x-com''"
proof -
  have "ProfileModern = ProfileLegacy \<or> ProfileModern = ProfilePasswordless \<or> ProfileModern = ProfileModern" by simp
  from Sync_succeeds [OF toy_facts toy_valid(1,2,4) this toy_readable] show ?thesis by blast
qed

end
