(* ===== verification/ChainOrder.thy ===== *)
theory ChainOrder
  imports Chain
begin

text \<open>
  The order of the certificates in a Secret does not matter: when no two of them have the same
  subject, key or bytes, a bundle is a function of the set of its certificates and the key.
\<close>

section \<open>The walk depends on what is left, not on its order\<close>

lemma set_unused:
  "length used = length rest \<Longrightarrow> c \<in> set (unused rest used) \<longleftrightarrow> (\<exists>k < length rest. \<not> used ! k \<and> rest ! k = c)"
proof -
  assume len: "length used = length rest"
  have "c \<in> set (unused rest used) \<longleftrightarrow> (c, False) \<in> set (zip rest used)"
    by (force simp: unused_def)
  also have "\<dots> \<longleftrightarrow> (\<exists>k < length rest. \<not> used ! k \<and> rest ! k = c)"
    unfolding in_set_zip using len by auto
  finally show ?thesis .
qed

lemma subjects_unique:
  "distinct (map x_RawSubject cs) \<Longrightarrow> c \<in> set cs \<Longrightarrow> c' \<in> set cs \<Longrightarrow> x_RawSubject c = x_RawSubject c' \<Longrightarrow> c = c'"
  by (auto simp: distinct_map inj_on_def)

lemma findIssuer_left:
  assumes "length used = length rest" and "length used2 = length rest2"
    and "set (unused rest2 used2) = set (unused rest used)"
  shows "findIssuer L c rest2 used2 = None \<longleftrightarrow> findIssuer L c rest used = None"
proof -
  have "findIssuer L c rs us = None \<longleftrightarrow> (\<forall>d \<in> set (unused rs us). x_RawIssuer c \<noteq> x_RawSubject d)"
    if "length us = length rs" for rs us
    unfolding findIssuer_None [OF that] using set_unused [OF that] by metis
  with assms show ?thesis by metis
qed

lemma walk_mset:
  assumes "length used = length rest" and "length used2 = length rest2"
    and "mset (unused rest2 used2) = mset (unused rest used)" and "distinct (map x_RawSubject (unused rest used))"
    and "walk L current rest used = (ordered, used')" and "walk L current rest2 used2 = (ordered2, used2')"
  shows "ordered2 = ordered \<and> mset (unused rest2 used2') = mset (unused rest used')"
  using assms
proof (induction L current rest used arbitrary: used2 ordered ordered2 rule: walk.induct)
  case (1 L current rest used)
  note len = "1.prems"(1,2) and same = "1.prems"(3) and d = "1.prems"(4)
  have eq: "set (unused rest2 used2) = set (unused rest used)" using same by (metis set_mset_mset)
  show ?case
  proof (cases "findIssuer L current rest used")
    case None
    then have "findIssuer L current rest2 used2 = None" using findIssuer_left [OF len eq] by blast
    then show ?thesis using None "1.prems" by (simp add: walk.simps)
  next
    case (Some k)
    note f = findIssuer_Some [OF Some len(1)]
    have in1: "rest ! k \<in> set (unused rest used)" using set_unused [OF len(1)] f(1,2) by blast
    obtain j where j: "findIssuer L current rest2 used2 = Some j" using findIssuer_left [OF len eq, of L current] Some by (cases "findIssuer L current rest2 used2") simp_all
    note g = findIssuer_Some [OF j len(2)]
    have in2: "rest2 ! j \<in> set (unused rest used)" using set_unused [OF len(2)] g(1,2) eq by blast
    have c: "rest2 ! j = rest ! k"
      using subjects_unique [OF d in2 in1] f(3) g(3) by simp
    note u = mset_unused_update [OF len(1) f(1,2)] and u2 = mset_unused_update [OF len(2) g(1,2)]
    have m: "mset (unused rest2 (used2[j := True])) = mset (unused rest (used[k := True]))"
      using same u u2 c by simp
    show ?thesis
    proof (cases "isSelfSigned L (rest ! k)")
      case True
      then show ?thesis using Some j c m "1.prems" by (auto simp: walk.simps)
    next
      case False
      obtain o1 where w: "walk L (rest ! k) rest (used[k := True]) = (o1, used')" "ordered = rest ! k # o1"
        using Some False "1.prems"(5) len by (auto simp: walk.simps [of L current] split: prod.splits)
      obtain o2 where w2: "walk L (rest ! k) rest2 (used2[j := True]) = (o2, used2')" "ordered2 = rest ! k # o2"
        using j c False "1.prems"(6) len by (auto simp: walk.simps [of L current] split: prod.splits)
      have "distinct (map x_RawSubject (unused rest (used[k := True])))"
      proof -
        have "mset (map x_RawSubject (unused rest used)) = mset (map x_RawSubject (rest ! k # unused rest (used[k := True])))"
          using u by simp
        from mset_eq_imp_distinct_iff [OF this] d show ?thesis by simp
      qed
      with "1.IH" [OF _ Some False _ _ m _ w(1) w2(1)] len w(2) w2(2) show ?thesis by simp
    qed
  qed
qed

lemma orderChain_perm:
  assumes "mset rest2 = mset rest" and "distinct (map x_RawSubject rest)" and "inj_on x_Raw (set rest)"
  shows "orderChain L leaf rest2 = orderChain L leaf rest"
proof (cases "rest = []")
  case True
  with assms(1) show ?thesis by simp
next
  case False
  with assms(1) have ne: "rest2 \<noteq> []" by auto
  obtain ordered used where w: "walk L leaf rest (replicate (length rest) False) = (ordered, used)" by fastforce
  obtain ordered2 used2 where w2: "walk L leaf rest2 (replicate (length rest2) False) = (ordered2, used2)" by fastforce
  have m: "ordered2 = ordered \<and> mset (unused rest2 used2) = mset (unused rest used)"
    by (rule walk_mset [OF _ _ _ _ w w2]) (use assms(1,2) in simp_all)
  have "set (unused rest used) \<subseteq> set rest" by (auto simp: unused_def dest: set_zip_leftD)
  then have "inj_on x_Raw (set (unused rest2 used2))"
    using m assms(3) by (metis inj_on_subset mset_eq_setD)
  then have "sort_key x_Raw (unused rest2 used2) = sort_key x_Raw (unused rest used)"
    by (intro sort_key_inj_key_eq) (use m in simp_all)
  with m w w2 False ne show ?thesis by (simp add: orderChain_def flip: unused_def)
qed

section \<open>The leaf\<close>

lemma selectLeaf_perm:
  assumes "mset certs' = mset certs" and "inj_on x_PublicKey (set certs)"
  shows "(\<exists>leaf rest rest'. selectLeaf L certs key = Inr (leaf, rest) \<and> selectLeaf L certs' key = Inr (leaf, rest') \<and>
      mset rest' = mset rest \<and> mset (leaf # rest) = mset certs) \<or>
    (\<exists>e. selectLeaf L certs key = Inl e \<and> selectLeaf L certs' key = Inl e)"
proof (cases "signer_Public L key")
  case None
  then show ?thesis by (simp add: selectLeaf_def)
next
  case (Some pub)
  have s: "set certs' = set certs" using assms(1) by (rule mset_eq_setD)
  show ?thesis
  proof (cases "select_loop pub [] certs")
    case (Inl e)
    then have "select_loop pub [] certs' = Inl e" using s by (simp add: select_loop_Inl)
    with Inl Some show ?thesis by (simp add: selectLeaf_def)
  next
    case (Inr x)
    obtain leaf rest where x: "x = (leaf, rest)" by fastforce
    note l = select_loop_Inr [OF Inr [unfolded x], simplified]
    have leaf: "leaf \<in> set certs" using l by (metis add_mset_add_single list.set_intros(1) mset.simps(2) mset_eq_setD)
    have "\<nexists>e. select_loop pub [] certs' = Inl e" using leaf l s by (auto simp: select_loop_Inl)
    then obtain leaf' rest' where r: "select_loop pub [] certs' = Inr (leaf', rest')"
      by (cases "select_loop pub [] certs'") auto
    note l' = select_loop_Inr [OF r, simplified]
    have "leaf' \<in> set certs" using l' s by (metis list.set_intros(1) mset.simps(2) mset_eq_setD)
    then have "leaf' = leaf" using l l' leaf assms(2) by (auto simp: publicKeysEqual_def inj_on_def)
    moreover from this l l' assms(1) have "mset rest' = mset rest" by (metis add_mset_add_single add_right_imp_eq)
    ultimately show ?thesis using l Inr x r Some by (auto simp: selectLeaf_def)
  qed
qed

section \<open>The bundle\<close>

lemma ParseBundle_perm:
  assumes "parseCertificates L certPEM = Inr certs" and "parseCertificates L certPEM' = Inr certs'"
    and "mset certs' = mset certs" and "distinct (map x_RawSubject certs)"
    and "inj_on x_PublicKey (set certs)" and "inj_on x_Raw (set certs)"
  shows "ParseBundle L certPEM' keyPEM = ParseBundle L certPEM keyPEM"
proof (cases "ParsePrivateKey L keyPEM")
  case (Inl e)
  then show ?thesis using assms(1,2) by (simp add: ParseBundle_def)
next
  case key: (Inr key)
  from selectLeaf_perm [OF assms(3,5)] consider
    leaf rest rest' where "selectLeaf L certs key = Inr (leaf, rest)" "selectLeaf L certs' key = Inr (leaf, rest')"
      "mset rest' = mset rest" "mset (leaf # rest) = mset certs"
  | e where "selectLeaf L certs key = Inl e" "selectLeaf L certs' key = Inl e" by blast
  then show ?thesis
  proof cases
    case 1
    have "mset (map x_RawSubject (leaf # rest)) = mset (map x_RawSubject certs)"
      using 1(4) by (metis mset_map)
    then have "distinct (map x_RawSubject rest)" using assms(4) mset_eq_imp_distinct_iff by fastforce
    moreover have "inj_on x_Raw (set rest)"
      using assms(6) mset_eq_setD [OF 1(4)] by (auto intro: inj_on_subset)
    ultimately have "orderChain L leaf rest' = orderChain L leaf rest" by (rule orderChain_perm [OF 1(3)])
    with 1(1,2) key assms(1,2) show ?thesis by (simp add: ParseBundle_def)
  next
    case 2
    with key assms(1,2) show ?thesis by (simp add: ParseBundle_def)
  qed
qed

section \<open>Property\<close>



end
