(* ===== verification/TestPki.thy ===== *)
theory TestPki
  imports ChainOrder GoIO
begin

text \<open>
  The certificate authority of the tests (\<open>internal/testutil/pki.go\<close>): chains of certificates
  and keys in PEM. Key generation, signing and encoding are a parameter, and \<open>t.Fatalf\<close> is a
  failure. What it issues is what the domain parses back.
\<close>

section \<open>Data\<close>

datatype key_type = RSA2048 | ECDSAP256

datatype key_encoding = PKCS8 | PKCS1 | SEC1

record authority =
  au_Cert :: x509_cert
  au_Key :: private_key

record issued_leaf =
  lf_Cert :: x509_cert
  lf_Key :: private_key
  lf_Chain :: "x509_cert list"

record leaf_options =
  lo_DNSNames :: "string list"
  lo_NotBefore :: time
  lo_NotAfter :: time
  lo_KeyType :: key_type

section \<open>The libraries\<close>

text \<open>
  A certificate template, as far as it is filled in, and the parent of a certificate, which is a
  template for a self-signed one.
\<close>

datatype key_usage = KeyUsageDigitalSignature | KeyUsageKeyEncipherment | KeyUsageCertSign | KeyUsageCRLSign

record cert_template =
  tm_SerialNumber :: nat
  tm_CommonName :: string
  tm_DNSNames :: "string list"
  tm_NotBefore :: time
  tm_NotAfter :: time
  tm_KeyUsage :: "key_usage list"
  tm_ExtKeyUsageServerAuth :: bool
  tm_BasicConstraintsValid :: bool
  tm_IsCA :: bool

datatype cert_parent = ParentTemplate cert_template | ParentCert x509_cert

record 'w pki_lib =
  pk_GenerateRSA :: "nat \<Rightarrow> ('w, bytes) io"
  pk_GenerateP256 :: "('w, bytes) io"
  pk_RandInt :: "nat \<Rightarrow> ('w, nat) io"
  pk_Now :: "'w \<Rightarrow> time \<times> 'w"
  pk_CreateCertificate :: "cert_template \<Rightarrow> cert_parent \<Rightarrow> public_key \<Rightarrow> private_key \<Rightarrow> ('w, bytes) io"
  pk_EncodeToMemory :: "pem_block \<Rightarrow> bytes"
  pk_MarshalPKCS1PrivateKey :: "bytes \<Rightarrow> bytes"
  pk_MarshalECPrivateKey :: "bytes \<Rightarrow> bytes go_result"
  pk_MarshalPKCS8PrivateKey :: "private_key \<Rightarrow> bytes go_result"

section \<open>Operations\<close>

definition Fatalf :: "platform \<Rightarrow> string \<Rightarrow> go_error \<Rightarrow> go_error" where
  "Fatalf P fmt err = Errorf fmt [AStr (error_text P err)]"

definition newKey :: "platform \<Rightarrow> 'w pki_lib \<Rightarrow> key_type \<Rightarrow> ('w, private_key) io" where
  "newKey P K kt =
     (if kt = RSA2048
      then io_bind (io_wrap (Fatalf P ''generating RSA key: %v'') (pk_GenerateRSA K 2048)) (\<lambda>key. io_return (RSAKey key))
      else io_bind (io_wrap (Fatalf P ''generating ECDSA key: %v'') (pk_GenerateP256 K)) (\<lambda>key. io_return (ECDSAKey key)))"

definition serial :: "platform \<Rightarrow> 'w pki_lib \<Rightarrow> ('w, nat) io" where
  "serial P K = io_wrap (Fatalf P ''generating serial: %v'') (pk_RandInt K (2 ^ 128))"

definition signCert ::
  "platform \<Rightarrow> x509_lib \<Rightarrow> 'w pki_lib \<Rightarrow> cert_template \<Rightarrow> cert_parent \<Rightarrow> public_key \<Rightarrow> private_key \<Rightarrow> ('w, x509_cert) io" where
  "signCert P L K tmpl parent pub signer =
     io_bind (io_wrap (Fatalf P ''creating certificate: %v'') (pk_CreateCertificate K tmpl parent pub signer)) (\<lambda>der.
     io_wrap (Fatalf P ''parsing created certificate: %v'') (io_lift (ParseCertificate L der)))"

text \<open>The method \<open>Public\<close> of a key that has one.\<close>

definition key_public :: "x509_lib \<Rightarrow> private_key \<Rightarrow> public_key" where
  "key_public L key = (case signer_Public L key of None \<Rightarrow> NoPub | Some pub \<Rightarrow> pub)"

definition ca_template :: "platform \<Rightarrow> 'w pki_lib \<Rightarrow> string \<Rightarrow> duration \<Rightarrow> ('w, cert_template) io" where
  "ca_template P K commonName lifetime =
     io_bind (serial P K) (\<lambda>n.
     io_bind (io_effect (pk_Now K)) (\<lambda>now.
     io_bind (io_effect (pk_Now K)) (\<lambda>later.
     io_return
       \<lparr> tm_SerialNumber = n, tm_CommonName = commonName, tm_DNSNames = [], tm_NotBefore = now - Hour,
         tm_NotAfter = later + lifetime, tm_KeyUsage = [KeyUsageCertSign, KeyUsageCRLSign],
         tm_ExtKeyUsageServerAuth = False, tm_BasicConstraintsValid = True, tm_IsCA = True \<rparr>)))"

definition NewRootCA :: "platform \<Rightarrow> x509_lib \<Rightarrow> 'w pki_lib \<Rightarrow> string \<Rightarrow> ('w, authority) io" where
  "NewRootCA P L K commonName =
     io_bind (newKey P K ECDSAP256) (\<lambda>key.
     io_bind (ca_template P K commonName (10 * 365 * 24 * Hour)) (\<lambda>tmpl.
     io_bind (signCert P L K tmpl (ParentTemplate tmpl) (key_public L key) key) (\<lambda>cert.
     io_return \<lparr>au_Cert = cert, au_Key = key\<rparr>)))"

definition Intermediate :: "platform \<Rightarrow> x509_lib \<Rightarrow> 'w pki_lib \<Rightarrow> authority \<Rightarrow> string \<Rightarrow> ('w, authority) io" where
  "Intermediate P L K a commonName =
     io_bind (newKey P K ECDSAP256) (\<lambda>key.
     io_bind (ca_template P K commonName (5 * 365 * 24 * Hour)) (\<lambda>tmpl.
     io_bind (signCert P L K tmpl (ParentCert (au_Cert a)) (key_public L key) (au_Key a)) (\<lambda>cert.
     io_return \<lparr>au_Cert = cert, au_Key = key\<rparr>)))"

definition default_time :: "'w pki_lib \<Rightarrow> time \<Rightarrow> duration \<Rightarrow> ('w, time) io" where
  "default_time K t d = (if IsZero t then io_bind (io_effect (pk_Now K)) (\<lambda>now. io_return (now + d)) else io_return t)"

definition Issue :: "platform \<Rightarrow> x509_lib \<Rightarrow> 'w pki_lib \<Rightarrow> authority \<Rightarrow> leaf_options \<Rightarrow> ('w, issued_leaf) io" where
  "Issue P L K a opts =
     io_bind (default_time K (lo_NotBefore opts) (- Hour)) (\<lambda>notBefore.
     io_bind (default_time K (lo_NotAfter opts) (90 * 24 * Hour)) (\<lambda>notAfter.
     io_bind (newKey P K (lo_KeyType opts)) (\<lambda>key.
     let cn = (case lo_DNSNames opts of [] \<Rightarrow> [] | name # _ \<Rightarrow> name) in
     io_bind (serial P K) (\<lambda>n.
     let tmpl = \<lparr> tm_SerialNumber = n, tm_CommonName = cn, tm_DNSNames = lo_DNSNames opts, tm_NotBefore = notBefore,
                  tm_NotAfter = notAfter, tm_KeyUsage = [KeyUsageDigitalSignature, KeyUsageKeyEncipherment],
                  tm_ExtKeyUsageServerAuth = True, tm_BasicConstraintsValid = True, tm_IsCA = False \<rparr> in
     io_bind (signCert P L K tmpl (ParentCert (au_Cert a)) (key_public L key) (au_Key a)) (\<lambda>cert.
     io_return \<lparr>lf_Cert = cert, lf_Key = key, lf_Chain = [au_Cert a]\<rparr>)))))"

definition WithChain :: "issued_leaf \<Rightarrow> x509_cert list \<Rightarrow> issued_leaf" where
  "WithChain l chain = l\<lparr>lf_Chain := chain\<rparr>"

definition EncodeCertPEM :: "'w pki_lib \<Rightarrow> x509_cert \<Rightarrow> bytes" where
  "EncodeCertPEM K cert = pk_EncodeToMemory K \<lparr>pb_Type = ''CERTIFICATE'', pb_Bytes = x_Raw cert\<rparr>"

definition CertPEM :: "'w pki_lib \<Rightarrow> issued_leaf \<Rightarrow> bytes" where
  "CertPEM K l = fold (\<lambda>cert out. out @ EncodeCertPEM K cert) (lf_Chain l) (EncodeCertPEM K (lf_Cert l))"

definition CertPEMReversed :: "'w pki_lib \<Rightarrow> issued_leaf \<Rightarrow> bytes" where
  "CertPEMReversed K l =
     fold (\<lambda>cert out. out @ EncodeCertPEM K cert) (rev (lf_Chain l)) [] @ EncodeCertPEM K (lf_Cert l)"

definition LeafOnlyPEM :: "'w pki_lib \<Rightarrow> issued_leaf \<Rightarrow> bytes" where
  "LeafOnlyPEM K l = EncodeCertPEM K (lf_Cert l)"

fun go_type_of_key :: "private_key \<Rightarrow> string" where
  "go_type_of_key (RSAKey k) = ''*rsa.PrivateKey''"
| "go_type_of_key (ECDSAKey k) = ''*ecdsa.PrivateKey''"
| "go_type_of_key (Ed25519Key k) = ''ed25519.PrivateKey''"
| "go_type_of_key (OtherKey t k) = t"

definition EncodeKeyPEM :: "platform \<Rightarrow> 'w pki_lib \<Rightarrow> private_key \<Rightarrow> key_encoding \<Rightarrow> bytes go_result" where
  "EncodeKeyPEM P K key enc =
     (case enc of
        PKCS1 \<Rightarrow>
          (case key of
             RSAKey k \<Rightarrow> Inr (pk_EncodeToMemory K \<lparr>pb_Type = ''RSA PRIVATE KEY'', pb_Bytes = pk_MarshalPKCS1PrivateKey K k\<rparr>)
           | _ \<Rightarrow> Inl (Errorf ''PKCS#1 encoding requires an RSA key, got %T'' [AStr (go_type_of_key key)]))
      | SEC1 \<Rightarrow>
          (case key of
             ECDSAKey k \<Rightarrow>
               (case pk_MarshalECPrivateKey K k of
                  Inl err \<Rightarrow> Inl (Fatalf P ''marshalling SEC1 key: %v'' err)
                | Inr der \<Rightarrow> Inr (pk_EncodeToMemory K \<lparr>pb_Type = ''EC PRIVATE KEY'', pb_Bytes = der\<rparr>))
           | _ \<Rightarrow> Inl (Errorf ''SEC1 encoding requires an ECDSA key, got %T'' [AStr (go_type_of_key key)]))
      | PKCS8 \<Rightarrow>
          (case pk_MarshalPKCS8PrivateKey K key of
             Inl err \<Rightarrow> Inl (Fatalf P ''marshalling PKCS#8 key: %v'' err)
           | Inr der \<Rightarrow> Inr (pk_EncodeToMemory K \<lparr>pb_Type = ''PRIVATE KEY'', pb_Bytes = der\<rparr>)))"

definition KeyPEM :: "platform \<Rightarrow> 'w pki_lib \<Rightarrow> issued_leaf \<Rightarrow> key_encoding \<Rightarrow> bytes go_result" where
  "KeyPEM P K l enc = EncodeKeyPEM P K (lf_Key l) enc"

section \<open>Lemmas\<close>

text \<open>A path that is written in order is ordered already.\<close>

lemma findIssuer_next:
  assumes "x_RawIssuer current = x_RawSubject y" and "distinct (map x_RawSubject (xs @ y # ys))"
  shows "findIssuer L current (xs @ y # ys) (replicate (length xs) True @ False # replicate (length ys) False) = Some (length xs)"
    (is "findIssuer L current ?rest ?used = _")
proof -
  have len: "length ?used = length ?rest" by simp
  have "findIssuer L current ?rest ?used \<noteq> None"
    using findIssuer_None [OF len] assms(1) by (auto simp: nth_append)
  then obtain k where k: "findIssuer L current ?rest ?used = Some k" by blast
  note f = findIssuer_Some [OF k len]
  have "map x_RawSubject ?rest ! k = map x_RawSubject ?rest ! length xs"
  proof -
    have l: "length xs < length ?rest" by simp
    have "x_RawSubject (?rest ! k) = x_RawSubject (?rest ! length xs)" using f(3) assms(1) by (simp add: nth_append)
    then show ?thesis unfolding nth_map [OF f(1)] nth_map [OF l] .
  qed
  then have "k = length xs" using nth_eq_iff_index_eq [OF assms(2)] f(1) by simp
  with k show ?thesis by simp
qed

lemma walk_path:
  assumes "linked current ys" and "distinct (map x_RawSubject (xs @ ys))"
    and "\<forall>c \<in> set (butlast ys). \<not> isSelfSigned L c"
  shows "walk L current (xs @ ys) (replicate (length xs) True @ replicate (length ys) False) =
    (ys, replicate (length (xs @ ys)) True)"
  using assms
proof (induction ys arbitrary: current xs)
  case Nil
  have "findIssuer L current xs (replicate (length xs) True) = None"
    by (subst findIssuer_None) simp_all
  then show ?case by (simp add: walk.simps)
next
  case (Cons y ys)
  let ?used = "replicate (length xs) True @ False # replicate (length ys) False"
  have i: "findIssuer L current (xs @ y # ys) ?used = Some (length xs)"
    by (rule findIssuer_next) (use Cons.prems in simp_all)
  have u: "?used[length xs := True] = replicate (length (xs @ [y])) True @ replicate (length ys) False"
    by (simp add: list_update_append replicate_append_same)
  show ?case
  proof (cases "ys = []")
    case True
    have "walk L y (xs @ [y]) (replicate (length (xs @ [y])) True @ replicate (length ([] :: x509_cert list)) False) =
        ([], replicate (length (xs @ [y])) True)"
    proof -
      have "findIssuer L y (xs @ [y]) (replicate (length (xs @ [y])) True) = None"
        by (subst findIssuer_None) (simp_all del: length_append)
      then show ?thesis by (simp add: walk.simps)
    qed
    with i u True show ?thesis by (simp add: walk.simps [of L current] nth_append)
  next
    case False
    then have "\<not> isSelfSigned L y" using Cons.prems(3) by simp
    moreover have "walk L y ((xs @ [y]) @ ys) (replicate (length (xs @ [y])) True @ replicate (length ys) False) =
        (ys, replicate (length ((xs @ [y]) @ ys)) True)"
      by (rule Cons.IH) (use Cons.prems False in auto)
    ultimately show ?thesis using i u by (simp add: walk.simps [of L current] nth_append)
  qed
qed

lemma orderChain_path:
  assumes "linked leaf cs" and "distinct (map x_RawSubject cs)" and "\<forall>c \<in> set (butlast cs). \<not> isSelfSigned L c"
  shows "orderChain L leaf cs = cs"
proof -
  have "walk L leaf cs (replicate (length cs) False) = (cs, replicate (length cs) True)"
    using walk_path [of leaf cs "[]" L] assms by simp
  moreover have "filter (\<lambda>(cert, u). \<not> u) (zip cs (replicate (length cs) True)) = []"
    by (auto simp: filter_empty_conv set_zip)
  ultimately show ?thesis by (simp add: orderChain_def)
qed

lemma fold_EncodeCertPEM: "fold (\<lambda>cert out. out @ EncodeCertPEM K cert) cs acc = acc @ concat (map (EncodeCertPEM K) cs)"
  by (induction cs arbitrary: acc) simp_all

lemma CertPEM_eq: "CertPEM K l = concat (map (EncodeCertPEM K) (lf_Cert l # lf_Chain l))"
  by (simp add: CertPEM_def fold_EncodeCertPEM)

lemma CertPEMReversed_eq: "CertPEMReversed K l = concat (map (EncodeCertPEM K) (rev (lf_Chain l) @ [lf_Cert l]))"
  by (simp add: CertPEMReversed_def fold_EncodeCertPEM)

section \<open>The contract of the libraries\<close>

text \<open>
  What is documented of them: a PEM block is decoded from the front of a text; keys are parsed back
  from their encoding, and from no other; a created certificate parses to one with the subject and
  names of its template, the subject of its parent as issuer, and the given key. \<open>subject\<close> is the
  encoding of a common name.
\<close>

locale pki_contract =
  fixes L :: x509_lib
    and K :: "'w pki_lib"
    and subject :: "string \<Rightarrow> bytes"
  assumes pem_nonempty: "pk_EncodeToMemory K blk \<noteq> []"
    and pem_decodes: "pem_next L (pk_EncodeToMemory K blk @ rest) = Some (blk, length (pk_EncodeToMemory K blk) - 1)"
    and pkcs8: "pk_MarshalPKCS8PrivateKey K key = Inr der \<Longrightarrow> ParsePKCS8PrivateKey L der = Inr key"
    and pkcs1: "isl (ParsePKCS8PrivateKey L (pk_MarshalPKCS1PrivateKey K k)) \<and>
      ParsePKCS1PrivateKey L (pk_MarshalPKCS1PrivateKey K k) = Inr k"
    and sec1: "pk_MarshalECPrivateKey K k = Inr der \<Longrightarrow>
      isl (ParsePKCS8PrivateKey L der) \<and> isl (ParsePKCS1PrivateKey L der) \<and> ParseECPrivateKey L der = Inr k"
    and created: "pk_CreateCertificate K tmpl parent pub signer w = (Inr der, w') \<Longrightarrow> ParseCertificate L der = Inr cert \<Longrightarrow>
      x_Raw cert = der \<and> x_RawSubject cert = subject (tm_CommonName tmpl) \<and> x_DNSNames cert = tm_DNSNames tmpl \<and>
      x_RawIssuer cert = (case parent of ParentTemplate p \<Rightarrow> subject (tm_CommonName p) | ParentCert c \<Rightarrow> x_RawSubject c) \<and>
      x_PublicKey cert = pub"
begin

lemma drop_block: "drop (Suc (length (pk_EncodeToMemory K blk) - 1)) (pk_EncodeToMemory K blk @ rest) = rest"
  using pem_nonempty [of blk] by (cases "pk_EncodeToMemory K blk") simp_all

lemma parse_certs_encoded:
  "list_all (\<lambda>c. ParseCertificate L (x_Raw c) = Inr c) cs \<Longrightarrow>
     parse_certs_loop L acc (concat (map (EncodeCertPEM K) cs)) = Inr (acc @ cs)"
proof (induction cs arbitrary: acc)
  case Nil
  then show ?case by (simp add: parse_certs_loop.simps)
next
  case (Cons c cs)
  let ?b = "\<lparr>pb_Type = ''CERTIFICATE'', pb_Bytes = x_Raw c\<rparr>"
  have "parse_certs_loop L acc (EncodeCertPEM K c @ concat (map (EncodeCertPEM K) cs)) =
      parse_certs_loop L (acc @ [c]) (concat (map (EncodeCertPEM K) cs))"
    using Cons.prems pem_nonempty [of ?b]
    by (subst parse_certs_loop.simps) (simp add: EncodeCertPEM_def pem_decodes drop_block)
  with Cons show ?case by simp
qed

lemma parseCertificates_encoded:
  "list_all (\<lambda>c. ParseCertificate L (x_Raw c) = Inr c) cs \<Longrightarrow> cs \<noteq> [] \<Longrightarrow>
     parseCertificates L (concat (map (EncodeCertPEM K) cs)) = Inr cs"
  using parse_certs_encoded [of cs "[]"] by (simp add: parseCertificates_def)

lemma ParsePrivateKey_block:
  assumes "pb_Type blk \<noteq> ''CERTIFICATE''" and "tryParseKey L (pb_Bytes blk) = Some key" and "signer_Public L key \<noteq> None"
  shows "ParsePrivateKey L (pk_EncodeToMemory K blk) = Inr key"
  using assms pem_nonempty [of blk] pem_decodes [of blk "[]"]
  by (subst ParsePrivateKey.simps) (auto split: private_key.split)

lemma ParsePrivateKey_encoded:
  assumes "EncodeKeyPEM P K key enc = Inr pem" and "signer_Public L key \<noteq> None"
  shows "ParsePrivateKey L pem = Inr key"
proof (cases enc)
  case PKCS8
  with assms obtain der where "pk_MarshalPKCS8PrivateKey K key = Inr der"
    "pem = pk_EncodeToMemory K \<lparr>pb_Type = ''PRIVATE KEY'', pb_Bytes = der\<rparr>"
    by (auto simp: EncodeKeyPEM_def split: sum.splits)
  with assms(2) show ?thesis by (simp add: ParsePrivateKey_block tryParseKey_def pkcs8)
next
  case PKCS1
  with assms obtain k where "key = RSAKey k"
    "pem = pk_EncodeToMemory K \<lparr>pb_Type = ''RSA PRIVATE KEY'', pb_Bytes = pk_MarshalPKCS1PrivateKey K k\<rparr>"
    by (auto simp: EncodeKeyPEM_def split: private_key.splits)
  with pkcs1 [of k] show ?thesis
    by (cases "ParsePKCS8PrivateKey L (pk_MarshalPKCS1PrivateKey K k)") (simp_all add: ParsePrivateKey_block tryParseKey_def)
next
  case SEC1
  with assms obtain k der where k: "key = ECDSAKey k" "pk_MarshalECPrivateKey K k = Inr der"
    "pem = pk_EncodeToMemory K \<lparr>pb_Type = ''EC PRIVATE KEY'', pb_Bytes = der\<rparr>"
    by (auto simp: EncodeKeyPEM_def split: private_key.splits sum.splits)
  with sec1 [OF k(2)] show ?thesis
    by (cases "ParsePKCS8PrivateKey L der"; cases "ParsePKCS1PrivateKey L der")
      (simp_all add: ParsePrivateKey_block tryParseKey_def)
qed

text \<open>A leaf with its path, in any order, is parsed to the leaf and the path.\<close>

lemma ParseBundle_path:
  assumes "mset ms = mset (leaf # cs)" and "list_all (\<lambda>c. ParseCertificate L (x_Raw c) = Inr c) (leaf # cs)"
    and "linked leaf cs" and "distinct (map x_RawSubject (leaf # cs))" and "\<forall>c \<in> set (butlast cs). \<not> isSelfSigned L c"
    and "inj_on x_PublicKey (set (leaf # cs))"
    and "EncodeKeyPEM P K key enc = Inr pem" and "signer_Public L key = Some (x_PublicKey leaf)" and "x_PublicKey leaf \<noteq> NoPub"
  shows "ParseBundle L (concat (map (EncodeCertPEM K) ms)) pem = Inr \<lparr>bd_Leaf = leaf, bd_Chain = cs, bd_PrivateKey = key\<rparr>"
proof -
  have set: "set ms = set (leaf # cs)" using assms(1) by (rule mset_eq_setD)
  have p: "parseCertificates L (concat (map (EncodeCertPEM K) (leaf # cs))) = Inr (leaf # cs)"
    by (rule parseCertificates_encoded) (use assms(2) in simp_all)
  have p': "parseCertificates L (concat (map (EncodeCertPEM K) ms)) = Inr ms"
  proof (rule parseCertificates_encoded)
    show "list_all (\<lambda>c. ParseCertificate L (x_Raw c) = Inr c) ms" using assms(2) unfolding list_all_iff set .
    show "ms \<noteq> []" using set by auto
  qed
  have raw: "inj_on x_Raw (set (leaf # cs))"
  proof (rule inj_onI)
    fix c c' assume c: "c \<in> set (leaf # cs)" "c' \<in> set (leaf # cs)" and raw: "x_Raw c = x_Raw c'"
    have all: "\<forall>c \<in> set (leaf # cs). ParseCertificate L (x_Raw c) = Inr c" using assms(2) by (simp add: list_all_iff)
    have "ParseCertificate L (x_Raw c) = Inr c'" unfolding raw by (rule bspec [OF all c(2)])
    with bspec [OF all c(1)] have "(Inr c :: x509_cert go_result) = Inr c'" by (rule trans [OF sym])
    then show "c = c'" by (rule sum.inject(2) [THEN iffD1])
  qed
  have "ParseBundle L (concat (map (EncodeCertPEM K) ms)) pem = ParseBundle L (concat (map (EncodeCertPEM K) (leaf # cs))) pem"
    by (rule ParseBundle_perm [OF p p' assms(1,4,6) raw])
  also have "\<dots> = Inr \<lparr>bd_Leaf = leaf, bd_Chain = cs, bd_PrivateKey = key\<rparr>"
  proof -
    have "ParsePrivateKey L pem = Inr key" using ParsePrivateKey_encoded [OF assms(7)] assms(8) by simp
    moreover have "selectLeaf L (leaf # cs) key = Inr (leaf, cs)"
      using assms(8,9) by (simp add: selectLeaf_def publicKeysEqual_def)
    moreover have "orderChain L leaf cs = cs" by (rule orderChain_path) (use assms(3-5) in simp_all)
    ultimately show ?thesis using p by (simp add: ParseBundle_def)
  qed
  finally show ?thesis .
qed

lemma signed:
  assumes "signCert P L K tmpl parent pub signer w = (Inr cert, w')"
  shows "ParseCertificate L (x_Raw cert) = Inr cert" and "x_RawSubject cert = subject (tm_CommonName tmpl)"
    and "x_DNSNames cert = tm_DNSNames tmpl" and "x_PublicKey cert = pub"
    and "x_RawIssuer cert = (case parent of ParentTemplate p \<Rightarrow> subject (tm_CommonName p) | ParentCert c \<Rightarrow> x_RawSubject c)"
  using assms created by (fastforce simp: signCert_def io_Inr_iffs)+

lemma newKey_public:
  assumes "newKey P K kt w = (Inr key, w')"
  shows "signer_Public L key = Some (key_public L key)" and "key_public L key \<noteq> NoPub"
  using assms by (auto simp: newKey_def key_public_def io_Inr_iffs split: if_splits)

lemma ca_template_name: "ca_template P K cn d w = (Inr tmpl, w') \<Longrightarrow> tm_CommonName tmpl = cn"
  by (auto simp: ca_template_def io_Inr_iffs)

lemma NewRootCA_cert:
  assumes "NewRootCA P L K cn w = (Inr a, w')"
  shows "ParseCertificate L (x_Raw (au_Cert a)) = Inr (au_Cert a)" and "x_RawSubject (au_Cert a) = subject cn"
proof -
  obtain key tmpl w1 w2 where t: "ca_template P K cn (10 * 365 * 24 * Hour) w1 = (Inr tmpl, w2)"
    and s: "signCert P L K tmpl (ParentTemplate tmpl) (key_public L key) key w2 = (Inr (au_Cert a), w')"
    using assms by (auto simp: NewRootCA_def io_Inr_iffs)
  show "ParseCertificate L (x_Raw (au_Cert a)) = Inr (au_Cert a)" by (rule signed(1) [OF s])
  show "x_RawSubject (au_Cert a) = subject cn" using signed(2) [OF s] ca_template_name [OF t] by simp
qed

lemma Intermediate_cert:
  assumes "Intermediate P L K a cn w = (Inr b, w')"
  shows "ParseCertificate L (x_Raw (au_Cert b)) = Inr (au_Cert b)" and "x_RawSubject (au_Cert b) = subject cn"
    and "x_RawIssuer (au_Cert b) = x_RawSubject (au_Cert a)"
proof -
  obtain key tmpl w1 w2 where t: "ca_template P K cn (5 * 365 * 24 * Hour) w1 = (Inr tmpl, w2)"
    and s: "signCert P L K tmpl (ParentCert (au_Cert a)) (key_public L key) (au_Key a) w2 = (Inr (au_Cert b), w')"
    using assms by (auto simp: Intermediate_def io_Inr_iffs)
  show "ParseCertificate L (x_Raw (au_Cert b)) = Inr (au_Cert b)" by (rule signed(1) [OF s])
  show "x_RawSubject (au_Cert b) = subject cn" using signed(2) [OF s] ca_template_name [OF t] by simp
  show "x_RawIssuer (au_Cert b) = x_RawSubject (au_Cert a)" using signed(5) [OF s] by simp
qed

lemma Issue_cert:
  assumes "Issue P L K a opts w = (Inr l, w')"
  shows "ParseCertificate L (x_Raw (lf_Cert l)) = Inr (lf_Cert l)"
    and "x_RawSubject (lf_Cert l) = subject (case lo_DNSNames opts of [] \<Rightarrow> [] | name # _ \<Rightarrow> name)"
    and "x_RawIssuer (lf_Cert l) = x_RawSubject (au_Cert a)" and "x_DNSNames (lf_Cert l) = lo_DNSNames opts"
    and "signer_Public L (lf_Key l) = Some (x_PublicKey (lf_Cert l))" and "x_PublicKey (lf_Cert l) \<noteq> NoPub"
proof -
  obtain tmpl kt w1 w2 w3 where n: "newKey P K kt w1 = (Inr (lf_Key l), w2)"
    and t: "tm_CommonName tmpl = (case lo_DNSNames opts of [] \<Rightarrow> [] | name # _ \<Rightarrow> name)" "tm_DNSNames tmpl = lo_DNSNames opts"
    and s: "signCert P L K tmpl (ParentCert (au_Cert a)) (key_public L (lf_Key l)) (au_Key a) w3 = (Inr (lf_Cert l), w')"
  proof -
    obtain nb na key n w1 w2 w3 w4 cert where
      k: "newKey P K (lo_KeyType opts) w2 = (Inr key, w3)"
      and c: "signCert P L K \<lparr> tm_SerialNumber = n, tm_CommonName = (case lo_DNSNames opts of [] \<Rightarrow> [] | name # _ \<Rightarrow> name),
          tm_DNSNames = lo_DNSNames opts, tm_NotBefore = nb,
          tm_NotAfter = na, tm_KeyUsage = [KeyUsageDigitalSignature, KeyUsageKeyEncipherment],
          tm_ExtKeyUsageServerAuth = True, tm_BasicConstraintsValid = True, tm_IsCA = False \<rparr>
          (ParentCert (au_Cert a)) (key_public L key) (au_Key a) w4 = (Inr cert, w')"
      and l: "l = \<lparr>lf_Cert = cert, lf_Key = key, lf_Chain = [au_Cert a]\<rparr>"
      using assms by (auto simp: Issue_def io_Inr_iffs Let_def)
    show ?thesis by (rule that [of "lo_KeyType opts" w2 w3]) (use k c l in simp_all)
  qed
  show "ParseCertificate L (x_Raw (lf_Cert l)) = Inr (lf_Cert l)" by (rule signed(1) [OF s])
  show "x_RawSubject (lf_Cert l) = subject (case lo_DNSNames opts of [] \<Rightarrow> [] | name # _ \<Rightarrow> name)"
    using signed(2) [OF s] t by simp
  show "x_RawIssuer (lf_Cert l) = x_RawSubject (au_Cert a)" using signed(5) [OF s] by simp
  show "x_DNSNames (lf_Cert l) = lo_DNSNames opts" using signed(3) [OF s] t by simp
  show "signer_Public L (lf_Key l) = Some (x_PublicKey (lf_Cert l))" using signed(4) [OF s] newKey_public(1) [OF n] by simp
  show "x_PublicKey (lf_Cert l) \<noteq> NoPub" using signed(4) [OF s] newKey_public(2) [OF n] by simp
qed

text \<open>A leaf with an intermediate and a root, in either order.\<close>

lemma parses_issued:
  assumes root: "NewRootCA P L K rootName u = (Inr r, u')"
    and im: "Intermediate P L K r interName v = (Inr i, v')"
    and leaf: "Issue P L K i opts w = (Inr l, w')"
    and key: "KeyPEM P K l enc = Inr keyPEM"
    and subjects: "distinct [subject (case lo_DNSNames opts of [] \<Rightarrow> [] | name # _ \<Rightarrow> name), subject interName, subject rootName]"
    and keys: "distinct [x_PublicKey (lf_Cert l), x_PublicKey (au_Cert i), x_PublicKey (au_Cert r)]"
    and ms: "mset ms = mset [lf_Cert l, au_Cert i, au_Cert r]"
  shows "ParseBundle L (concat (map (EncodeCertPEM K) ms)) keyPEM =
    Inr \<lparr>bd_Leaf = lf_Cert l, bd_Chain = [au_Cert i, au_Cert r], bd_PrivateKey = lf_Key l\<rparr>"
proof (rule ParseBundle_path [OF ms])
  note facts = NewRootCA_cert [OF root] Intermediate_cert [OF im] Issue_cert [OF leaf]
  show "list_all (\<lambda>c. ParseCertificate L (x_Raw c) = Inr c) [lf_Cert l, au_Cert i, au_Cert r]"
    using facts(1,3,6) by simp
  show "linked (lf_Cert l) [au_Cert i, au_Cert r]" using facts(5,8) by simp
  show "distinct (map x_RawSubject [lf_Cert l, au_Cert i, au_Cert r])" using facts(2,4,7) subjects by simp
  show "\<forall>c \<in> set (butlast [au_Cert i, au_Cert r]). \<not> isSelfSigned L c"
    using facts(2,4,5) subjects by (auto simp: isSelfSigned_def)
  show "inj_on x_PublicKey (set [lf_Cert l, au_Cert i, au_Cert r])" using keys by (auto simp: inj_on_def)
  show "EncodeKeyPEM P K (lf_Key l) enc = Inr keyPEM" using key by (simp add: KeyPEM_def)
  show "signer_Public L (lf_Key l) = Some (x_PublicKey (lf_Cert l))" "x_PublicKey (lf_Cert l) \<noteq> NoPub" by (rule facts)+
qed

end

section \<open>A library that satisfies it\<close>

text \<open>
  The world counts the keys made; a string is written with its length in unary before it, a PEM block
  is its type and its bytes, and a certificate its issuer, subject, key and names.
\<close>

definition unary :: "string \<Rightarrow> bytes" where
  "unary s = replicate (length s) CHR ''1'' @ CHR ''0'' # s"

definition ununary :: "bytes \<Rightarrow> string \<times> bytes" where
  "ununary b = (let n = length (takeWhile (\<lambda>c. c = CHR ''1'') b); r = drop (Suc n) b in (take n r, drop n r))"

lemma ununary_unary [simp]: "ununary (unary s @ r) = (s, r)"
  by (simp add: ununary_def unary_def takeWhile_append)

lemma length_unary [simp]: "length (unary s) = Suc (2 * length s)"
  by (simp add: unary_def)

lemma unary_nonempty [simp]: "unary s \<noteq> []"
  by (simp add: unary_def)

fun ununary_all :: "nat \<Rightarrow> bytes \<Rightarrow> string list" where
  "ununary_all 0 b = []"
| "ununary_all (Suc n) b = (if b = [] then [] else case ununary b of (s, r) \<Rightarrow> s # ununary_all n r)"

lemma ununary_all_unary: "length ss \<le> n \<Longrightarrow> ununary_all n (concat (map unary ss)) = ss"
proof (induction ss arbitrary: n)
  case Nil
  then show ?case by (cases n) simp_all
next
  case (Cons s ss)
  then show ?case by (cases n) simp_all
qed

lemma length_unary_all: "length ss \<le> length (concat (map unary ss))"
  by (induction ss) simp_all

definition counter_pem_next :: "bytes \<Rightarrow> (pem_block \<times> nat) option" where
  "counter_pem_next b =
     (case ununary b of (t, r) \<Rightarrow> case ununary r of (c, rest) \<Rightarrow>
        if b = [] then None else Some (\<lparr>pb_Type = t, pb_Bytes = c\<rparr>, length b - length rest - 1))"

fun public_code :: "public_key \<Rightarrow> bytes" where
  "public_code (RSAPub k) = CHR ''R'' # k"
| "public_code (ECDSAPub k) = CHR ''E'' # k"
| "public_code (Ed25519Pub k) = CHR ''D'' # k"
| "public_code NoPub = []"

definition public_decode :: "bytes \<Rightarrow> public_key" where
  "public_decode b =
     (case b of [] \<Rightarrow> NoPub
      | c # k \<Rightarrow> if c = CHR ''R'' then RSAPub k else if c = CHR ''E'' then ECDSAPub k else Ed25519Pub k)"

lemma public_decode_code [simp]: "public_decode (public_code p) = p"
  by (cases p) (simp_all add: public_decode_def)

definition counter_der :: "bytes \<Rightarrow> bytes \<Rightarrow> public_key \<Rightarrow> string list \<Rightarrow> bytes" where
  "counter_der issuer subject pub names =
     unary issuer @ unary subject @ unary (public_code pub) @ concat (map unary names)"

definition counter_parse :: "bytes \<Rightarrow> x509_cert go_result" where
  "counter_parse der =
     (case ununary der of (issuer, r1) \<Rightarrow> case ununary r1 of (subject, r2) \<Rightarrow> case ununary r2 of (pub, r3) \<Rightarrow>
        Inr \<lparr> x_Raw = der, x_RawIssuer = issuer, x_RawSubject = subject, x_DNSNames = ununary_all (length r3) r3,
              x_NotBefore = 1000, x_NotAfter = 5000, x_SerialNumber = Some 1, x_PublicKey = public_decode pub \<rparr>)"

lemma counter_parse_der:
  "counter_parse (counter_der issuer subject pub names) =
     Inr \<lparr> x_Raw = counter_der issuer subject pub names, x_RawIssuer = issuer, x_RawSubject = subject,
           x_DNSNames = names, x_NotBefore = 1000, x_NotAfter = 5000, x_SerialNumber = Some 1, x_PublicKey = pub \<rparr>"
proof -
  have "ununary_all (length (concat (map unary names))) (concat (map unary names)) = names"
    by (rule ununary_all_unary) (rule length_unary_all)
  then show ?thesis by (simp add: counter_parse_def counter_der_def)
qed

definition tagged :: "char \<Rightarrow> bytes \<Rightarrow> bytes go_result" where
  "tagged t b = (case b of [] \<Rightarrow> Inl (EText ''asn1: syntax error'') | c # k \<Rightarrow> if c = t then Inr k else Inl (EText ''asn1: wrong tag''))"

definition counter_x509 :: x509_lib where
  "counter_x509 =
     \<lparr> pem_next = counter_pem_next,
       ParseCertificate = counter_parse,
       ParsePKCS8PrivateKey = (\<lambda>b. case tagged CHR ''R'' b of Inr k \<Rightarrow> Inr (RSAKey k) | Inl _ \<Rightarrow>
         (case tagged CHR ''E'' b of Inr k \<Rightarrow> Inr (ECDSAKey k) | Inl _ \<Rightarrow>
         (case tagged CHR ''D'' b of Inr k \<Rightarrow> Inr (Ed25519Key k) | Inl e \<Rightarrow> Inl e))),
       ParsePKCS1PrivateKey = tagged CHR ''1'',
       ParseECPrivateKey = tagged CHR ''2'',
       public_part = id,
       CheckSignatureFrom = (\<lambda>c d. x_RawIssuer c = x_RawSubject d) \<rparr>"

definition counter_pki :: "nat pki_lib" where
  "counter_pki =
     \<lparr> pk_GenerateRSA = (\<lambda>bits w. (Inr (replicate w CHR ''r''), Suc w)),
       pk_GenerateP256 = (\<lambda>w. (Inr (replicate w CHR ''p''), Suc w)),
       pk_RandInt = (\<lambda>bound w. (Inr w, w)),
       pk_Now = (\<lambda>w. (2000, w)),
       pk_CreateCertificate = (\<lambda>tmpl parent pub signer w.
         (Inr (counter_der (case parent of ParentTemplate p \<Rightarrow> tm_CommonName p | ParentCert c \<Rightarrow> x_RawSubject c)
            (tm_CommonName tmpl) pub (tm_DNSNames tmpl)), w)),
       pk_EncodeToMemory = (\<lambda>blk. unary (pb_Type blk) @ unary (pb_Bytes blk)),
       pk_MarshalPKCS1PrivateKey = (\<lambda>k. CHR ''1'' # k),
       pk_MarshalECPrivateKey = (\<lambda>k. Inr (CHR ''2'' # k)),
       pk_MarshalPKCS8PrivateKey = (\<lambda>key. case key of RSAKey k \<Rightarrow> Inr (CHR ''R'' # k) | ECDSAKey k \<Rightarrow> Inr (CHR ''E'' # k)
         | Ed25519Key k \<Rightarrow> Inr (CHR ''D'' # k) | OtherKey t k \<Rightarrow> Inl (EText ''x509: unknown key type'')) \<rparr>"

interpretation counter: pki_contract counter_x509 counter_pki "\<lambda>cn. cn"
proof
  fix blk rest
  show "pem_next counter_x509 (pk_EncodeToMemory counter_pki blk @ rest) = Some (blk, length (pk_EncodeToMemory counter_pki blk) - 1)"
    by (simp add: counter_x509_def counter_pki_def counter_pem_next_def)
next
  fix tmpl parent pub signer w der w' cert
  assume "pk_CreateCertificate counter_pki tmpl parent pub signer w = (Inr der, w')" "ParseCertificate counter_x509 der = Inr cert"
  then show "x_Raw cert = der \<and> x_RawSubject cert = tm_CommonName tmpl \<and> x_DNSNames cert = tm_DNSNames tmpl \<and>
      x_RawIssuer cert = (case parent of ParentTemplate p \<Rightarrow> tm_CommonName p | ParentCert c \<Rightarrow> x_RawSubject c) \<and>
      x_PublicKey cert = pub"
    by (auto simp: counter_x509_def counter_pki_def counter_parse_der)
qed (auto simp: counter_x509_def counter_pki_def tagged_def split: private_key.splits)

section \<open>Property\<close>

text \<open>
  C13. What the test authority issues is parsed back: a leaf from an intermediate of a root, with
  different subjects and keys, is written with its chain in either order and its key in any
  encoding that fits the key, and gives the bundle of the leaf with the intermediate and the root in
  the order of the path, the key and the names that were asked for.
\<close>
theorem ParseBundle_issued:
  assumes "pki_contract L K subject"
    and "NewRootCA P L K rootName u = (Inr r, u')"
    and "Intermediate P L K r interName v = (Inr i, v')"
    and "Issue P L K i opts w = (Inr l, w')"
    and "KeyPEM P K l enc = Inr keyPEM"
    and "distinct [subject (case lo_DNSNames opts of [] \<Rightarrow> [] | name # _ \<Rightarrow> name), subject interName, subject rootName]"
    and "distinct [x_PublicKey (lf_Cert l), x_PublicKey (au_Cert i), x_PublicKey (au_Cert r)]"
    and "l' = WithChain l [au_Cert i, au_Cert r]" and "pem \<in> {CertPEM K l', CertPEMReversed K l'}"
  shows "ParseBundle L pem keyPEM =
      Inr \<lparr>bd_Leaf = lf_Cert l, bd_Chain = [au_Cert i, au_Cert r], bd_PrivateKey = lf_Key l\<rparr> \<and>
    x_DNSNames (lf_Cert l) = lo_DNSNames opts"
proof
  note parses = pki_contract.parses_issued [OF assms(1-7)]
  show "ParseBundle L pem keyPEM =
      Inr \<lparr>bd_Leaf = lf_Cert l, bd_Chain = [au_Cert i, au_Cert r], bd_PrivateKey = lf_Key l\<rparr>"
    using assms(8,9) parses [of "[lf_Cert l, au_Cert i, au_Cert r]"] parses [of "[au_Cert r, au_Cert i, lf_Cert l]"]
    by (auto simp: CertPEM_eq CertPEMReversed_eq WithChain_def)
  show "x_DNSNames (lf_Cert l) = lo_DNSNames opts" by (rule pki_contract.Issue_cert(4) [OF assms(1,4)])
qed

definition counter_options :: leaf_options where
  "counter_options = \<lparr>lo_DNSNames = [''*.x.com'', ''x.com''], lo_NotBefore = 1000, lo_NotAfter = 5000, lo_KeyType = ECDSAP256\<rparr>"

definition counter_root :: authority where
  "counter_root = (case NewRootCA sample_platform counter_x509 counter_pki ''root'' 1 of (Inr a, _) \<Rightarrow> a)"

definition counter_inter :: authority where
  "counter_inter = (case Intermediate sample_platform counter_x509 counter_pki counter_root ''inter'' 2 of (Inr a, _) \<Rightarrow> a)"

definition counter_leaf :: issued_leaf where
  "counter_leaf = (case Issue sample_platform counter_x509 counter_pki counter_inter counter_options 3 of (Inr l, _) \<Rightarrow> l)"

lemmas counter_run =
  newKey_def serial_def ca_template_def signCert_def io_simps counter_pki_def counter_x509_def counter_parse_der

lemma ParseBundle_issued_witness:
  "ParseBundle counter_x509 (CertPEMReversed counter_pki (WithChain counter_leaf [au_Cert counter_inter, au_Cert counter_root]))
      (pk_EncodeToMemory counter_pki \<lparr>pb_Type = ''EC PRIVATE KEY'', pb_Bytes = ''2ppp''\<rparr>) =
    Inr \<lparr>bd_Leaf = lf_Cert counter_leaf, bd_Chain = [au_Cert counter_inter, au_Cert counter_root], bd_PrivateKey = ECDSAKey ''ppp''\<rparr>"
proof -
  have root: "NewRootCA sample_platform counter_x509 counter_pki ''root'' 1 = (Inr counter_root, 2)"
    by (simp add: counter_root_def NewRootCA_def counter_run)
  have im: "Intermediate sample_platform counter_x509 counter_pki counter_root ''inter'' 2 = (Inr counter_inter, 3)"
    by (simp add: counter_inter_def Intermediate_def counter_run)
  have leaf: "Issue sample_platform counter_x509 counter_pki counter_inter counter_options 3 = (Inr counter_leaf, 4)"
    by (simp add: counter_leaf_def Issue_def counter_options_def default_time_def IsZero_def counter_run)
  have k: "lf_Key counter_leaf = ECDSAKey ''ppp''" 
    by (simp add: counter_leaf_def Issue_def counter_options_def default_time_def IsZero_def counter_run numeral_3_eq_3)
  have key: "KeyPEM sample_platform counter_pki counter_leaf SEC1 =
      Inr (pk_EncodeToMemory counter_pki \<lparr>pb_Type = ''EC PRIVATE KEY'', pb_Bytes = ''2ppp''\<rparr>)"
    using k by (simp add: KeyPEM_def EncodeKeyPEM_def) (simp add: counter_pki_def)
  have "distinct [case lo_DNSNames counter_options of [] \<Rightarrow> [] | name # _ \<Rightarrow> name, ''inter'', ''root'']"
    "distinct [x_PublicKey (lf_Cert counter_leaf), x_PublicKey (au_Cert counter_inter), x_PublicKey (au_Cert counter_root)]"
    by code_simp+
  from ParseBundle_issued [OF counter.pki_contract_axioms root im leaf key this refl insertI2 [OF singletonI]] k
  show ?thesis by simp
qed

end
