(* ===== verification/FakeServer.thy ===== *)
theory FakeServer
  imports SyncSystem TestPki
begin

text \<open>
  The rest of the Key Vault server of the end-to-end tests (\<open>test/e2e/fakekeyvault/server.go\<close>): its
  certificate, the routing of HTTP requests, the challenge, and the endpoints of Microsoft Entra.
  A request and an answer are records; the decoder of the JSON parameters, the listener and the
  cryptography are parameters. What the SDK of \<open>FakeKeyVault\<close> does is what these requests do.
\<close>

section \<open>Data\<close>

datatype json =
    JString string
  | JInt int
  | JBool bool
  | JArray "json list"
  | JObject "(string \<times> json) list"

datatype http_body =
    JSONBody json
  | TextBody string

record http_request =
  hq_Method :: string
  hq_Path :: string
  hq_Authorization :: string
  hq_Body :: bytes

record http_response =
  ha_Status :: nat
  ha_Headers :: "(string \<times> string) list"
  ha_Body :: http_body

text \<open>\<open>http\<close> is there by its URL and its certificate.\<close>

record http_server =
  sv_URL :: string
  sv_Certificate :: bytes
  sv_requireAuth :: bool
  sv_caPEM :: string
  sv_leafDER :: bytes
  sv_tokenGrants :: nat
  sv_vault :: fk_server

definition empty_vault :: fk_server where
  "empty_vault = \<lparr>fs_certs = [], fs_imports = [], fs_counter = 0\<rparr>"

definition AuthorityHost :: string where "AuthorityHost = ''login.microsoftonline.com''"
definition TenantID :: string where "TenantID = ''11111111-1111-1111-1111-111111111111''"

section \<open>The certificate of the server\<close>

definition pem_newline :: string where "pem_newline = [char_of (10 :: nat)]"

definition pem_header :: string where "pem_header = ''-----BEGIN CERTIFICATE-----'' @ pem_newline"
definition pem_footer :: string where "pem_footer = ''-----END CERTIFICATE-----'' @ pem_newline"

text \<open>The loop that writes the lines of 64 characters, and then the last line.\<close>

function pem_lines :: "string \<Rightarrow> string" where
  "pem_lines encoded =
     (if 64 < length encoded then take 64 encoded @ pem_newline @ pem_lines (drop 64 encoded)
      else encoded @ pem_newline)"
  by pat_completeness auto
termination by (relation "measure length") auto

declare pem_lines.simps [simp del]

definition pemEncode :: "bytes \<Rightarrow> string" where
  "pemEncode der = pem_header @ pem_lines (b64_encode der) @ pem_footer"

text \<open>Indexing the empty list panics.\<close>

definition first_host :: "string list \<Rightarrow> string go_result" where
  "first_host hosts =
     (case hosts of [] \<Rightarrow> Inl (EText ''index out of range [0] with length 0'') | host # _ \<Rightarrow> Inr host)"

definition selfSigned :: "x509_lib \<Rightarrow> 'w pki_lib \<Rightarrow> string list \<Rightarrow> ('w, bytes \<times> private_key) io" where
  "selfSigned L K hosts =
     io_bind (io_wrap (\<lambda>err. Errorf ''generating key: %w'' [AErr err]) (pk_GenerateP256 K)) (\<lambda>k.
     io_bind (io_wrap (\<lambda>err. Errorf ''generating serial: %w'' [AErr err]) (pk_RandInt K (2 ^ 128))) (\<lambda>n.
     io_bind (io_lift (first_host hosts)) (\<lambda>host.
     io_bind (io_effect (pk_Now K)) (\<lambda>now.
     io_bind (io_effect (pk_Now K)) (\<lambda>later.
     let key = ECDSAKey k;
         template = \<lparr> tm_SerialNumber = n, tm_CommonName = host, tm_DNSNames = hosts, tm_NotBefore = now - Hour,
                      tm_NotAfter = later + 24 * Hour, tm_KeyUsage = [KeyUsageDigitalSignature, KeyUsageCertSign],
                      tm_ExtKeyUsageServerAuth = True, tm_BasicConstraintsValid = True, tm_IsCA = True \<rparr> in
     io_bind (io_wrap (\<lambda>err. Errorf ''creating certificate: %w'' [AErr err])
       (pk_CreateCertificate K template (ParentTemplate template) (key_public L key) key)) (\<lambda>der.
     io_return (der, key)))))))"

text \<open>The listener on port 443 of the loopback address is a parameter; it yields the URL of the server.\<close>

definition NewOnPort443 :: "x509_lib \<Rightarrow> 'w pki_lib \<Rightarrow> ('w, string) io \<Rightarrow> ('w, http_server) io" where
  "NewOnPort443 L K listen =
     io_bind (selfSigned L K [VaultHost, AuthorityHost]) (\<lambda>(der, key).
     io_bind (io_wrap (\<lambda>err. Errorf ''binding 127.0.0.1:443: %w'' [AErr err]) listen) (\<lambda>url.
     io_return
       \<lparr> sv_URL = url, sv_Certificate = der, sv_requireAuth = True, sv_caPEM = pemEncode der, sv_leafDER = der,
         sv_tokenGrants = 0, sv_vault = empty_vault \<rparr>))"

definition http_server_URL :: "http_server \<Rightarrow> string" where
  "http_server_URL s = (if sv_requireAuth s then server_URL else sv_URL s)"

definition CACertPEM :: "http_server \<Rightarrow> string" where
  "CACertPEM s = (if sv_caPEM s \<noteq> [] then sv_caPEM s else pemEncode (sv_Certificate s))"

section \<open>Answers\<close>

definition writeJSON :: "nat \<Rightarrow> json \<Rightarrow> http_response" where
  "writeJSON status body =
     \<lparr>ha_Status = status, ha_Headers = [(''Content-Type'', ''application/json'')], ha_Body = JSONBody body\<rparr>"

text \<open>\<open>http.Error\<close>.\<close>

definition http_Error :: "string \<Rightarrow> nat \<Rightarrow> http_response" where
  "http_Error msg status =
     \<lparr> ha_Status = status,
       ha_Headers = [(''Content-Type'', ''text/plain; charset=utf-8''), (''X-Content-Type-Options'', ''nosniff'')],
       ha_Body = TextBody (msg @ pem_newline) \<rparr>"

definition json_error :: "string \<Rightarrow> string \<Rightarrow> json" where
  "json_error code msg = JObject [(''error'', JObject [(''code'', JString code), (''message'', JString msg)])]"

text \<open>\<open>base64.RawURLEncoding\<close>.\<close>

definition rawurl_encode :: "bytes \<Rightarrow> string" where
  "rawurl_encode b =
     map (\<lambda>c. if c = CHR ''+'' then CHR ''-'' else if c = CHR ''/'' then CHR ''_'' else c)
       (filter (\<lambda>c. c \<noteq> CHR ''='') (b64_encode b))"

definition json_body :: "string \<Rightarrow> string \<Rightarrow> fk_body \<Rightarrow> json" where
  "json_body url name b = JObject
     [(''id'', JString (url @ ''/certificates/'' @ name @ ''/'' @ fb_id_version b)),
      (''x5t'', JString (rawurl_encode (fb_x5t b))),
      (''tags'', JObject (map (\<lambda>(k, v). (k, JString v)) (fb_tags b))),
      (''attributes'', JObject [(''enabled'', JBool (fb_enabled b)), (''exp'', JInt (fb_exp b))])]"

section \<open>The endpoints of Microsoft Entra\<close>

definition entra_base :: string where "entra_base = ''https://'' @ AuthorityHost @ ''/'' @ TenantID"

definition discovery_json :: json where
  "discovery_json = JObject
     [(''tenant_discovery_endpoint'', JString (entra_base @ ''/v2.0/.well-known/openid-configuration'')),
      (''api-version'', JString ''1.1''),
      (''metadata'', JArray [JObject
        [(''preferred_network'', JString AuthorityHost), (''preferred_cache'', JString AuthorityHost),
         (''aliases'', JArray [JString AuthorityHost])]])]"

definition openid_json :: json where
  "openid_json = JObject
     [(''token_endpoint'', JString (entra_base @ ''/oauth2/v2.0/token'')),
      (''authorization_endpoint'', JString (entra_base @ ''/oauth2/v2.0/authorize'')),
      (''issuer'', JString (entra_base @ ''/v2.0'')),
      (''jwks_uri'', JString (entra_base @ ''/discovery/v2.0/keys'')),
      (''response_modes_supported'', JArray (map JString [''query'', ''fragment'', ''form_post''])),
      (''response_types_supported'', JArray (map JString [''code'', ''token''])),
      (''subject_types_supported'', JArray [JString ''pairwise'']),
      (''id_token_signing_alg_values_supported'', JArray [JString ''RS256'']),
      (''tenant_region_scope'', JString ''EU''),
      (''cloud_instance_name'', JString ''microsoftonline.com''),
      (''cloud_graph_host_name'', JString ''graph.windows.net'')]"

definition token_json :: json where
  "token_json = JObject
     [(''token_type'', JString ''Bearer''), (''expires_in'', JInt 3600), (''ext_expires_in'', JInt 3600),
      (''access_token'', JString ''fake-access-token'')]"

definition serveEntra :: "http_request \<Rightarrow> http_server \<Rightarrow> (http_response \<times> http_server) option" where
  "serveEntra r s =
     (let path = hq_Path r in
      if Contains path ''/discovery/instance'' then Some (writeJSON 200 discovery_json, s)
      else if HasSuffix path ''/.well-known/openid-configuration'' then Some (writeJSON 200 openid_json, s)
      else if HasSuffix path ''/oauth2/v2.0/token''
      then Some (writeJSON 200 token_json, s\<lparr>sv_tokenGrants := Suc (sv_tokenGrants s)\<rparr>)
      else if HasSuffix path ''/discovery/v2.0/keys'' then Some (writeJSON 200 (JObject [(''keys'', JArray [])]), s)
      else None)"

section \<open>Requests\<close>

text \<open>\<open>strings.Trim\<close>.\<close>

definition Trim :: "string \<Rightarrow> string \<Rightarrow> string" where
  "Trim s cutset = TrimRight (dropWhile (\<lambda>c. c \<in> set cutset) s) cutset"

definition serve_get :: "string \<Rightarrow> http_server \<Rightarrow> http_response \<times> http_server" where
  "serve_get name s =
     (case getCertificate name (sv_vault s) of
        (Inl err, v) \<Rightarrow> (writeJSON 404 (json_error ''CertificateNotFound'' ''certificate not found''), s\<lparr>sv_vault := v\<rparr>)
      | (Inr b, v) \<Rightarrow> (writeJSON 200 (json_body (sv_URL s) name b), s\<lparr>sv_vault := v\<rparr>))"

definition serve_import ::
  "platform \<Rightarrow> decode_chain \<Rightarrow> (bytes \<Rightarrow> fk_params go_result) \<Rightarrow> http_request \<Rightarrow> string \<Rightarrow> http_server \<Rightarrow>
     http_response \<times> http_server" where
  "serve_import P dec D r name s =
     (case D (hq_Body r) of
        Inl err \<Rightarrow> (http_Error (''bad request body: '' @ error_text P err) 400, s)
      | Inr params \<Rightarrow>
          (case importCertificate P dec params name (sv_vault s) of
             (Inl err, v) \<Rightarrow> (http_Error (error_text P err) 400, s\<lparr>sv_vault := v\<rparr>)
           | (Inr b, v) \<Rightarrow> (writeJSON 200 (json_body (sv_URL s) name b), s\<lparr>sv_vault := v\<rparr>)))"

definition challenge :: http_response where
  "challenge =
     \<lparr> ha_Status = 401,
       ha_Headers =
         [(''WWW-Authenticate'', ''Bearer authorization=\"'' @ entra_base @ ''\", resource=\"https://vault.azure.net\"''),
          (''Content-Type'', ''application/json'')],
       ha_Body = JSONBody (json_error ''Unauthorized'' ''authentication required'') \<rparr>"

definition route ::
  "platform \<Rightarrow> decode_chain \<Rightarrow> (bytes \<Rightarrow> fk_params go_result) \<Rightarrow> http_request \<Rightarrow> http_server \<Rightarrow> http_response \<times> http_server" where
  "route P dec D r s =
     (case serveEntra r s of
        Some answer \<Rightarrow> answer
      | None \<Rightarrow>
          let parts = SplitChar (Trim (hq_Path r) ''/'') (CHR ''/'') in
          if length parts < 2 \<or> parts ! 0 \<noteq> ''certificates'' then (http_Error ''unexpected path'' 404, s)
          else let name = parts ! 1 in
            if sv_requireAuth s \<and> hq_Authorization r = [] then (challenge, s)
            else if hq_Method r = ''POST'' \<and> length parts = 3 \<and> parts ! 2 = ''import'' then serve_import P dec D r name s
            else if hq_Method r = ''GET'' then serve_get name s
            else (http_Error ''unexpected method'' 405, s))"

text \<open>\<open>TokenGrants\<close> and \<open>Imports\<close>.\<close>

definition TokenGrants :: "http_server \<Rightarrow> nat" where "TokenGrants s = sv_tokenGrants s"
definition Imports :: "http_server \<Rightarrow> fk_import list" where "Imports s = fs_imports (sv_vault s)"

section \<open>The certificate can be read back\<close>

lemma pem_lines_shape:
  "\<exists>ls l. pem_lines e = concat (map (\<lambda>x. x @ pem_newline) (ls @ [l])) \<and> concat (ls @ [l]) = e \<and>
     list_all (\<lambda>x. length x = 64) ls \<and> length l \<le> 64"
proof (induction e rule: pem_lines.induct)
  case (1 e)
  show ?case
  proof (cases "64 < length e")
    case True
    with 1 obtain ls l where "pem_lines (drop 64 e) = concat (map (\<lambda>x. x @ pem_newline) (ls @ [l]))"
      "concat (ls @ [l]) = drop 64 e" "list_all (\<lambda>x. length x = 64) ls" "length l \<le> 64" by blast
    with True show ?thesis
      by (intro exI [of _ "take 64 e # ls"] exI [of _ l]) (simp add: pem_lines.simps [of e])
  next
    case False
    then show ?thesis by (intro exI [of _ "[]"] exI [of _ e]) (simp add: pem_lines.simps [of e])
  qed
qed

lemma filter_pem_lines:
  "\<forall>c \<in> set e. f c \<Longrightarrow> \<not> f (char_of (10 :: nat)) \<Longrightarrow> filter f (pem_lines e) = e"
proof (induction e rule: pem_lines.induct)
  case (1 e)
  show ?case
  proof (cases "64 < length e")
    case True
    have "\<forall>c \<in> set (take 64 e). f c" "\<forall>c \<in> set (drop 64 e). f c"
      using "1.prems"(1) by (auto dest: in_set_takeD in_set_dropD)
    with True 1 show ?thesis by (simp add: pem_lines.simps [of e] pem_newline_def)
  next
    case False
    with 1 show ?thesis by (simp add: pem_lines.simps [of e] pem_newline_def)
  qed
qed

lemma pem_lines_decode: "b64_decode (pem_lines (b64_encode der)) = Inr der"
proof -
  have "filter (\<lambda>c. c \<noteq> char_of (10 :: nat) \<and> c \<noteq> char_of (13 :: nat)) (pem_lines (b64_encode der)) = b64_encode der"
    by (rule filter_pem_lines) (use b64_encode_chars in auto)
  then show ?thesis by (simp add: b64_decode_def b64_groups_encode)
qed

section \<open>Paths\<close>

lemma Contains_split: "Contains s x \<Longrightarrow> \<exists>a b. s = a @ x @ b"
  unfolding Contains_def using Index_Some_split by blast

lemma SplitChar_append: "SplitChar (a @ sep # b) sep = SplitChar a sep @ SplitChar b sep"
  by (induction a) (auto split: list.splits)

lemma SplitChar_one: "sep \<notin> set a \<Longrightarrow> SplitChar a sep = [a]"
  by (induction a) auto

text \<open>The path of a request for a certificate is no endpoint of Entra.\<close>

lemma certificate_path:
  assumes "CHR ''/'' \<notin> set name" and "op = [] \<or> op = ''import''"
  shows "\<not> Contains (''/certificates/'' @ name @ ''/'' @ op) ''/discovery/instance''"
proof
  let ?split = "\<lambda>s. SplitChar s (CHR ''/'')"
  assume "Contains (''/certificates/'' @ name @ ''/'' @ op) ''/discovery/instance''"
  then obtain a b where "''/certificates/'' @ name @ ''/'' @ op = a @ ''/discovery/instance'' @ b"
    using Contains_split by blast
  then have "?split ([] @ CHR ''/'' # ''certificates'' @ CHR ''/'' # name @ CHR ''/'' # op) =
      ?split (a @ CHR ''/'' # ''discovery'' @ CHR ''/'' # ''instance'' @ b)" by simp
  then have "[[], ''certificates'', name, op] = ?split a @ ''discovery'' # ?split (''instance'' @ b)"
    unfolding SplitChar_append using assms by (auto simp: SplitChar_one)
  moreover obtain p ps where "?split (''instance'' @ b) = (''instance'' @ p) # ps"
    by (cases "?split b") simp_all
  ultimately show False using assms(2)
    by (cases "?split a" rule: list.exhaust [case_product list.exhaust]) (auto simp: Cons_eq_append_conv)
qed

lemma HasSuffix_last: "HasSuffix s x \<Longrightarrow> x \<noteq> [] \<Longrightarrow> last s = last x"
  by (auto simp: HasSuffix_iff)

lemma serveEntra_certificate:
  assumes "hq_Path r = ''/certificates/'' @ name @ ''/'' @ op" and "CHR ''/'' \<notin> set name" and "op = [] \<or> op = ''import''"
  shows "serveEntra r s = None"
proof -
  let ?p = "''/certificates/'' @ name @ ''/'' @ op"
  have l: "last ?p = (if op = [] then CHR ''/'' else CHR ''t'')" using assms(3) by auto
  have s: "last x = (if op = [] then CHR ''/'' else CHR ''t'')" if "HasSuffix ?p x" "x \<noteq> []" for x
    using HasSuffix_last [OF that] l by simp
  have s: "last x = (if op = [] then CHR ''/'' else CHR ''t'')" if "HasSuffix ?p x" "x \<noteq> []" for x
    using HasSuffix_last [OF that] l by simp
  have "\<not> HasSuffix ?p ''/.well-known/openid-configuration''" "\<not> HasSuffix ?p ''/oauth2/v2.0/token''"
    "\<not> HasSuffix ?p ''/discovery/v2.0/keys''"
    using s [of "''/.well-known/openid-configuration''"] s [of "''/oauth2/v2.0/token''"] s [of "''/discovery/v2.0/keys''"]
    by (auto split: if_splits)
  moreover have "\<not> Contains ?p ''/discovery/instance''" by (rule certificate_path [OF assms(2,3)])
  ultimately show ?thesis using assms(1) by (simp add: serveEntra_def)
qed

lemma certificate_parts:
  assumes "name \<noteq> []" and "CHR ''/'' \<notin> set name" and "op = [] \<or> op = ''import''"
  shows "SplitChar (Trim (''/certificates/'' @ name @ ''/'' @ op) ''/'') (CHR ''/'') =
    (if op = [] then [''certificates'', name] else [''certificates'', name, op])"
proof -
  have e: "last name \<noteq> CHR ''/''" using assms(1,2) last_in_set by metis
  have "Trim (''/certificates/'' @ name @ ''/'' @ op) ''/'' = ''certificates'' @ CHR ''/'' # name @ (if op = [] then [] else CHR ''/'' # op)"
  proof (cases "op = []")
    case True
    have "dropWhile (\<lambda>c. c = CHR ''/'') (rev name @ ''/setacifitrec'') = rev name @ ''/setacifitrec''"
      using e assms(1) by (cases name rule: rev_cases) simp_all
    with True show ?thesis by (simp add: Trim_def TrimRight_def)
  next
    case False
    with assms(3) show ?thesis by (simp add: Trim_def TrimRight_def)
  qed
  moreover have "SplitChar ''certificates'' (CHR ''/'') = [''certificates'']" "SplitChar name (CHR ''/'') = [name]"
    "op = ''import'' \<Longrightarrow> SplitChar op (CHR ''/'') = [op]" using assms(2) by (auto simp: SplitChar_one)
  ultimately show ?thesis using assms(3)
    SplitChar_append [of "''certificates''" "CHR ''/''" "name @ (if op = [] then [] else CHR ''/'' # op)"]
    SplitChar_append [of name "CHR ''/''" op] by auto
qed

lemma route_certificate:
  assumes "hq_Path r = ''/certificates/'' @ name @ ''/'' @ op" and "name \<noteq> []" and "CHR ''/'' \<notin> set name"
    and "op = [] \<or> op = ''import''" and "hq_Authorization r \<noteq> []"
  shows "route P dec D r s =
     (if hq_Method r = ''POST'' \<and> op \<noteq> [] then serve_import P dec D r name s
      else if hq_Method r = ''GET'' then serve_get name s
      else (http_Error ''unexpected method'' 405, s))"
  using assms(5) serveEntra_certificate [OF assms(1,3,4)] certificate_parts [OF assms(2-4)] assms(1,4)
  by (auto simp: route_def Let_def)

section \<open>Properties\<close>

text \<open>
  What an answer over HTTP says of the result of a call of the SDK and of the state of the vault
  after it.
\<close>

definition answers :: "http_server \<Rightarrow> string \<Rightarrow> cert_response go_result \<times> fk_server \<Rightarrow> http_response \<times> http_server \<Rightarrow> bool" where
  "answers s name = (\<lambda>(res, v) (a, s').
     s' = s\<lparr>sv_vault := v\<rparr> \<and>
     (case res of
        Inl err \<Rightarrow> response_status err = Some (ha_Status a)
      | Inr resp \<Rightarrow> \<exists>b. resp = response_of b \<and> a = writeJSON 200 (json_body (sv_URL s) name b)))"

lemma importCertificate_Inl:
  "importCertificate P dec params name v = (Inl err, v') \<Longrightarrow> response_status err = Some 400"
  by (auto simp: importCertificate_def Let_def split: sum.splits prod.splits if_splits)

lemma serve_get_answers:
  "answers s name (GetCertificate (fake_sdk P dec) server_URL name ver (sv_vault s)) (serve_get name s)"
  by (auto simp: answers_def serve_get_def fake_sdk_def getCertificate_def io_simps writeJSON_def split: option.split)

lemma serve_import_answers:
  assumes "D (hq_Body r) = Inr (params_of ps)"
  shows "answers s name (ImportCertificate (fake_sdk P dec) server_URL name ps (sv_vault s)) (serve_import P dec D r name s)"
proof (cases "importCertificate P dec (params_of ps) name (sv_vault s)")
  case (Pair res v)
  then show ?thesis
    by (cases res) (use assms in \<open>auto simp: answers_def serve_import_def fake_sdk_def io_simps http_Error_def
      dest: importCertificate_Inl\<close>)
qed


text \<open>
  Without an authorization the server that asks for one gives nothing away and takes nothing
  in: the vault is unchanged, and the answer is the same whatever the vault holds and whatever the
  request carries, so that certificate material is never used before authentication.
\<close>
theorem route_needs_authorization:
  assumes "sv_requireAuth s" and "hq_Authorization r = []"
  shows "sv_vault (snd (route P dec D r s)) = sv_vault s \<and>
    fst (route P dec D (r\<lparr>hq_Body := body\<rparr>) (s\<lparr>sv_vault := v\<rparr>)) = fst (route P dec D r s)"
proof (cases "serveEntra r s")
  case None
  then have "serveEntra (r\<lparr>hq_Body := body\<rparr>) (s\<lparr>sv_vault := v\<rparr>) = None"
    by (simp add: serveEntra_def Let_def split: if_splits)
  with None assms show ?thesis by (simp add: route_def Let_def)
next
  case (Some answer)
  then have "serveEntra (r\<lparr>hq_Body := body\<rparr>) (s\<lparr>sv_vault := v\<rparr>) = Some (fst answer, (snd answer)\<lparr>sv_vault := v\<rparr>)"
    "sv_vault (snd answer) = sv_vault s"
    by (auto simp: serveEntra_def Let_def split: if_splits)
  with Some show ?thesis by (simp add: route_def)
qed

lemma selfSigned_created:
  assumes "selfSigned L K hosts w = (Inr (der, key), w')"
  shows "\<exists>tmpl w1.
    pk_CreateCertificate K tmpl (ParentTemplate tmpl) (key_public L key) key w1 = (Inr der, w') \<and>
    hosts \<noteq> [] \<and> tm_CommonName tmpl = hd hosts \<and> tm_DNSNames tmpl = hosts"
proof (cases hosts)
  case Nil
  with assms show ?thesis by (auto simp: selfSigned_def io_Inr_iffs io_fail_def first_host_def)
next
  case (Cons host rest)
  with assms show ?thesis
    by (clarsimp simp: selfSigned_def io_Inr_iffs first_host_def Let_def) (intro exI conjI, assumption, simp_all)
qed

text \<open>
  A client that trusts what the server hands out trusts the server: once it listens, the text of
  \<open>CACertPEM\<close> is a header, lines of at most 64 characters, and a footer, from which the bytes of
  the served certificate are decoded; and that certificate names the vault and the login host and
  is its own issuer.
\<close>
theorem NewOnPort443_trust:
  assumes "pki_contract L K subject" and "NewOnPort443 L K listen w = (Inr s, w')"
    and "ParseCertificate L (sv_leafDER s) = Inr cert"
  shows "\<exists>ls. CACertPEM s = pem_header @ concat (map (\<lambda>l. l @ pem_newline) ls) @ pem_footer \<and>
      list_all (\<lambda>l. length l \<le> 64) ls \<and>
      b64_decode (concat (map (\<lambda>l. l @ pem_newline) ls)) = Inr (x_Raw cert) \<and>
      x_DNSNames cert = [VaultHost, AuthorityHost] \<and> x_RawIssuer cert = x_RawSubject cert \<and>
      http_server_URL s = ''https://'' @ hd (x_DNSNames cert)"
proof -
  obtain key w1 where k: "selfSigned L K [VaultHost, AuthorityHost] w = (Inr (sv_leafDER s, key), w1)"
    and s: "CACertPEM s = pemEncode (sv_leafDER s)" "http_server_URL s = server_URL"
    using assms(2) by (auto simp: NewOnPort443_def io_Inr_iffs CACertPEM_def http_server_URL_def)
  obtain tmpl w2 where t: "tm_CommonName tmpl = VaultHost" "tm_DNSNames tmpl = [VaultHost, AuthorityHost]"
    "pk_CreateCertificate K tmpl (ParentTemplate tmpl) (key_public L key) key w2 = (Inr (sv_leafDER s), w1)"
    using selfSigned_created [OF k] by auto
  have c: "x_Raw cert = sv_leafDER s" "x_DNSNames cert = [VaultHost, AuthorityHost]" "x_RawIssuer cert = x_RawSubject cert"
    using pki_contract.created [OF assms(1) t(3) assms(3)] t by simp_all
  obtain ls l where p: "pem_lines (b64_encode (sv_leafDER s)) = concat (map (\<lambda>x. x @ pem_newline) (ls @ [l]))"
    "list_all (\<lambda>x. length x = 64) ls" "length l \<le> 64" using pem_lines_shape by blast
  have "list_all (\<lambda>l. length l \<le> 64) (ls @ [l])" using p by (auto simp: list_all_iff)
  moreover have "b64_decode (concat (map (\<lambda>x. x @ pem_newline) (ls @ [l]))) = Inr (x_Raw cert)"
    using pem_lines_decode [of "sv_leafDER s"] p(1) c(1) by simp
  ultimately show ?thesis using p(1) s c
    by (intro exI [of _ "ls @ [l]"]) (simp add: pemEncode_def server_URL_def)
qed

section \<open>Witnesses\<close>

definition counter_server :: http_server where
  "counter_server =
     (case NewOnPort443 counter_x509 counter_pki (io_return ''https://127.0.0.1:443'') 1 of (Inr s, _) \<Rightarrow> s)"

definition a_request :: "string \<Rightarrow> string \<Rightarrow> http_request" where
  "a_request m path = \<lparr>hq_Method = m, hq_Path = path, hq_Authorization = ''Bearer fake-access-token'', hq_Body = []\<rparr>"


lemma route_needs_authorization_witness:
  "sv_vault (snd (route sample_platform toy_decode (\<lambda>b. Inl (EText ''EOF''))
     (a_request ''POST'' ''/certificates/x-com/import''\<lparr>hq_Authorization := []\<rparr>) counter_server)) = sv_vault counter_server"
  by (rule route_needs_authorization [THEN conjunct1])
    (simp_all add: counter_server_def NewOnPort443_def selfSigned_def first_host_def io_simps counter_pki_def Let_def)

lemma NewOnPort443_trust_witness:
  "\<exists>ls. CACertPEM counter_server = pem_header @ concat (map (\<lambda>l. l @ pem_newline) ls) @ pem_footer \<and>
      list_all (\<lambda>l. length l \<le> 64) ls"
proof -
  let ?listen = "io_return ''https://127.0.0.1:443'' :: (nat, string) io"
  let ?cert = "case ParseCertificate counter_x509 (sv_leafDER counter_server) of Inr c \<Rightarrow> c"
  have s: "NewOnPort443 counter_x509 counter_pki ?listen 1 = (Inr counter_server, 2)"
    by (simp add: counter_server_def NewOnPort443_def selfSigned_def first_host_def io_simps counter_pki_def Let_def)
  have "ParseCertificate counter_x509 (sv_leafDER counter_server) = Inr ?cert"
    by (simp add: counter_server_def NewOnPort443_def selfSigned_def first_host_def io_simps counter_pki_def Let_def
      counter_x509_def counter_parse_der)
  from NewOnPort443_trust [OF counter.pki_contract_axioms s this] show ?thesis by blast
qed

end
