(* ===== verification/ClientCache.thy ===== *)
theory ClientCache
  imports AzureRepository
begin

text \<open>
  The cache of clients under concurrent calls (\<open>clientFor\<close> of \<open>internal/infra/azure/keyvault.go\<close>). The
  statements of the function are the steps of a goroutine, which interleave with those of others
  and with changes of the world that do not concern the cache. The mutex makes every interleaving
  one of calls that happen at once, which is how \<open>AzureRepository\<close> describes them.
\<close>

section \<open>Goroutines in clientFor\<close>

text \<open>
  Where a goroutine is: before \<open>mu.Lock()\<close>, before the lookup, before the call of the factory, before
  the client is stored, before the deferred \<open>mu.Unlock()\<close> with the results to return, or after it.
\<close>

datatype 'c call_point =
    AtLock
  | AtLookup
  | AtFactory
  | AtStore 'c
  | AtUnlock "'c go_result"
  | Returned "'c go_result"

record ('c, 'w) cache_state =
  ca_mu :: "nat option"
  ca_clients :: "(string \<times> 'c) list"
  ca_world :: 'w
  ca_urls :: "nat \<Rightarrow> string"
  ca_points :: "nat \<Rightarrow> 'c call_point"

definition go_on :: "nat \<Rightarrow> 'c call_point \<Rightarrow> ('c, 'w) cache_state \<Rightarrow> ('c, 'w) cache_state" where
  "go_on g p s = s\<lparr>ca_points := (ca_points s)(g := p)\<rparr>"

text \<open>The next statement of goroutine \<open>g\<close>, if it has one and is not blocked.\<close>

definition call_step :: "('c, 'w) azure_sdk \<Rightarrow> nat \<Rightarrow> ('c, 'w) cache_state \<Rightarrow> ('c, 'w) cache_state option" where
  "call_step S g s =
     (let vaultURL = ca_urls s g in
      case ca_points s g of
        AtLock \<Rightarrow> if ca_mu s = None then Some (go_on g AtLookup (s\<lparr>ca_mu := Some g\<rparr>)) else None
      | AtLookup \<Rightarrow>
          (case map_of (ca_clients s) vaultURL of
             Some client \<Rightarrow> Some (go_on g (AtUnlock (Inr client)) s)
           | None \<Rightarrow> Some (go_on g AtFactory s))
      | AtFactory \<Rightarrow>
          (case new_client S vaultURL (ca_world s) of
             (Inl err, w) \<Rightarrow>
               Some (go_on g (AtUnlock (Inl (Errorf ''creating Key Vault client for %q: %w'' [AStr vaultURL, AErr err])))
                 (s\<lparr>ca_world := w\<rparr>))
           | (Inr client, w) \<Rightarrow> Some (go_on g (AtStore client) (s\<lparr>ca_world := w\<rparr>)))
      | AtStore client \<Rightarrow>
          Some (go_on g (AtUnlock (Inr client)) (s\<lparr>ca_clients := AList.update vaultURL client (ca_clients s)\<rparr>))
      | AtUnlock r \<Rightarrow> Some (go_on g (Returned r) (s\<lparr>ca_mu := None\<rparr>))
      | Returned r \<Rightarrow> None)"

inductive cache_step :: "('c, 'w) azure_sdk \<Rightarrow> ('c, 'w) cache_state \<Rightarrow> ('c, 'w) cache_state \<Rightarrow> bool" for S where
  call: "call_step S g s = Some s' \<Longrightarrow> cache_step S s s'"
| outside: "cache_step S s (s\<lparr>ca_world := w\<rparr>)"

definition cache_start :: "(nat \<Rightarrow> string) \<Rightarrow> (string \<times> 'c) list \<Rightarrow> 'w \<Rightarrow> ('c, 'w) cache_state" where
  "cache_start urls clients w =
     \<lparr>ca_mu = None, ca_clients = clients, ca_world = w, ca_urls = urls, ca_points = (\<lambda>_. AtLock)\<rparr>"

section \<open>Calls that happen at once\<close>

record ('c, 'w) atomic_state =
  at_clients :: "(string \<times> 'c) list"
  at_world :: 'w
  at_urls :: "nat \<Rightarrow> string"
  at_results :: "nat \<Rightarrow> 'c go_result option"

definition atomic_call :: "('c, 'w) azure_sdk \<Rightarrow> nat \<Rightarrow> ('c, 'w) atomic_state \<Rightarrow> ('c, 'w) atomic_state" where
  "atomic_call S g a =
     (case clientFor S (at_urls a g) (at_clients a, at_world a) of
        (r, (clients, w)) \<Rightarrow>
          a\<lparr>at_clients := clients, at_world := w, at_results := (at_results a)(g \<mapsto> r)\<rparr>)"

inductive atomic_step :: "('c, 'w) azure_sdk \<Rightarrow> ('c, 'w) atomic_state \<Rightarrow> ('c, 'w) atomic_state \<Rightarrow> bool" for S where
  call: "at_results a g = None \<Longrightarrow> atomic_step S a (atomic_call S g a)"
| outside: "atomic_step S a (a\<lparr>at_world := w\<rparr>)"

definition atomic_start :: "(nat \<Rightarrow> string) \<Rightarrow> (string \<times> 'c) list \<Rightarrow> 'w \<Rightarrow> ('c, 'w) atomic_state" where
  "atomic_start urls clients w =
     \<lparr>at_clients = clients, at_world = w, at_urls = urls, at_results = Map.empty\<rparr>"

section \<open>Simulation\<close>

text \<open>
  The lock is held by exactly the goroutine that is between \<open>Lock\<close> and \<open>Unlock\<close>; past the lookup, the
  cache has no client for its URL.
\<close>

fun inside :: "'c call_point \<Rightarrow> bool" where
  "inside AtLock = False"
| "inside (Returned r) = False"
| "inside _ = True"

fun missed :: "'c call_point \<Rightarrow> bool" where
  "missed AtFactory = True"
| "missed (AtStore c) = True"
| "missed _ = False"

definition cache_inv :: "('c, 'w) cache_state \<Rightarrow> bool" where
  "cache_inv s \<longleftrightarrow>
     (\<forall>g. inside (ca_points s g) \<longleftrightarrow> ca_mu s = Some g) \<and>
     (\<forall>g. missed (ca_points s g) \<longrightarrow> map_of (ca_clients s) (ca_urls s g) = None)"

text \<open>
  A call happens when it has seen its client in the cache or got the answer of the factory: from
  then on its result is fixed, and a client that is about to be stored is in the abstract cache.
\<close>

fun result_at :: "'c call_point \<Rightarrow> 'c go_result option" where
  "result_at (AtStore c) = Some (Inr c)"
| "result_at (AtUnlock r) = Some r"
| "result_at (Returned r) = Some r"
| "result_at _ = None"

definition atomic_of :: "('c, 'w) cache_state \<Rightarrow> ('c, 'w) atomic_state" where
  "atomic_of s =
     \<lparr> at_clients =
         (case ca_mu s of
            None \<Rightarrow> ca_clients s
          | Some g \<Rightarrow>
              (case ca_points s g of
                 AtStore c \<Rightarrow> AList.update (ca_urls s g) c (ca_clients s)
               | _ \<Rightarrow> ca_clients s)),
       at_world = ca_world s, at_urls = ca_urls s, at_results = (\<lambda>g. result_at (ca_points s g)) \<rparr>"

lemma inside_missed: "missed p \<Longrightarrow> inside p"
  by (cases p) auto

text \<open>One case per statement.\<close>

lemma call_step_cases:
  assumes "call_step S g s = Some s'"
  obtains (lock) "ca_points s g = AtLock" "ca_mu s = None" "s' = go_on g AtLookup (s\<lparr>ca_mu := Some g\<rparr>)"
    | (hit) c where "ca_points s g = AtLookup" "map_of (ca_clients s) (ca_urls s g) = Some c"
        "s' = go_on g (AtUnlock (Inr c)) s"
    | (miss) "ca_points s g = AtLookup" "map_of (ca_clients s) (ca_urls s g) = None" "s' = go_on g AtFactory s"
    | (refused) err w where "ca_points s g = AtFactory" "new_client S (ca_urls s g) (ca_world s) = (Inl err, w)"
        "s' = go_on g (AtUnlock (Inl (Errorf ''creating Key Vault client for %q: %w'' [AStr (ca_urls s g), AErr err])))
           (s\<lparr>ca_world := w\<rparr>)"
    | (made) c w where "ca_points s g = AtFactory" "new_client S (ca_urls s g) (ca_world s) = (Inr c, w)"
        "s' = go_on g (AtStore c) (s\<lparr>ca_world := w\<rparr>)"
    | (stored) c where "ca_points s g = AtStore c"
        "s' = go_on g (AtUnlock (Inr c)) (s\<lparr>ca_clients := AList.update (ca_urls s g) c (ca_clients s)\<rparr>)"
    | (unlock) r where "ca_points s g = AtUnlock r" "s' = go_on g (Returned r) (s\<lparr>ca_mu := None\<rparr>)"
  using assms that
  by (cases "ca_points s g"; cases "map_of (ca_clients s) (ca_urls s g)";
      cases "new_client S (ca_urls s g) (ca_world s)"; cases "fst (new_client S (ca_urls s g) (ca_world s))")
     (auto simp: call_step_def split: if_splits)

lemma cache_inv_step: "cache_inv s \<Longrightarrow> cache_step S s s' \<Longrightarrow> cache_inv s'"
proof (erule cache_step.cases)
  fix g t t' assume inv: "cache_inv s" and eqs: "s = t" "s' = t'" and c: "call_step S g t = Some t'"
  have mu: "inside (ca_points s h) \<longleftrightarrow> ca_mu s = Some h" and none: "missed (ca_points s h) \<Longrightarrow> map_of (ca_clients s) (ca_urls s h) = None" for h
    using inv by (auto simp: cache_inv_def)
  have others: "h = g" if "inside (ca_points s g)" "inside (ca_points s h)" for h
    using that mu by (metis option.inject)
  from c [folded eqs] show "cache_inv s'"
  proof (cases rule: call_step_cases)
    case lock
    then show ?thesis using mu none inside_missed by (fastforce simp: cache_inv_def go_on_def)
  next
    case (hit c)
    then show ?thesis using mu none mu [of g] by (auto simp: cache_inv_def go_on_def)
  next
    case miss
    then show ?thesis using mu none mu [of g] by (auto simp: cache_inv_def go_on_def)
  next
    case (refused err w)
    then show ?thesis using mu none mu [of g] by (auto simp: cache_inv_def go_on_def)
  next
    case (made c w)
    then show ?thesis using mu none mu [of g] none [of g] by (auto simp: cache_inv_def go_on_def)
  next
    case (stored c)
    have "\<not> missed (ca_points s h)" if "h \<noteq> g" for h using that others [of h] stored inside_missed by fastforce
    with stored show ?thesis using mu mu [of g] by (auto simp: cache_inv_def go_on_def)
  next
    case (unlock r)
    then have "\<not> inside (ca_points s h)" if "h \<noteq> g" for h using that others [of h] by auto
    with unlock show ?thesis using inside_missed none by (fastforce simp: cache_inv_def go_on_def)
  qed
next
  fix t w assume "cache_inv s" "s = t" "s' = t\<lparr>ca_world := w\<rparr>"
  then show "cache_inv s'" by (simp add: cache_inv_def)
qed


lemma atomic_of_update:
  "ca_mu s = Some g \<Longrightarrow> atomic_of s =
     \<lparr> at_clients = (case ca_points s g of AtStore c \<Rightarrow> AList.update (ca_urls s g) c (ca_clients s) | _ \<Rightarrow> ca_clients s),
       at_world = ca_world s, at_urls = ca_urls s, at_results = (\<lambda>g. result_at (ca_points s g)) \<rparr>"
  by (simp add: atomic_of_def)

text \<open>Three statements are where a call happens; the others do not show.\<close>

lemma cache_sim_call:
  assumes inv: "cache_inv s" and c: "call_step S g s = Some s'"
  shows "atomic_of s' = atomic_of s \<or>
    result_at (ca_points s g) = None \<and> atomic_of s' = atomic_call S g (atomic_of s)"
proof -
  have mu: "inside (ca_points s g) \<Longrightarrow> ca_mu s = Some g" and
    none: "missed (ca_points s g) \<Longrightarrow> map_of (ca_clients s) (ca_urls s g) = None"
    using inv by (auto simp: cache_inv_def)
  have keep: "(\<lambda>h. result_at (if h = g then p else ca_points s h)) = (\<lambda>h. result_at (ca_points s h))"
    if "result_at p = result_at (ca_points s g)" for p using that by auto
  have set_result: "(\<lambda>h. result_at (if h = g then p else ca_points s h)) = (\<lambda>h. result_at (ca_points s h))(g := result_at p)"
    for p by auto
  from c show ?thesis
  proof (cases rule: call_step_cases)
    case lock
    then show ?thesis using keep [of AtLookup] by (simp add: atomic_of_def go_on_def fun_upd_def)
  next
    case (hit c)
    then show ?thesis using mu set_result [of "AtUnlock (Inr c)"]
      by (simp add: atomic_of_def go_on_def atomic_call_def clientFor_def fun_upd_def)
  next
    case miss
    then show ?thesis using mu keep [of AtFactory] by (simp add: atomic_of_def go_on_def fun_upd_def)
  next
    case (refused err w)
    then show ?thesis using mu none
      by (intro disjI2) (auto simp: atomic_of_def go_on_def atomic_call_def clientFor_def outside_def fun_eq_iff)
  next
    case (made c w)
    then show ?thesis using mu none set_result [of "AtStore c"]
      by (simp add: atomic_of_def go_on_def atomic_call_def clientFor_def outside_def fun_upd_def)
  next
    case (stored c)
    then show ?thesis using mu keep [of "AtUnlock (Inr c)"] by (simp add: atomic_of_def go_on_def fun_upd_def)
  next
    case (unlock r)
    then show ?thesis using mu keep [of "Returned r"] by (simp add: atomic_of_def go_on_def fun_upd_def)
  qed
qed

lemma cache_sim_step:
  assumes "cache_inv s" and "cache_step S s s'"
  shows "atomic_of s' = atomic_of s \<or> atomic_step S (atomic_of s) (atomic_of s')"
  using assms(2)
proof cases
  case (call g)
  show ?thesis
    using cache_sim_call [OF assms(1) call] atomic_step.call [of "atomic_of s" g S] by (auto simp: atomic_of_def)
next
  case (outside w)
  have "atomic_of s' = atomic_of s\<lparr>at_world := w\<rparr>" 
    by (simp add: outside atomic_of_def split: option.split call_point.split)
  then show ?thesis using atomic_step.outside by metis
qed

interpretation cache: simulation "cache_step S" cache_inv atomic_of "atomic_step S"
  for S by unfold_locales (fact cache_inv_step cache_sim_step)+

lemma cache_inv_start: "cache_inv (cache_start urls clients w)"
  by (simp add: cache_inv_def cache_start_def)

lemma atomic_of_start: "atomic_of (cache_start urls clients w) = atomic_start urls clients w"
  by (simp add: atomic_of_def cache_start_def atomic_start_def)

section \<open>One client per vault\<close>

text \<open>Once a call at once has given a client, the cache holds it, for good.\<close>

definition results_cached :: "('c, 'w) atomic_state \<Rightarrow> bool" where
  "results_cached a \<longleftrightarrow> (\<forall>g c. at_results a g = Some (Inr c) \<longrightarrow> map_of (at_clients a) (at_urls a g) = Some c)"

lemma clientFor_keeps:
  "clientFor S u (clients, w) = (r, (clients', w')) \<Longrightarrow>
     (map_of clients v = Some d \<longrightarrow> map_of clients' v = Some d) \<and> (r = Inr c \<longrightarrow> map_of clients' u = Some c)"
  by (cases "map_of clients u") (auto simp: clientFor_def outside_def update_conv' split: prod.splits sum.splits)

lemma results_cached_step: "results_cached a \<Longrightarrow> atomic_step S a a' \<Longrightarrow> results_cached a'"
proof (erule atomic_step.cases)
  fix b g assume r: "results_cached a" and eqs: "a = b" "a' = atomic_call S g b"
  obtain res cl w where c: "clientFor S (at_urls b g) (at_clients b, at_world b) = (res, (cl, w))" by (metis surj_pair)
  show "results_cached a'"
    using r eqs clientFor_keeps [OF c] c by (auto simp: results_cached_def atomic_call_def)
qed (simp add: results_cached_def)

lemma results_cached_runs:
  "(atomic_step S)\<^sup>*\<^sup>* (atomic_start urls clients w) a \<Longrightarrow> results_cached a \<and> at_urls a = urls"
proof (induction rule: rtranclp_induct)
  case (step a b)
  moreover have "at_urls b = at_urls a" using step(2) by cases (auto simp: atomic_call_def split: prod.splits)
  ultimately show ?case using results_cached_step by metis
qed (simp add: results_cached_def atomic_start_def)

section \<open>Progress\<close>

text \<open>While a call has not returned, some goroutine can go on, and each call takes at most five statements.\<close>

fun statements_left :: "'c call_point \<Rightarrow> nat" where
  "statements_left AtLock = 5"
| "statements_left AtLookup = 4"
| "statements_left AtFactory = 3"
| "statements_left (AtStore c) = 2"
| "statements_left (AtUnlock r) = 1"
| "statements_left (Returned r) = 0"

lemma call_step_decreases:
  "call_step S g s = Some s' \<Longrightarrow>
     statements_left (ca_points s' g) < statements_left (ca_points s g) \<and>
     (\<forall>h. h \<noteq> g \<longrightarrow> ca_points s' h = ca_points s h)"
  by (erule call_step_cases) (auto simp: go_on_def)

lemma inside_can_step: "inside (ca_points s g) \<Longrightarrow> call_step S g s \<noteq> None"
  by (cases "ca_points s g") (auto simp: call_step_def Let_def split: option.split sum.split prod.split)

lemma cache_progress:
  assumes "cache_inv s" and "statements_left (ca_points s g) > 0"
  shows "\<exists>h. call_step S h s \<noteq> None"
proof (cases "ca_mu s")
  case None
  then have "\<not> inside (ca_points s g)" using assms(1) by (simp add: cache_inv_def)
  with assms(2) have "ca_points s g = AtLock" by (cases "ca_points s g") auto
  with None have "call_step S g s \<noteq> None" by (simp add: call_step_def)
  then show ?thesis by blast
next
  case (Some h)
  then have "inside (ca_points s h)" using assms(1) by (simp add: cache_inv_def)
  from inside_can_step [OF this] show ?thesis by blast
qed

section \<open>Property\<close>

text \<open>
  C21. The cache of clients is linearizable: in every state that goroutines calling it can reach,
  however their statements interleave, what each has returned is what it got in a sequence of calls
  that happened at once, one after the other, and between calls the cache is the one of that
  sequence. So all goroutines that were given a client for a vault were given the same one. And
  nobody is blocked for good: unless all have returned, one can go on.
\<close>
theorem clientFor_linearizable:
  assumes "(cache_step S)\<^sup>*\<^sup>* (cache_start urls clients w) s"
  shows "(\<exists>a. (atomic_step S)\<^sup>*\<^sup>* (atomic_start urls clients w) a \<and>
      (\<forall>g r. ca_points s g = Returned r \<longrightarrow> at_results a g = Some r) \<and> (ca_mu s = None \<longrightarrow> at_clients a = ca_clients s)) \<and>
    (\<forall>g h c d. ca_points s g = Returned (Inr c) \<and> ca_points s h = Returned (Inr d) \<and> urls g = urls h \<longrightarrow> c = d) \<and>
    ((\<exists>g. \<forall>r. ca_points s g \<noteq> Returned r) \<longrightarrow> (\<exists>h. call_step S h s \<noteq> None))"
proof (intro conjI)
  note run = cache.runs [OF assms cache_inv_start, unfolded atomic_of_start]
  from run show "\<exists>a. (atomic_step S)\<^sup>*\<^sup>* (atomic_start urls clients w) a \<and>
      (\<forall>g r. ca_points s g = Returned r \<longrightarrow> at_results a g = Some r) \<and> (ca_mu s = None \<longrightarrow> at_clients a = ca_clients s)"
    by (intro exI [of _ "atomic_of s"]) (simp add: atomic_of_def)
  from results_cached_runs [OF conjunct2 [OF run]]
  have cached: "map_of (at_clients (atomic_of s)) (urls g) = Some c" if "ca_points s g = Returned (Inr c)" for g c
    using that by (auto simp: results_cached_def atomic_of_def)
  then show "\<forall>g h c d. ca_points s g = Returned (Inr c) \<and> ca_points s h = Returned (Inr d) \<and> urls g = urls h \<longrightarrow> c = d"
    by (metis option.inject)
  show "(\<exists>g. \<forall>r. ca_points s g \<noteq> Returned r) \<longrightarrow> (\<exists>h. call_step S h s \<noteq> None)"
  proof
    assume "\<exists>g. \<forall>r. ca_points s g \<noteq> Returned r"
    then obtain g where g: "\<And>r. ca_points s g \<noteq> Returned r" by blast
    then have "statements_left (ca_points s g) > 0" by (cases "ca_points s g") auto
    with run show "\<exists>h. call_step S h s \<noteq> None" using cache_progress by blast
  qed
qed

text \<open>Two goroutines for one vault: the second waits for the first, and finds its client.\<close>

fun schedule :: "('c, 'w) azure_sdk \<Rightarrow> nat list \<Rightarrow> ('c, 'w) cache_state \<Rightarrow> ('c, 'w) cache_state" where
  "schedule S [] s = s"
| "schedule S (g # gs) s = schedule S gs (case call_step S g s of None \<Rightarrow> s | Some s' \<Rightarrow> s')"

lemma schedule_runs: "(cache_step S)\<^sup>*\<^sup>* s (schedule S gs s)"
proof (induction gs arbitrary: s)
  case (Cons g gs)
  then show ?case
    by (cases "call_step S g s") (auto intro: converse_rtranclp_into_rtranclp [where r = "cache_step S"] cache_step.call)
qed simp

lemma clientFor_linearizable_witness:
  "(let s = schedule counting_sdk [0, 1, 0, 0, 1, 0, 0, 1, 1, 1] (cache_start (\<lambda>_. ''https://v'') [] 0) in
    ca_points s 0 = Returned (Inr ''https://v'') \<and> ca_points s 1 = Returned (Inr ''https://v'') \<and> ca_world s = 1 \<and>
    (\<exists>a. (atomic_step counting_sdk)\<^sup>*\<^sup>* (atomic_start (\<lambda>_. ''https://v'') [] 0) a \<and>
       at_results a 1 = Some (Inr ''https://v'')))"
proof -
  let ?s = "schedule counting_sdk [0, 1, 0, 0, 1, 0, 0, 1, 1, 1] (cache_start (\<lambda>_. ''https://v'') [] 0)"
  have p: "ca_points ?s 0 = Returned (Inr ''https://v'')" "ca_points ?s 1 = Returned (Inr ''https://v'')" "ca_world ?s = 1"
    by (simp_all add: call_step_def cache_start_def go_on_def counting_sdk_def)
  from clientFor_linearizable [OF schedule_runs [of counting_sdk _ "[0, 1, 0, 0, 1, 0, 0, 1, 1, 1]"], of "\<lambda>_. ''https://v''" "[]" 0] p(2)
  have "\<exists>a. (atomic_step counting_sdk)\<^sup>*\<^sup>* (atomic_start (\<lambda>_. ''https://v'') [] 0) a \<and> at_results a 1 = Some (Inr ''https://v'')"
    by blast
  with p show ?thesis unfolding Let_def by blast
qed

end
