(* ===== verification/OutputBuffer.thy ===== *)
theory OutputBuffer
  imports GoStrings
begin

text \<open>
  The buffer of the end-to-end tests (\<open>test/e2e/buffer.go\<close>), to which the output of the process
  under test is copied while the test reads it: \<open>Write\<close> and \<open>String\<close> of a \<open>bytes.Buffer\<close> under a
  mutex. The statements are the steps of goroutines that interleave. A write to a \<open>bytes.Buffer\<close>
  is two of them, as it reads the buffer before it extends it.
\<close>

section \<open>Goroutines in Write and String\<close>

datatype buffer_call = WriteCall string | StringCall

datatype buffer_result = Written nat | Contents string

text \<open>
  Where a goroutine is: before \<open>mu.Lock()\<close>, before it reads the buffer, before it stores what it
  extended, before the deferred \<open>mu.Unlock()\<close> with the result to return, or after it.
\<close>

datatype buffer_point =
    BeforeLock
  | BeforeRead
  | BeforeStore string
  | BeforeUnlock buffer_result
  | CallDone buffer_result

record lockedBuffer =
  lb_mu :: "nat option"
  lb_buf :: string
  lb_calls :: "nat \<Rightarrow> buffer_call"
  lb_points :: "nat \<Rightarrow> buffer_point"

definition proceed :: "nat \<Rightarrow> buffer_point \<Rightarrow> lockedBuffer \<Rightarrow> lockedBuffer" where
  "proceed g p b = b\<lparr>lb_points := (lb_points b)(g := p)\<rparr>"

definition buffer_statement :: "nat \<Rightarrow> lockedBuffer \<Rightarrow> lockedBuffer option" where
  "buffer_statement g b =
     (case lb_points b g of
        BeforeLock \<Rightarrow> if lb_mu b = None then Some (proceed g BeforeRead (b\<lparr>lb_mu := Some g\<rparr>)) else None
      | BeforeRead \<Rightarrow>
          (case lb_calls b g of
             WriteCall p \<Rightarrow> Some (proceed g (BeforeStore (lb_buf b @ p)) b)
           | StringCall \<Rightarrow> Some (proceed g (BeforeUnlock (Contents (lb_buf b))) b))
      | BeforeStore grown \<Rightarrow>
          Some (proceed g (BeforeUnlock (Written (length grown - length (lb_buf b)))) (b\<lparr>lb_buf := grown\<rparr>))
      | BeforeUnlock r \<Rightarrow> Some (proceed g (CallDone r) (b\<lparr>lb_mu := None\<rparr>))
      | CallDone r \<Rightarrow> None)"

inductive buffer_step :: "lockedBuffer \<Rightarrow> lockedBuffer \<Rightarrow> bool" where
  statement: "buffer_statement g b = Some b' \<Longrightarrow> buffer_step b b'"

definition buffer_start :: "(nat \<Rightarrow> buffer_call) \<Rightarrow> lockedBuffer" where
  "buffer_start calls = \<lparr>lb_mu = None, lb_buf = [], lb_calls = calls, lb_points = (\<lambda>_. BeforeLock)\<rparr>"

section \<open>Calls that happen at once\<close>

text \<open>The calls that have happened, in their order, with their results; the buffer is what they wrote.\<close>

fun written_by :: "buffer_call \<Rightarrow> string" where
  "written_by (WriteCall p) = p"
| "written_by StringCall = []"

fun answer :: "buffer_call \<Rightarrow> string \<Rightarrow> buffer_result" where
  "answer (WriteCall p) buf = Written (length p)"
| "answer StringCall buf = Contents buf"

record buffer_history =
  bh_calls :: "nat \<Rightarrow> buffer_call"
  bh_buf :: string
  bh_results :: "nat \<Rightarrow> buffer_result option"

inductive history_step :: "buffer_history \<Rightarrow> buffer_history \<Rightarrow> bool" where
  happens: "bh_results h g = None \<Longrightarrow>
     history_step h (h\<lparr>bh_buf := bh_buf h @ written_by (bh_calls h g),
       bh_results := (bh_results h)(g \<mapsto> answer (bh_calls h g) (bh_buf h))\<rparr>)"

section \<open>Simulation\<close>

fun in_section :: "buffer_point \<Rightarrow> bool" where
  "in_section BeforeLock = False"
| "in_section (CallDone r) = False"
| "in_section _ = True"

fun point_result :: "buffer_point \<Rightarrow> buffer_result option" where
  "point_result (BeforeUnlock r) = Some r"
| "point_result (CallDone r) = Some r"
| "point_result _ = None"

text \<open>The mutex is held by the goroutine in the critical section; what it is about to store is still up to date.\<close>

definition buffer_inv :: "lockedBuffer \<Rightarrow> bool" where
  "buffer_inv b \<longleftrightarrow>
     (\<forall>g. in_section (lb_points b g) \<longleftrightarrow> lb_mu b = Some g) \<and>
     (\<forall>g grown. lb_points b g = BeforeStore grown \<longrightarrow>
        (\<exists>p. lb_calls b g = WriteCall p \<and> grown = lb_buf b @ p))"

definition history_of :: "lockedBuffer \<Rightarrow> buffer_history" where
  "history_of b = \<lparr>bh_calls = lb_calls b, bh_buf = lb_buf b, bh_results = (\<lambda>g. point_result (lb_points b g))\<rparr>"

lemma buffer_statement_cases:
  assumes "buffer_statement g b = Some b'"
  obtains (lock) "lb_points b g = BeforeLock" "lb_mu b = None" "b' = proceed g BeforeRead (b\<lparr>lb_mu := Some g\<rparr>)"
    | (grow) p where "lb_points b g = BeforeRead" "lb_calls b g = WriteCall p" "b' = proceed g (BeforeStore (lb_buf b @ p)) b"
    | (read) "lb_points b g = BeforeRead" "lb_calls b g = StringCall" "b' = proceed g (BeforeUnlock (Contents (lb_buf b))) b"
    | (stored) grown where "lb_points b g = BeforeStore grown"
        "b' = proceed g (BeforeUnlock (Written (length grown - length (lb_buf b)))) (b\<lparr>lb_buf := grown\<rparr>)"
    | (unlock) r where "lb_points b g = BeforeUnlock r" "b' = proceed g (CallDone r) (b\<lparr>lb_mu := None\<rparr>)"
  using assms that by (cases "lb_points b g"; cases "lb_calls b g") (auto simp: buffer_statement_def split: if_splits)

lemma section_alone: "buffer_inv b \<Longrightarrow> in_section (lb_points b g) \<Longrightarrow> in_section (lb_points b h) \<Longrightarrow> h = g"
  unfolding buffer_inv_def by (metis option.inject)

lemma buffer_inv_step: "buffer_inv b \<Longrightarrow> buffer_step b b' \<Longrightarrow> buffer_inv b'"
proof (erule buffer_step.cases)
  fix g c c' assume inv: "buffer_inv b" and eqs: "b = c" "b' = c'" and s: "buffer_statement g c = Some c'"
  have alone: "lb_points b h \<noteq> BeforeStore x" if "in_section (lb_points b g)" "h \<noteq> g" for h x
    using section_alone [OF inv that(1), of h] that(2) by auto
  from s [folded eqs] show "buffer_inv b'"
    by (cases rule: buffer_statement_cases) (use inv alone in \<open>auto simp: buffer_inv_def proceed_def\<close>)
qed

lemma buffer_sim_step:
  assumes "buffer_inv b" and "buffer_step b b'"
  shows "history_of b' = history_of b \<or> history_step (history_of b) (history_of b')"
  using assms(2)
proof cases
  case (statement g)
  have same: "(\<lambda>h. point_result (if h = g then p else lb_points b h)) = (\<lambda>h. point_result (lb_points b h))"
    if "point_result p = point_result (lb_points b g)" for p using that by auto
  have now: "(\<lambda>h. point_result (if h = g then p else lb_points b h)) = (\<lambda>h. point_result (lb_points b h))(g := point_result p)"
    for p by auto
  note happens = history_step.happens [of "history_of b" g]
  from statement show ?thesis
  proof (cases rule: buffer_statement_cases)
    case read
    then show ?thesis using happens now [of "BeforeUnlock (Contents (lb_buf b))"]
      by (simp add: history_of_def proceed_def fun_upd_def)
  next
    case (stored grown)
    then obtain p where "lb_calls b g = WriteCall p" "grown = lb_buf b @ p"
      using assms(1) unfolding buffer_inv_def by blast
    with stored show ?thesis using happens now [of "BeforeUnlock (Written (length p))"]
      by (simp add: history_of_def proceed_def fun_upd_def)
  qed (use same in \<open>auto simp: history_of_def proceed_def fun_upd_def\<close>)
qed

interpretation buffer: simulation buffer_step buffer_inv history_of history_step
  by unfold_locales (fact buffer_inv_step buffer_sim_step)+

section \<open>Nothing that is written is lost\<close>

definition total_output :: "(nat \<Rightarrow> buffer_call) \<Rightarrow> nat list \<Rightarrow> string" where
  "total_output calls order = concat (map (\<lambda>g. written_by (calls g)) order)"

lemma history_runs:
  assumes "history_step\<^sup>*\<^sup>* h h'" and "bh_buf h = []" and "bh_results h = Map.empty"
  shows "bh_calls h' = bh_calls h \<and>
    (\<exists>order. distinct order \<and> (\<forall>g. g \<in> set order \<longleftrightarrow> bh_results h' g \<noteq> None) \<and>
      bh_buf h' = total_output (bh_calls h) order \<and>
      (\<forall>g earlier later. order = earlier @ g # later \<longrightarrow>
         bh_results h' g = Some (answer (bh_calls h g) (total_output (bh_calls h) earlier))))"
  using assms
proof (induction rule: rtranclp_induct)
  case base
  then show ?case by (intro conjI exI [of _ "[]"]) (auto simp: total_output_def)
next
  case (step t u)
  obtain order where t: "bh_calls t = bh_calls h" "distinct order" "\<And>g. g \<in> set order \<longleftrightarrow> bh_results t g \<noteq> None"
    "bh_buf t = total_output (bh_calls h) order"
    "\<And>g earlier later. order = earlier @ g # later \<Longrightarrow>
       bh_results t g = Some (answer (bh_calls h g) (total_output (bh_calls h) earlier))"
    using step.IH [OF step.prems] by metis
  from step.hyps(2) obtain g where g: "bh_results t g = None"
    and u: "bh_calls u = bh_calls t" "bh_buf u = bh_buf t @ written_by (bh_calls t g)"
      "bh_results u = (bh_results t)(g \<mapsto> answer (bh_calls t g) (bh_buf t))"
    by cases simp
  have "bh_results u k = Some (answer (bh_calls h k) (total_output (bh_calls h) earlier))"
    if "order @ [g] = earlier @ k # later" for k earlier later
  proof (cases later rule: rev_cases)
    case Nil
    with that show ?thesis using t(1,4) u(3) by simp
  next
    case (snoc more x)
    with that have o': "order = earlier @ k # more" by simp
    then have "k \<noteq> g" using t(3) [of k] g by auto
    then show ?thesis using t(5) [OF o'] u(3) by simp
  qed
  then show ?case using t g u by (intro conjI exI [of _ "order @ [g]"]) (auto simp: total_output_def)
qed

text \<open>
  However writers and readers interleave, the calls that have taken effect did so one after the
  other in some order: the buffer holds all that they wrote, uncut and in that order, a write says
  how much it wrote, and \<open>String\<close> returned all that was written before it. While a call has not returned,
  some goroutine can go on.
\<close>

theorem lockedBuffer_linearizable:
  assumes "buffer_step\<^sup>*\<^sup>* (buffer_start calls) b"
  shows "(\<exists>order. distinct order \<and> (\<forall>g. g \<in> set order \<longleftrightarrow> point_result (lb_points b g) \<noteq> None) \<and>
      lb_buf b = total_output calls order \<and>
      (\<forall>g earlier later. order = earlier @ g # later \<longrightarrow>
         point_result (lb_points b g) = Some (answer (calls g) (total_output calls earlier)))) \<and>
    ((\<exists>g. \<forall>r. lb_points b g \<noteq> CallDone r) \<longrightarrow> (\<exists>b'. buffer_step b b'))"
proof (intro conjI impI)
  have "buffer_inv (buffer_start calls)" by (simp add: buffer_inv_def buffer_start_def)
  note runs = buffer.runs [OF assms this]
  from history_runs [OF runs [THEN conjunct2]]
  show "\<exists>order. distinct order \<and> (\<forall>g. g \<in> set order \<longleftrightarrow> point_result (lb_points b g) \<noteq> None) \<and>
      lb_buf b = total_output calls order \<and>
      (\<forall>g earlier later. order = earlier @ g # later \<longrightarrow>
         point_result (lb_points b g) = Some (answer (calls g) (total_output calls earlier)))"
    by (simp add: history_of_def buffer_start_def)
  assume "\<exists>g. \<forall>r. lb_points b g \<noteq> CallDone r"
  then obtain g where g: "\<forall>r. lb_points b g \<noteq> CallDone r" by blast
  have go: "in_section (lb_points b h) \<Longrightarrow> \<exists>b'. buffer_statement h b = Some b'" for h
    by (cases "lb_points b h"; cases "lb_calls b h") (auto simp: buffer_statement_def)
  have "\<exists>h b'. buffer_statement h b = Some b'"
  proof (cases "lb_mu b")
    case None
    then have "\<not> in_section (lb_points b g)" using runs by (simp add: buffer_inv_def)
    with g have "lb_points b g = BeforeLock" by (cases "lb_points b g") auto
    with None have "buffer_statement g b = Some (proceed g BeforeRead (b\<lparr>lb_mu := Some g\<rparr>))"
      by (simp add: buffer_statement_def)
    then show ?thesis by blast
  next
    case (Some h)
    then have "in_section (lb_points b h)" using runs by (simp add: buffer_inv_def)
    with go show ?thesis by blast
  qed
  then show "\<exists>b'. buffer_step b b'" using statement by blast
qed

end
