(* ===== verification/Api.thy ===== *)
theory Api
  imports Kube
begin

text \<open>
  The resources of the operator (\<open>api/v1alpha1\<close>): Go structs as records, string enumerations
  as their strings, pointers as options. Of the metadata and of cert-manager's Certificate, the
  records have the fields that the program reads or writes. Of a condition the transition time
  is left out, which the library stamps and the program never reads.
\<close>

section \<open>Metadata and conditions\<close>

record object_key =
  ok_Namespace :: string
  ok_Name :: string

record owner_reference =
  or_Kind :: string
  or_Name :: string
  or_Controller :: bool

record object_meta =
  om_Namespace :: string
  om_Name :: string
  om_Generation :: int
  om_Labels :: "(string \<times> string) list"
  om_Finalizers :: "string list"
  om_DeletionTimestamp :: "time option"
  om_Owners :: "owner_reference list"

definition key_of :: "object_meta \<Rightarrow> object_key" where
  "key_of m = \<lparr>ok_Namespace = om_Namespace m, ok_Name = om_Name m\<rparr>"

text \<open>\<open>!DeletionTimestamp.IsZero()\<close>: a nil pointer is zero.\<close>

definition deletion_requested :: "object_meta \<Rightarrow> bool" where
  "deletion_requested m = (case om_DeletionTimestamp m of None \<Rightarrow> False | Some t \<Rightarrow> \<not> IsZero t)"

text \<open>An object that the code builds with nothing but its name and namespace.\<close>

definition named_meta :: "string \<Rightarrow> string \<Rightarrow> object_meta" where
  "named_meta ns name =
     \<lparr> om_Namespace = ns, om_Name = name, om_Generation = 0, om_Labels = [], om_Finalizers = [],
       om_DeletionTimestamp = None, om_Owners = [] \<rparr>"

definition ConditionReady :: string where "ConditionReady = ''Ready''"
definition ConditionSynced :: string where "ConditionSynced = ''Synced''"
definition ConditionDiscovered :: string where "ConditionDiscovered = ''Discovered''"
definition ConditionCertManagerAvailable :: string where
  "ConditionCertManagerAvailable = ''CertManagerAvailable''"

lemmas condition_types =
  ConditionReady_def ConditionSynced_def ConditionDiscovered_def ConditionCertManagerAvailable_def

record condition =
  cd_Type :: string
  cd_Status :: string
  cd_Reason :: string
  cd_Message :: string
  cd_ObservedGeneration :: int

section \<open>Common specifications (\<open>common_types.go\<close>)\<close>

record key_vault_spec =
  kv_Name :: string
  kv_VaultURL :: string
  kv_Cloud :: string
  kv_CertificateName :: string

record sync_policy_spec =
  sp_ResyncInterval :: "duration option"
  sp_PKCS12Profile :: string

record local_secret_reference =
  lr_Name :: string

record certificate_source_spec =
  sx_SecretRef :: local_secret_reference

section \<open>KeyVaultCertificateSync (\<open>keyvaultcertificatesync_types.go\<close>)\<close>

record cert_sync_spec =
  cx_Source :: certificate_source_spec
  cx_KeyVault :: key_vault_spec
  cx_SyncPolicy :: "sync_policy_spec option"

record cert_sync_status =
  ct_Conditions :: "condition list"
  ct_ObservedGeneration :: int
  ct_CertificateName :: string
  ct_SecretIdentifier :: string
  ct_VaultCertificateVersion :: string
  ct_LastSyncedThumbprint :: string
  ct_ChainDigest :: string
  ct_NotAfter :: "time option"
  ct_DNSNames :: "string list"
  ct_LastSyncTime :: "time option"

record cert_sync =
  sc_Meta :: object_meta
  sc_Spec :: cert_sync_spec
  sc_Status :: cert_sync_status

definition empty_sync_status :: cert_sync_status where
  "empty_sync_status =
     \<lparr> ct_Conditions = [], ct_ObservedGeneration = 0, ct_CertificateName = [], ct_SecretIdentifier = [],
       ct_VaultCertificateVersion = [], ct_LastSyncedThumbprint = [], ct_ChainDigest = [],
       ct_NotAfter = None, ct_DNSNames = [], ct_LastSyncTime = None \<rparr>"

definition empty_vault_spec :: key_vault_spec where
  "empty_vault_spec = \<lparr>kv_Name = [], kv_VaultURL = [], kv_Cloud = [], kv_CertificateName = []\<rparr>"

definition named_sync :: "string \<Rightarrow> string \<Rightarrow> cert_sync" where
  "named_sync ns name =
     \<lparr> sc_Meta = named_meta ns name,
       sc_Spec = \<lparr>cx_Source = \<lparr>sx_SecretRef = \<lparr>lr_Name = []\<rparr>\<rparr>, cx_KeyVault = empty_vault_spec, cx_SyncPolicy = None\<rparr>,
       sc_Status = empty_sync_status \<rparr>"

section \<open>WildcardCertificatePolicy (\<open>wildcardcertificatepolicy_types.go\<close>)\<close>

definition OrphanRetain :: string where "OrphanRetain = ''Retain''"
definition OrphanPrune :: string where "OrphanPrune = ''Prune''"

record issuer_reference =
  is_Name :: string
  is_Kind :: string
  is_Group :: string

text \<open>The selector of the Kubernetes API: labels to match, and requirements on labels.\<close>

record label_selector =
  ls_MatchLabels :: "(string \<times> string) list"
  ls_MatchExpressions :: "(string \<times> string \<times> string list) list"

record discovery_spec =
  dv_Ingress :: "bool option"
  dv_HTTPRoutes :: "bool option"
  dv_Gateways :: "bool option"
  dv_NamespaceSelector :: "label_selector option"

record policy_cr_spec =
  pc_Zones :: "string list"
  pc_IssueZoneWildcards :: bool
  pc_MaxCertificates :: int
  pc_Discovery :: "discovery_spec option"
  pc_Grouping :: string
  pc_IssuerRef :: issuer_reference
  pc_CertificateNamespace :: string
  pc_KeyVault :: key_vault_spec
  pc_OrphanPolicy :: string
  pc_SyncPolicy :: "sync_policy_spec option"

record planned_certificate =
  pn_Name :: string
  pn_Zone :: string
  pn_DNSNames :: "string list"
  pn_SecretName :: string
  pn_SecretIdentifier :: string

record skipped_host_status =
  hs_Host :: string
  hs_Reason :: string

record listener_guidance =
  lg_Hostnames :: "string list"
  lg_KeyVaultSecretID :: string

record gateway_guidance =
  gg_Listeners :: "listener_guidance list"
  gg_ListenerCount :: int

record policy_cr_status =
  pt_Conditions :: "condition list"
  pt_ObservedGeneration :: int
  pt_DiscoveredHosts :: int
  pt_RequiredCertificates :: "planned_certificate list"
  pt_RequiredCertificateCount :: int
  pt_SkippedHosts :: "skipped_host_status list"
  pt_SkippedHostCount :: int
  pt_ApplicationGateway :: "gateway_guidance option"
  pt_LastDiscoveryTime :: "time option"

record wildcard_policy =
  wp_Meta :: object_meta
  wp_Spec :: policy_cr_spec
  wp_Status :: policy_cr_status

section \<open>cert-manager's Certificate, by the fields the operator sets\<close>

record cm_certificate =
  cm_Meta :: object_meta
  cm_SecretName :: string
  cm_DNSNames :: "string list"
  cm_IssuerRef :: issuer_reference
  cm_SecretTemplateLabels :: "(string \<times> string) list option"
  cm_PrivateKey :: "(string \<times> string) option"
  cm_RevisionHistoryLimit :: "int option"

definition named_certificate :: "string \<Rightarrow> string \<Rightarrow> cm_certificate" where
  "named_certificate ns name =
     \<lparr> cm_Meta = named_meta ns name, cm_SecretName = [], cm_DNSNames = [],
       cm_IssuerRef = \<lparr>is_Name = [], is_Kind = [], is_Group = []\<rparr>,
       cm_SecretTemplateLabels = None, cm_PrivateKey = None, cm_RevisionHistoryLimit = None \<rparr>"

section \<open>The Kubernetes client\<close>

text \<open>
  The calls that the controllers make. A list is restricted to a namespace, or not, and to
  objects with a label or an index field of a value. \<open>CreateOrUpdate\<close> of controller-runtime is
  the pair of upserts: from an object to create if there is none, and the closure that brings
  an object into the desired state, or fails.
\<close>

datatype list_option =
    MatchingLabels "(string \<times> string) list"
  | MatchingFields "(string \<times> string) list"

record 'w kube_client =
  cl_Reader :: "'w kube_reader"
  get_sync :: "object_key \<Rightarrow> ('w, cert_sync) io"
  update_sync :: "cert_sync \<Rightarrow> ('w, cert_sync) io"
  update_sync_status :: "cert_sync \<Rightarrow> ('w, cert_sync) io"
  list_syncs :: "string \<Rightarrow> list_option \<Rightarrow> ('w, cert_sync list) io"
  delete_sync :: "cert_sync \<Rightarrow> ('w, unit) io"
  upsert_sync :: "cert_sync \<Rightarrow> (cert_sync \<Rightarrow> cert_sync go_result) \<Rightarrow> ('w, unit) io"
  get_policy :: "object_key \<Rightarrow> ('w, wildcard_policy) io"
  update_policy :: "wildcard_policy \<Rightarrow> ('w, wildcard_policy) io"
  update_policy_status :: "wildcard_policy \<Rightarrow> ('w, wildcard_policy) io"
  list_policies :: "('w, wildcard_policy list) io"
  list_certificates :: "string \<Rightarrow> list_option \<Rightarrow> ('w, cm_certificate list) io"
  delete_certificate :: "cm_certificate \<Rightarrow> ('w, unit) io"
  upsert_certificate :: "cm_certificate \<Rightarrow> (cm_certificate \<Rightarrow> cm_certificate go_result) \<Rightarrow> ('w, unit) io"

text \<open>\<open>client.IgnoreNotFound\<close>, on the error of a call.\<close>

definition IgnoreNotFound :: "go_error \<Rightarrow> unit go_result" where
  "IgnoreNotFound err = (if IsNotFound err then Inr () else Inl err)"

section \<open>The helper libraries of Kubernetes\<close>

record machinery =
  mc_AddFinalizer :: "string \<Rightarrow> string list \<Rightarrow> string list \<times> bool"
  mc_RemoveFinalizer :: "string \<Rightarrow> string list \<Rightarrow> string list \<times> bool"
  mc_SetStatusCondition :: "condition list \<Rightarrow> condition \<Rightarrow> condition list"
  mc_SetControllerReference :: "object_meta \<Rightarrow> object_meta \<Rightarrow> object_meta go_result"
  mc_IsNoMatchError :: "go_error \<Rightarrow> bool"
  mc_LabelSelectorAsSelector :: "label_selector \<Rightarrow> selector go_result"

text \<open>
  Their documented behaviour. A finalizer is added at most once and removed entirely, and the
  result says whether anything changed. Setting a condition replaces the one of its type or adds
  it, and leaves the other types alone. A controller reference changes nothing but the owners.
\<close>

definition condition_of :: "condition list \<Rightarrow> string \<Rightarrow> condition option" where
  "condition_of cs t = map_of (map (\<lambda>c. (cd_Type c, c)) cs) t"

locale machinery_contract =
  fixes M :: machinery
  assumes add_finalizer:
      "mc_AddFinalizer M f fs = (fs', changed) \<Longrightarrow>
         set fs' = insert f (set fs) \<and> changed = (f \<notin> set fs) \<and> (\<not> changed \<longrightarrow> fs' = fs)"
    and remove_finalizer:
      "mc_RemoveFinalizer M f fs = (fs', changed) \<Longrightarrow>
         set fs' = set fs - {f} \<and> changed = (f \<in> set fs) \<and> (\<not> changed \<longrightarrow> fs' = fs)"
    and set_condition:
      "condition_of (mc_SetStatusCondition M cs c) = (condition_of cs)(cd_Type c \<mapsto> c)"
    and set_controller:
      "mc_SetControllerReference M owner m = Inr m' \<Longrightarrow> m' = m\<lparr>om_Owners := om_Owners m'\<rparr>"

text \<open>An implementation of it.\<close>

fun put_condition :: "condition list \<Rightarrow> condition \<Rightarrow> condition list" where
  "put_condition [] c = [c]"
| "put_condition (d # cs) c = (if cd_Type d = cd_Type c then c # cs else d # put_condition cs c)"

definition put_owner :: "object_meta \<Rightarrow> object_meta \<Rightarrow> object_meta go_result" where
  "put_owner owner m =
     (let o_ref = \<lparr>or_Kind = ''WildcardCertificatePolicy'', or_Name = om_Name owner, or_Controller = True\<rparr> in
      if list_ex (\<lambda>o'. or_Controller o' \<and> o' \<noteq> o_ref) (om_Owners m)
      then Inl (EText ''object is already owned by another controller'')
      else Inr (m\<lparr>om_Owners := List.insert o_ref (om_Owners m)\<rparr>))"

definition std_machinery :: machinery where
  "std_machinery =
     \<lparr> mc_AddFinalizer = (\<lambda>f fs. if List.member fs f then (fs, False) else (fs @ [f], True)),
       mc_RemoveFinalizer = (\<lambda>f fs. (filter (\<lambda>x. x \<noteq> f) fs, List.member fs f)),
       mc_SetStatusCondition = put_condition,
       mc_SetControllerReference = put_owner,
       mc_IsNoMatchError = (\<lambda>err. case err of ENoMatch _ \<Rightarrow> True | _ \<Rightarrow> False),
       mc_LabelSelectorAsSelector = (\<lambda>s. Inr
         \<lparr> sl_Empty = (ls_MatchLabels s = [] \<and> ls_MatchExpressions s = []),
           sl_String = Join (map (\<lambda>(k, v). k @ ''='' @ v) (ls_MatchLabels s)) '','' \<rparr>) \<rparr>"

lemma condition_of_put: "condition_of (put_condition cs c) = (condition_of cs)(cd_Type c \<mapsto> c)"
  by (induction cs) (auto simp: condition_of_def fun_eq_iff)

interpretation std_machinery: machinery_contract std_machinery
proof
  fix f fs fs' changed
  assume "mc_AddFinalizer std_machinery f fs = (fs', changed)"
  then show "set fs' = insert f (set fs) \<and> changed = (f \<notin> set fs) \<and> (\<not> changed \<longrightarrow> fs' = fs)"
    by (auto simp: std_machinery_def split: if_splits)
next
  fix f fs fs' changed
  assume "mc_RemoveFinalizer std_machinery f fs = (fs', changed)"
  then show "set fs' = set fs - {f} \<and> changed = (f \<in> set fs) \<and> (\<not> changed \<longrightarrow> fs' = fs)"
    by (auto simp: std_machinery_def filter_id_conv)
next
  fix cs c
  show "condition_of (mc_SetStatusCondition std_machinery cs c) = (condition_of cs)(cd_Type c \<mapsto> c)"
    by (simp add: std_machinery_def condition_of_put)
next
  fix owner m m'
  assume "mc_SetControllerReference std_machinery owner m = Inr m'"
  then show "m' = m\<lparr>om_Owners := om_Owners m'\<rparr>"
    by (auto simp: std_machinery_def put_owner_def Let_def split: if_splits)
qed

end
