(* ===== verification/Conditions.thy ===== *)
theory Conditions
  imports Api AzureVaultUrl VaultAllowlist Pkcs12
begin

text \<open>
  What the two controllers share: conditions, the classification of errors, status writes and
  events (\<open>internal/controller/conditions.go\<close>), the series of \<open>metrics.go\<close>, and the small
  functions on specifications and durations of \<open>certificatesync_controller.go\<close>.
\<close>

section \<open>The libraries of a controller\<close>

record library =
  lb_Platform :: platform
  lb_ParseAddr :: parse_addr
  lb_Machinery :: machinery

text \<open>An effect on the world.\<close>

definition io_do :: "('w \<Rightarrow> 'w) \<Rightarrow> ('w, unit) io" where
  "io_do f w = (Inr (), f w)"

text \<open>An event recorder: object, type, reason, action and note.\<close>

type_synonym 'w recorder = "object_meta \<Rightarrow> string \<Rightarrow> string \<Rightarrow> string \<Rightarrow> string \<Rightarrow> 'w \<Rightarrow> 'w"

definition EventTypeNormal :: string where "EventTypeNormal = ''Normal''"
definition EventTypeWarning :: string where "EventTypeWarning = ''Warning''"

definition record_event ::
  "'w recorder option \<Rightarrow> object_meta \<Rightarrow> string \<Rightarrow> string \<Rightarrow> string \<Rightarrow> string \<Rightarrow> ('w, unit) io" where
  "record_event recorder obj eventType reason action note =
     (case recorder of
        None \<Rightarrow> io_return ()
      | Some rec \<Rightarrow> io_do (rec obj eventType reason action note))"

section \<open>Postconditions and results\<close>

lemma io_post_do [io_wp]: "io_post Q (io_do f) w = Q (Inr ()) (f w)"
  by (simp add: io_post_def io_do_def)

lemma io_post_event [io_wp]:
  "io_post Q (record_event rc obj t r a n) w =
     Q (Inr ()) (case rc of None \<Rightarrow> w | Some rec \<Rightarrow> rec obj t r a n w)"
  by (simp add: record_event_def io_post_return io_post_do split: option.split)

text \<open>\<open>io_returns Q m\<close>: from every world, a result that \<open>m\<close> returns without an error has \<open>Q\<close>.\<close>

definition io_returns :: "('a \<Rightarrow> bool) \<Rightarrow> ('w, 'a) io \<Rightarrow> bool" where
  "io_returns Q m \<longleftrightarrow> (\<forall>w x w'. m w = (Inr x, w') \<longrightarrow> Q x)"

named_theorems io_ret "rules for the results of a computation"

lemma io_returnsD: "io_returns Q m \<Longrightarrow> m w = (Inr x, w') \<Longrightarrow> Q x"
  unfolding io_returns_def by blast

lemma io_returns_any [io_ret]: "io_returns (\<lambda>_. True) m"
  by (simp add: io_returns_def)

lemma io_returns_return [io_ret]: "Q x \<Longrightarrow> io_returns Q (io_return x)"
  by (simp add: io_returns_def io_return_def)

lemma io_returns_fail [io_ret]: "io_returns Q (io_fail e)"
  by (simp add: io_returns_def io_fail_def)

lemma io_returns_bind: "io_returns P m \<Longrightarrow> (\<And>x. P x \<Longrightarrow> io_returns Q (f x)) \<Longrightarrow> io_returns Q (io_bind m f)"
  unfolding io_returns_def io_bind_Inr_iff by blast

lemmas io_returns_seq [io_ret] = io_returns_bind [OF io_returns_any]

lemma io_returns_case [io_ret]:
  "(\<And>e. io_returns Q (h e)) \<Longrightarrow> (\<And>x. io_returns Q (f x)) \<Longrightarrow> io_returns Q (io_case m h f)"
  unfolding io_returns_def io_case_def by (auto split: prod.splits sum.splits)

lemma io_returns_wrap [io_ret]: "io_returns Q m \<Longrightarrow> io_returns Q (io_wrap g m)"
  unfolding io_returns_def io_wrap_Inr_iff by blast

lemma io_returns_if [io_ret]: "(b \<Longrightarrow> io_returns Q m) \<Longrightarrow> (\<not> b \<Longrightarrow> io_returns Q n) \<Longrightarrow> io_returns Q (if b then m else n)"
  by simp

text \<open>Two computations that do the same from a world.\<close>

lemma io_bind_eqI:
  "m w = m' w \<Longrightarrow> (\<And>x w'. m w = (Inr x, w') \<Longrightarrow> f x w' = f' x w') \<Longrightarrow> io_bind m f w = io_bind m' f' w"
  by (simp add: io_bind_def split: prod.split sum.split)

lemma io_case_eqI:
  "m w = m' w \<Longrightarrow> (\<And>e w'. m w = (Inl e, w') \<Longrightarrow> h e w' = h' e w') \<Longrightarrow>
     (\<And>x w'. m w = (Inr x, w') \<Longrightarrow> f x w' = f' x w') \<Longrightarrow> io_case m h f w = io_case m' h' f' w"
  by (simp add: io_case_def split: prod.split sum.split)

section \<open>Reasons\<close>

definition ReasonSynced :: string where "ReasonSynced = ''Synced''"
definition ReasonCondUpToDate :: string where "ReasonCondUpToDate = ''UpToDate''"
definition ReasonImported :: string where "ReasonImported = ''Imported''"
definition ReasonSourceInvalid :: string where "ReasonSourceInvalid = ''SourceInvalid''"
definition ReasonSourceNotFound :: string where "ReasonSourceNotFound = ''SourceNotFound''"
definition ReasonCertificateExpired :: string where "ReasonCertificateExpired = ''CertificateExpired''"
definition ReasonConfigInvalid :: string where "ReasonConfigInvalid = ''ConfigInvalid''"
definition ReasonVaultError :: string where "ReasonVaultError = ''VaultError''"
definition ReasonDiscoveryFailed :: string where "ReasonDiscoveryFailed = ''DiscoveryFailed''"
definition ReasonIssuanceFailed :: string where "ReasonIssuanceFailed = ''IssuanceFailed''"
definition ReasonCertManagerMissing :: string where "ReasonCertManagerMissing = ''CertManagerMissing''"
definition ReasonCertManagerFound :: string where "ReasonCertManagerFound = ''CertManagerFound''"
definition ReasonPruneWithheld :: string where "ReasonPruneWithheld = ''PruneWithheld''"

lemmas reason_defs =
  ReasonSynced_def ReasonCondUpToDate_def ReasonImported_def ReasonSourceInvalid_def ReasonSourceNotFound_def
  ReasonCertificateExpired_def ReasonConfigInvalid_def ReasonVaultError_def ReasonDiscoveryFailed_def
  ReasonIssuanceFailed_def ReasonCertManagerMissing_def ReasonCertManagerFound_def ReasonPruneWithheld_def

section \<open>Status and conditions\<close>

definition updateStatus :: "('o \<Rightarrow> ('w, 'o) io) \<Rightarrow> 'o \<Rightarrow> ('w, unit) io" where
  "updateStatus update obj =
     io_case (update obj)
       (\<lambda>err. if IsConflict err \<or> IsNotFound err then io_return ()
              else io_fail (Errorf ''updating status: %w'' [AErr err]))
       (\<lambda>_. io_return ())"

definition setCondition ::
  "machinery \<Rightarrow> string \<Rightarrow> string \<Rightarrow> string \<Rightarrow> string \<Rightarrow> int \<Rightarrow> condition list \<Rightarrow> condition list" where
  "setCondition M conditionType reason message status generation conditions =
     mc_SetStatusCondition M conditions
       \<lparr> cd_Type = conditionType, cd_Status = status, cd_Reason = reason, cd_Message = message,
         cd_ObservedGeneration = generation \<rparr>"

definition setTrue :: "machinery \<Rightarrow> string \<Rightarrow> string \<Rightarrow> string \<Rightarrow> int \<Rightarrow> condition list \<Rightarrow> condition list" where
  "setTrue M conditionType reason message generation =
     setCondition M conditionType reason message ''True'' generation"

definition setFalse :: "machinery \<Rightarrow> string \<Rightarrow> string \<Rightarrow> string \<Rightarrow> int \<Rightarrow> condition list \<Rightarrow> condition list" where
  "setFalse M conditionType reason message generation =
     setCondition M conditionType reason message ''False'' generation"

section \<open>Classification of errors\<close>

definition classify :: "go_error \<Rightarrow> string \<times> bool" where
  "classify err =
     (if IsNotFound err then (ReasonSourceNotFound, False)
      else if errors_Is err ErrExpired \<or> errors_Is err ErrNotYetValid then (ReasonCertificateExpired, False)
      else if errors_Is err ErrNoCertificates \<or> errors_Is err ErrNoPrivateKey \<or> errors_Is err ErrKeyMismatch \<or>
              errors_Is err ErrUnsupportedKey \<or> errors_Is err ErrNoDNSNames then (ReasonSourceInvalid, False)
      else if errors_Is err ErrInvalidVaultName \<or> errors_Is err ErrInvalidPKCS12Profile \<or>
              errors_Is err ErrInvalidZone \<or> errors_Is err ErrInvalidHost \<or>
              errors_Is err ErrVaultNotAllowed then (ReasonConfigInvalid, False)
      else (ReasonVaultError, True))"

section \<open>Metrics\<close>

text \<open>A vector of counters or gauges: its series by the values of their labels.\<close>

record metrics =
  mt_syncTotal :: "((string \<times> string \<times> string) \<times> nat) list"
  mt_certificateNotAfter :: "((string \<times> string \<times> string) \<times> int) list"
  mt_lastSuccessTimestamp :: "((string \<times> string) \<times> int) list"
  mt_certificatesRequired :: "(string \<times> nat) list"
  mt_hostsSkipped :: "(string \<times> nat) list"

definition Inc :: "'k \<Rightarrow> ('k \<times> nat) list \<Rightarrow> ('k \<times> nat) list" where
  "Inc k m = AList.update k (Suc (case map_of m k of None \<Rightarrow> 0 | Some n \<Rightarrow> n)) m"

section \<open>Specifications\<close>

definition vaultTarget :: "key_vault_spec \<Rightarrow> string" where
  "vaultTarget spec = (if kv_VaultURL spec \<noteq> [] then kv_VaultURL spec else kv_Name spec)"

definition vaultCloud :: "key_vault_spec \<Rightarrow> cloud \<Rightarrow> cloud" where
  "vaultCloud spec fallback = (if kv_Cloud spec \<noteq> [] then kv_Cloud spec else fallback)"

definition DefaultResyncInterval :: duration where
  "DefaultResyncInterval = Hour"

definition resyncInterval :: "sync_policy_spec option \<Rightarrow> duration" where
  "resyncInterval policy =
     (case policy of
        None \<Rightarrow> DefaultResyncInterval
      | Some p \<Rightarrow> (case sp_ResyncInterval p of
                     None \<Rightarrow> DefaultResyncInterval
                   | Some d \<Rightarrow> if d \<le> 0 then DefaultResyncInterval else d))"

definition pkcs12Profile :: "sync_policy_spec option \<Rightarrow> profile" where
  "pkcs12Profile policy = (case policy of None \<Rightarrow> ProfileLegacy | Some p \<Rightarrow> sp_PKCS12Profile p)"

section \<open>Jitter\<close>

text \<open>
  A \<open>time.Duration\<close> is an \<open>int64\<close>: the sum wraps. The division is that of Go, and on a positive
  dividend that of HOL. \<open>rand\<close> is \<open>rand.Int64N\<close>.
\<close>

definition int64 :: "int \<Rightarrow> int" where
  "int64 x = (x + 2 ^ 63) mod 2 ^ 64 - 2 ^ 63"

definition jitter :: "(int \<Rightarrow> 'w \<Rightarrow> int \<times> 'w) \<Rightarrow> duration \<Rightarrow> ('w, duration) io" where
  "jitter rand d w =
     (if d \<le> 0 then (Inr DefaultResyncInterval, w)
      else
        let spread = d div 10 in
        if spread \<le> 0 then (Inr d, w)
        else case rand spread w of (r, w') \<Rightarrow> (Inr (int64 (d + r)), w'))"

section \<open>The result of a reconciliation\<close>

record ctrl_result =
  rs_RequeueAfter :: duration

definition no_requeue :: ctrl_result where
  "no_requeue = \<lparr>rs_RequeueAfter = 0\<rparr>"

definition requeue_jittered :: "(int \<Rightarrow> 'w \<Rightarrow> int \<times> 'w) \<Rightarrow> duration \<Rightarrow> ('w, ctrl_result) io" where
  "requeue_jittered rand d = io_bind (jitter rand d) (\<lambda>t. io_return \<lparr>rs_RequeueAfter = t\<rparr>)"

section \<open>Lemmas\<close>

lemma condition_of_set:
  assumes "machinery_contract M"
  shows "condition_of (setTrue M t r m g cs) =
      (condition_of cs)(t \<mapsto> \<lparr>cd_Type = t, cd_Status = ''True'', cd_Reason = r, cd_Message = m, cd_ObservedGeneration = g\<rparr>)"
    and "condition_of (setFalse M t r m g cs) =
      (condition_of cs)(t \<mapsto> \<lparr>cd_Type = t, cd_Status = ''False'', cd_Reason = r, cd_Message = m, cd_ObservedGeneration = g\<rparr>)"
  by (simp_all add: setTrue_def setFalse_def setCondition_def machinery_contract.set_condition [OF assms])

lemma int64_id: "- (2 ^ 63) \<le> x \<Longrightarrow> x < 2 ^ 63 \<Longrightarrow> int64 x = x"
  by (simp add: int64_def)

lemma jitter_Inr: "\<exists>t w'. jitter rand d w = (Inr t, w')"
  by (simp add: jitter_def Let_def split: prod.split)

text \<open>The documented range of \<open>rand.Int64N\<close>.\<close>

definition rand_ok :: "(int \<Rightarrow> 'w \<Rightarrow> int \<times> 'w) \<Rightarrow> bool" where
  "rand_ok rand \<longleftrightarrow> (\<forall>n v. 0 < n \<longrightarrow> 0 \<le> fst (rand n v) \<and> fst (rand n v) < n)"

lemma resyncInterval_pos: "0 < resyncInterval p"
  by (auto simp: resyncInterval_def DefaultResyncInterval_def Hour_def Minute_def Second_def split: option.split)

lemma jitter_bounds:
  assumes "rand_ok rand" and "jitter rand d w = (Inr t, w')" and "0 < d" and "d + d div 10 < 2 ^ 63"
  shows "d \<le> t \<and> t \<le> d + d div 10"
proof (cases "d div 10 \<le> 0")
  case True
  then show ?thesis using assms(2,3) by (auto simp: jitter_def)
next
  case False
  then have b: "0 \<le> fst (rand (d div 10) w) \<and> fst (rand (d div 10) w) < d div 10"
    using assms(1) by (simp add: rand_ok_def)
  then have "int64 (d + fst (rand (d div 10) w)) = d + fst (rand (d div 10) w)"
    using assms(3,4) by (intro int64_id) auto
  then show ?thesis using assms(2,3) False b by (auto simp: jitter_def Let_def split: prod.splits)
qed

lemma requeue_returns:
  assumes "rand_ok rand" and "0 < d" and "d + d div 10 < 2 ^ 63"
  shows "io_returns (\<lambda>res. d \<le> rs_RequeueAfter res \<and> rs_RequeueAfter res \<le> d + d div 10) (requeue_jittered rand d)"
  using jitter_bounds [OF assms(1) _ assms(2,3)]
  by (auto simp: io_returns_def requeue_jittered_def io_Inr_iffs)

lemma classify_retryable: "snd (classify err) \<longleftrightarrow> fst (classify err) = ReasonVaultError"
  by (simp add: classify_def reason_defs)

end
