(* ===== verification/SyncController.thy ===== *)
theory SyncController
  imports Conditions Syncer
begin

text \<open>
  The controller of KeyVaultCertificateSync
  (\<open>internal/controller/certificatesync_controller.go\<close>). Logging is left out. The metrics
  registry is part of the world, which the reconciler can update through \<open>sr_Metrics\<close>.
\<close>

section \<open>The reconciler\<close>

record 'w sync_reconciler =
  sr_Client :: "'w kube_client"
  sr_Recorder :: "'w recorder option"
  sr_Source :: "'w certificate_source"
  sr_Vault :: "'w vault_repository"
  sr_Clock :: "'w clock"
  sr_Cloud :: cloud
  sr_AllowedVaults :: vault_allowlist
  sr_Pkcs12 :: "'w pkcs12_lib"
  sr_Rand :: "int \<Rightarrow> 'w \<Rightarrow> int \<times> 'w"
  sr_Metrics :: "(metrics \<Rightarrow> metrics) \<Rightarrow> 'w \<Rightarrow> 'w"

definition count_sync :: "'w sync_reconciler \<Rightarrow> cert_sync \<Rightarrow> string \<Rightarrow> ('w, unit) io" where
  "count_sync R sync result =
     io_do (sr_Metrics R (\<lambda>m. m\<lparr>mt_syncTotal :=
       Inc (om_Namespace (sc_Meta sync), om_Name (sc_Meta sync), result) (mt_syncTotal m)\<rparr>))"

section \<open>The sync\<close>

definition vault_url_of :: "library \<Rightarrow> vault_allowlist \<Rightarrow> cloud \<Rightarrow> key_vault_spec \<Rightarrow> string go_result" where
  "vault_url_of G allowed own_cloud spec =
     (case VaultURL (lb_Platform G) (lb_ParseAddr G) (vaultTarget spec) (vaultCloud spec own_cloud) of
        Inl err \<Rightarrow> Inl (Errorf ''%w: %w'' [AErr (EDomain ErrInvalidVaultName), AErr err])
      | Inr vaultURL \<Rightarrow>
          if \<not> Permits (lb_Platform G) allowed vaultURL
          then Inl (Errorf ''%w: %q is not one of [%s]''
                 [AErr (EDomain ErrVaultNotAllowed), AStr vaultURL, AStr (allowlist_String allowed)])
          else Inr vaultURL)"

definition sync_sync :: "library \<Rightarrow> 'w sync_reconciler \<Rightarrow> cert_sync \<Rightarrow> ('w, sync_outcome) io" where
  "sync_sync G R sync =
     io_bind (io_lift (vault_url_of G (sr_AllowedVaults R) (sr_Cloud R) (cx_KeyVault (sc_Spec sync)))) (\<lambda>vaultURL.
     io_bind (io_wrap (\<lambda>err. Errorf ''%w: %w'' [AErr (EDomain ErrInvalidPKCS12Profile), AErr err])
                (io_lift (NewEncoder (pkcs12Profile (cx_SyncPolicy (sc_Spec sync)))))) (\<lambda>encoder.
     Sync (lb_Platform G)
       \<lparr> sy_Source = sr_Source R, sy_Vault = sr_Vault R, sy_Encode = the_encoder (sr_Pkcs12 R) encoder,
         sy_Clock = sr_Clock R \<rparr>
       \<lparr> rq_Source = \<lparr>sr_Namespace = om_Namespace (sc_Meta sync),
                      sr_Name = lr_Name (sx_SecretRef (cx_Source (sc_Spec sync)))\<rparr>,
         rq_Vault = \<lparr>vr_VaultURL = vaultURL,
                     vr_CertificateName = kv_CertificateName (cx_KeyVault (sc_Spec sync))\<rparr> \<rparr>))"

section \<open>The outcome in the status\<close>

definition outcome_status :: "cert_sync \<Rightarrow> sync_outcome \<Rightarrow> time \<Rightarrow> cert_sync_status" where
  "outcome_status sync outcome now =
     (let st = (sc_Status sync)
        \<lparr> ct_ObservedGeneration := om_Generation (sc_Meta sync),
          ct_CertificateName := so_CertificateName outcome,
          ct_SecretIdentifier := so_SecretIdentifier outcome,
          ct_LastSyncedThumbprint := so_Thumbprint outcome,
          ct_ChainDigest := so_ChainDigest outcome,
          ct_DNSNames := so_DNSNames outcome,
          ct_NotAfter := Some (so_NotAfter outcome),
          ct_LastSyncTime := Some now \<rparr> in
      if so_Version outcome \<noteq> [] then st\<lparr>ct_VaultCertificateVersion := so_Version outcome\<rparr> else st)"

definition outcome_conditions :: "machinery \<Rightarrow> int \<Rightarrow> sync_outcome \<Rightarrow> string \<Rightarrow> string \<Rightarrow> condition list \<Rightarrow> condition list" where
  "outcome_conditions M generation outcome reason message cs =
     (let cs = setTrue M ConditionSynced reason message generation cs in
      if so_WarningReason outcome = ReasonDisabledInVault
      then setFalse M ConditionReady ReasonDisabledInVault (so_Warning outcome) generation cs
      else setTrue M ConditionReady ReasonSynced
             (''certificate is available at '' @ so_SecretIdentifier outcome) generation cs)"

definition action_string :: "action \<Rightarrow> string" where
  "action_string a = (case a of ActionNone \<Rightarrow> ''None'' | ActionImport \<Rightarrow> ''Import'')"

definition outcome_metrics :: "cert_sync \<Rightarrow> string \<Rightarrow> sync_outcome \<Rightarrow> time \<Rightarrow> metrics \<Rightarrow> metrics" where
  "outcome_metrics sync previousName outcome now m =
     (let ns = om_Namespace (sc_Meta sync); name = om_Name (sc_Meta sync);
          result = action_string (so_Action outcome) in
      m\<lparr> mt_syncTotal := Inc (ns, name, result) (mt_syncTotal m),
         mt_lastSuccessTimestamp := AList.update (ns, name) (Unix now) (mt_lastSuccessTimestamp m),
         mt_certificateNotAfter :=
           AList.update (ns, name, so_CertificateName outcome) (Unix (so_NotAfter outcome))
             (if previousName \<noteq> [] \<and> previousName \<noteq> so_CertificateName outcome
              then AList.delete (ns, name, previousName) (mt_certificateNotAfter m)
              else mt_certificateNotAfter m) \<rparr>)"

definition applyOutcome :: "library \<Rightarrow> 'w sync_reconciler \<Rightarrow> cert_sync \<Rightarrow> sync_outcome \<Rightarrow> ('w, cert_sync) io" where
  "applyOutcome G R sync outcome =
     io_bind (io_effect (sr_Clock R)) (\<lambda>now.
     let previousName = ct_CertificateName (sc_Status sync);
         (reason, message) =
           (if so_Action outcome = ActionImport
            then (ReasonImported, ''imported into Key Vault ('' @ so_Reason outcome @ '')'')
            else (ReasonCondUpToDate, ''certificate in Key Vault already matches the cluster''));
         st = outcome_status sync outcome now;
         st = st\<lparr>ct_Conditions := outcome_conditions (lb_Machinery G) (om_Generation (sc_Meta sync)) outcome
                reason message (ct_Conditions st)\<rparr>
     in
     io_bind (if so_Action outcome = ActionImport
              then record_event (sr_Recorder R) (sc_Meta sync) EventTypeNormal ReasonImported ''Import'' message
              else io_return ()) (\<lambda>_.
     io_bind (if so_Warning outcome \<noteq> []
              then record_event (sr_Recorder R) (sc_Meta sync) EventTypeWarning (so_WarningReason outcome) ''Sync'' (so_Warning outcome)
              else io_return ()) (\<lambda>_.
     io_bind (io_effect (sr_Clock R)) (\<lambda>later.
     io_bind (io_do (sr_Metrics R (outcome_metrics sync previousName outcome later))) (\<lambda>_.
     io_return (sync\<lparr>sc_Status := st\<rparr>))))))"

section \<open>Reconciliation\<close>

definition finalize_metrics :: "cert_sync \<Rightarrow> metrics \<Rightarrow> metrics" where
  "finalize_metrics sync m =
     (let ns = om_Namespace (sc_Meta sync); name = om_Name (sc_Meta sync) in
      m\<lparr> mt_certificateNotAfter :=
           AList.delete (ns, name, ct_CertificateName (sc_Status sync)) (mt_certificateNotAfter m),
         mt_lastSuccessTimestamp := AList.delete (ns, name) (mt_lastSuccessTimestamp m) \<rparr>)"

definition sync_finalize :: "library \<Rightarrow> 'w sync_reconciler \<Rightarrow> cert_sync \<Rightarrow> ('w, ctrl_result) io" where
  "sync_finalize G R sync =
     (let (finalizers, removed) = mc_RemoveFinalizer (lb_Machinery G) FinalizerName (om_Finalizers (sc_Meta sync));
          released = sync\<lparr>sc_Meta := (sc_Meta sync)\<lparr>om_Finalizers := finalizers\<rparr>\<rparr> in
      io_bind (if removed
               then io_wrap (\<lambda>err. Errorf ''removing finalizer: %w'' [AErr err]) (update_sync (sr_Client R) released)
               else io_return sync) (\<lambda>sync.
      io_bind (io_do (sr_Metrics R (finalize_metrics sync))) (\<lambda>_.
      io_return no_requeue)))"

definition sync_add_finalizer :: "library \<Rightarrow> 'w sync_reconciler \<Rightarrow> cert_sync \<Rightarrow> ('w, cert_sync) io" where
  "sync_add_finalizer G R sync =
     (let (finalizers, added) = mc_AddFinalizer (lb_Machinery G) FinalizerName (om_Finalizers (sc_Meta sync)) in
      if added
      then io_wrap (\<lambda>err. Errorf ''adding finalizer: %w'' [AErr err])
             (update_sync (sr_Client R) (sync\<lparr>sc_Meta := (sc_Meta sync)\<lparr>om_Finalizers := finalizers\<rparr>\<rparr>))
      else io_return sync)"

definition failed_conditions :: "library \<Rightarrow> int \<Rightarrow> go_error \<Rightarrow> condition list \<Rightarrow> condition list" where
  "failed_conditions G generation err cs =
     (let reason = fst (classify err); text = error_text (lb_Platform G) err in
      setFalse (lb_Machinery G) ConditionReady reason text generation
        (setFalse (lb_Machinery G) ConditionSynced reason text generation cs))"

definition sync_failed :: "library \<Rightarrow> 'w sync_reconciler \<Rightarrow> cert_sync \<Rightarrow> duration \<Rightarrow> go_error \<Rightarrow> ('w, ctrl_result) io" where
  "sync_failed G R sync resync err =
     (let (reason, retryable) = classify err;
          failed = sync\<lparr>sc_Status := (sc_Status sync)\<lparr>ct_Conditions :=
            failed_conditions G (om_Generation (sc_Meta sync)) err (ct_Conditions (sc_Status sync))\<rparr>\<rparr> in
      io_bind (if reason = ReasonSourceNotFound then io_return () else count_sync R sync ''error'') (\<lambda>_.
      io_bind (record_event (sr_Recorder R) (sc_Meta sync) EventTypeWarning reason ''Sync'' (error_text (lb_Platform G) err)) (\<lambda>_.
      io_bind (updateStatus (update_sync_status (sr_Client R)) failed) (\<lambda>_.
      if retryable then io_fail err else requeue_jittered (sr_Rand R) resync))))"

definition sync_live :: "library \<Rightarrow> 'w sync_reconciler \<Rightarrow> cert_sync \<Rightarrow> ('w, ctrl_result) io" where
  "sync_live G R sync =
     io_bind (sync_add_finalizer G R sync) (\<lambda>sync.
     let resync = resyncInterval (cx_SyncPolicy (sc_Spec sync)) in
     io_case (sync_sync G R sync)
       (sync_failed G R sync resync)
       (\<lambda>outcome.
         io_bind (applyOutcome G R sync outcome) (\<lambda>sync.
         io_bind (updateStatus (update_sync_status (sr_Client R)) sync) (\<lambda>_.
         requeue_jittered (sr_Rand R) resync))))"

definition sync_Reconcile :: "library \<Rightarrow> 'w sync_reconciler \<Rightarrow> object_key \<Rightarrow> ('w, ctrl_result) io" where
  "sync_Reconcile G R key =
     io_case (get_sync (sr_Client R) key)
       (\<lambda>err. io_bind (io_lift (IgnoreNotFound err)) (\<lambda>_. io_return no_requeue))
       (\<lambda>sync.
         if deletion_requested (sc_Meta sync) then sync_finalize G R sync
         else sync_live G R sync)"

section \<open>Watches\<close>

definition SecretRefIndexKey :: string where
  "SecretRefIndexKey = ''.spec.source.secretRef.name''"

text \<open>The values under which a resource is indexed.\<close>

definition secret_ref_index :: "cert_sync \<Rightarrow> string list" where
  "secret_ref_index sync =
     (let name = lr_Name (sx_SecretRef (cx_Source (sc_Spec sync))) in if name = [] then [] else [name])"

text \<open>An error of the list call is logged, and nothing is enqueued.\<close>

definition syncsForSecret :: "'w sync_reconciler \<Rightarrow> object_key \<Rightarrow> ('w, object_key list) io" where
  "syncsForSecret R obj =
     io_case (list_syncs (sr_Client R) (ok_Namespace obj) (MatchingFields [(SecretRefIndexKey, ok_Name obj)]))
       (\<lambda>err. io_return [])
       (\<lambda>items. io_return (map (\<lambda>sync. key_of (sc_Meta sync)) items))"

text \<open>The label selector of the cache and of the watch on Secrets.\<close>

definition ManagedSecretSelector :: "(string \<times> string) list" where
  "ManagedSecretSelector = [(LabelManaged, LabelManagedValue)]"

end
