(* ===== verification/CertManager.thy ===== *)
theory CertManager
  imports Api
begin

text \<open>
  The writer of cert-manager Certificates (\<open>internal/infra/kube/certmanager.go\<close>). The REST
  mapper is a parameter, as \<open>CreateOrUpdate\<close> is (\<open>upsert_certificate\<close> of the client).
\<close>

section \<open>Availability\<close>

record group_kind =
  gk_Group :: string
  gk_Kind :: string

definition certificateGroupKind :: group_kind where
  "certificateGroupKind = \<lparr>gk_Group = ''cert-manager.io'', gk_Kind = ''Certificate''\<rparr>"

type_synonym 'w rest_mapper = "group_kind \<Rightarrow> string \<Rightarrow> ('w, unit) io"

record 'w certificate_writer =
  cw_Client :: "'w kube_client"
  cw_Mapper :: "'w rest_mapper"

definition NewCertificateWriter :: "'w kube_client \<Rightarrow> 'w rest_mapper \<Rightarrow> 'w certificate_writer" where
  "NewCertificateWriter c mapper = \<lparr>cw_Client = c, cw_Mapper = mapper\<rparr>"

definition Available :: "machinery \<Rightarrow> 'w certificate_writer \<Rightarrow> ('w, bool) io" where
  "Available M W =
     io_case (cw_Mapper W certificateGroupKind ''v1'')
       (\<lambda>err. if mc_IsNoMatchError M err then io_return False
              else io_fail (Errorf ''checking for the cert-manager Certificate CRD: %w'' [AErr err]))
       (\<lambda>_. io_return True)"

section \<open>Certificates\<close>

record cm_request =
  cq_Name :: string
  cq_Namespace :: string
  cq_SecretName :: string
  cq_DNSNames :: "string list"
  cq_IssuerRef :: issuer_reference
  cq_PolicyName :: string

text \<open>The keys of \<open>additions\<close> are distinct, so that the order in which Go ranges over them is immaterial.\<close>

definition mergeLabels :: "(string \<times> string) list \<Rightarrow> (string \<times> string) list \<Rightarrow> (string \<times> string) list" where
  "mergeLabels existing additions = fold (\<lambda>(key, value). AList.update key value) additions existing"

definition policy_labels :: "cm_request \<Rightarrow> (string \<times> string) list" where
  "policy_labels req =
     [(LabelManaged, LabelManagedValue), (LabelPolicy, cq_PolicyName req), (LabelCertificate, cq_Name req)]"

text \<open>The closure that brings a Certificate into the desired state.\<close>

definition desired_certificate_state :: "machinery \<Rightarrow> object_meta \<Rightarrow> cm_request \<Rightarrow> cm_certificate \<Rightarrow> cm_certificate go_result" where
  "desired_certificate_state M owner req cert =
     (let cert = cert
        \<lparr> cm_Meta := (cm_Meta cert)\<lparr>om_Labels := mergeLabels (om_Labels (cm_Meta cert)) (policy_labels req)\<rparr>,
          cm_SecretName := cq_SecretName req,
          cm_DNSNames := cq_DNSNames req,
          cm_IssuerRef := cq_IssuerRef req,
          cm_SecretTemplateLabels := Some (policy_labels req),
          cm_PrivateKey := Some (''PKCS8'', ''Always''),
          cm_RevisionHistoryLimit := Some 1 \<rparr> in
      case mc_SetControllerReference M owner (cm_Meta cert) of
        Inl err \<Rightarrow> Inl err
      | Inr m \<Rightarrow> Inr (cert\<lparr>cm_Meta := m\<rparr>))"

definition EnsureCertificate :: "machinery \<Rightarrow> 'w certificate_writer \<Rightarrow> object_meta \<Rightarrow> cm_request \<Rightarrow> ('w, unit) io" where
  "EnsureCertificate M W owner req =
     io_wrap (\<lambda>err. Errorf ''ensuring certificate %s/%s: %w'' [AStr (cq_Namespace req), AStr (cq_Name req), AErr err])
       (upsert_certificate (cw_Client W) (named_certificate (cq_Namespace req) (cq_Name req))
          (desired_certificate_state M owner req))"

section \<open>Lemmas\<close>

lemma map_of_mergeLabels:
  "distinct (map fst additions) \<Longrightarrow> map_of (mergeLabels existing additions) = map_of existing ++ map_of additions"
proof (induction additions arbitrary: existing)
  case (Cons a as)
  then have "map_of as (fst a) = None" by (auto simp: map_of_eq_None_iff)
  then show ?case
    using Cons by (cases a) (auto simp: mergeLabels_def update_conv' fun_eq_iff map_add_def split: option.splits)
qed (simp add: mergeLabels_def)

lemma distinct_policy_labels: "distinct (map fst (policy_labels req))"
  by (simp add: policy_labels_def LabelManaged_def LabelPolicy_def LabelCertificate_def)

text \<open>What the desired state of a Certificate is.\<close>

definition certificate_matches :: "cm_request \<Rightarrow> cm_certificate \<Rightarrow> bool" where
  "certificate_matches req cert \<longleftrightarrow>
     cm_SecretName cert = cq_SecretName req \<and> cm_DNSNames cert = cq_DNSNames req \<and>
     cm_IssuerRef cert = cq_IssuerRef req \<and> cm_PrivateKey cert = Some (''PKCS8'', ''Always'') \<and>
     cm_SecretTemplateLabels cert = Some (policy_labels req) \<and>
     map_of (om_Labels (cm_Meta cert)) LabelPolicy = Some (cq_PolicyName req)"

lemma desired_state_matches:
  assumes "machinery_contract M" and "desired_certificate_state M owner req cert = Inr cert'"
  shows "certificate_matches req cert' \<and> key_of (cm_Meta cert') = key_of (cm_Meta cert)"
proof -
  let ?labels = "mergeLabels (om_Labels (cm_Meta cert)) (policy_labels req)"
  obtain m where m: "mc_SetControllerReference M owner ((cm_Meta cert)\<lparr>om_Labels := ?labels\<rparr>) = Inr m"
    and c: "certificate_matches req cert' \<longleftrightarrow> map_of (om_Labels m) LabelPolicy = Some (cq_PolicyName req)"
      "cm_Meta cert' = m"
    using assms(2)
    by (auto simp: desired_certificate_state_def Let_def certificate_matches_def split: sum.splits)
  have e: "m = (cm_Meta cert)\<lparr>om_Labels := ?labels\<rparr>\<lparr>om_Owners := om_Owners m\<rparr>"
    by (rule machinery_contract.set_controller [OF assms(1) m])
  have "om_Labels m = ?labels" "key_of m = key_of (cm_Meta cert)"
    by (subst e, simp add: key_of_def)+
  then show ?thesis
    using c by (simp add: map_of_mergeLabels [OF distinct_policy_labels] map_add_def)
      (simp add: policy_labels_def LabelManaged_def LabelPolicy_def LabelCertificate_def)
qed

end
