(* ===== verification/Wildcard.thy ===== *)
theory Wildcard
  imports VaultName
begin

text \<open>
  Wildcard planning (\<open>internal/domain/wildcard.go\<close>): from discovered host names and
  configured zones to the certificates the cluster needs. This theory holds the data and the
  operations, in the order of the source; what is proved of them is in \<open>WildcardZones\<close> (one host),
  \<open>WildcardPlan\<close> (the content of a plan), \<open>WildcardLimit\<close> (the cap), \<open>WildcardOrder\<close> (the order of
  the hosts) and \<open>WildcardProps\<close> (the properties).
\<close>

section \<open>Data\<close>

definition GroupingPerZone :: string where
  "GroupingPerZone = ''PerZone''"

definition GroupingPerWildcard :: string where
  "GroupingPerWildcard = ''PerWildcard''"

definition MaxListenerHostnames :: nat where
  "MaxListenerHostnames = 5"

record certificate_request =
  cr_Name :: string
  cr_Zone :: string
  cr_DNSNames :: "string list"

record skipped_host =
  sk_Host :: string
  sk_Reason :: string

definition ReasonOutsideAllowlist :: string where
  "ReasonOutsideAllowlist = ''hostname is not inside any configured zone''"

definition ReasonMalformed :: string where
  "ReasonMalformed = ''hostname is malformed or not a usable wildcard''"

definition ReasonMaxCertificates :: string where
  "ReasonMaxCertificates = ''maxCertificates reached; certificate not planned''"

record plan_input =
  pi_Hosts :: "string list"
  pi_Zones :: "string list"
  pi_MaxCertificates :: int
  pi_Existing :: "string list"
  pi_Grouping :: string
  pi_IssueZoneWildcards :: bool

record plan =
  pl_Certificates :: "certificate_request list"
  pl_Skipped :: "skipped_host list"

text \<open>\<open>map[string]map[string]struct{}\<close>: zone to the set of required DNS names.\<close>

type_synonym required = "(string \<times> string list) list"

section \<open>Zones\<close>

definition withinZone :: "string \<Rightarrow> string \<Rightarrow> bool" where
  "withinZone host zone = (host = zone \<or> HasSuffix host (''.'' @ zone))"

definition longestMatchingZone :: "string \<Rightarrow> string list \<Rightarrow> string option" where
  "longestMatchingZone host zones =
     (let candidate = TrimPrefix host ''*.'' in List.find (withinZone candidate) zones)"

definition checkIssuable :: "platform \<Rightarrow> string \<Rightarrow> unit go_result" where
  "checkIssuable P zone =
     (if Contains zone ''*''
      then Inl (Errorf ''%w: %q must not contain a wildcard''
                 [AErr (EDomain ErrInvalidZone), AStr zone])
      else if zone = public_suffix P zone
      then Inl (Errorf ''%w: %q is a public suffix; refusing to issue wildcards for it''
                 [AErr (EDomain ErrInvalidZone), AStr zone])
      else (case etld_plus_one P zone of
              Inl err \<Rightarrow> Inl (Errorf ''%w: %q is not a registrable domain: %w''
                             [AErr (EDomain ErrInvalidZone), AStr zone, AErr err])
            | Inr _ \<Rightarrow> Inr ()))"

text \<open>The loop of \<open>normalizeZones\<close>; \<open>out\<close> holds exactly the keys of \<open>seen\<close>.\<close>

fun normalize_loop :: "platform \<Rightarrow> string list \<Rightarrow> string list \<Rightarrow> string list go_result" where
  "normalize_loop P out [] = Inr out"
| "normalize_loop P out (raw # zones) =
     (let zone = NormalizeHost P raw in
      if zone = [] then Inl (Errorf ''%w: empty zone'' [AErr (EDomain ErrInvalidZone)])
      else (case checkIssuable P zone of
              Inl err \<Rightarrow> Inl err
            | Inr _ \<Rightarrow>
                if zone \<in> set out then normalize_loop P out zones
                else normalize_loop P (out @ [zone]) zones))"

text \<open>Longest first: a stable sort by descending length.\<close>

definition normalizeZones :: "platform \<Rightarrow> string list \<Rightarrow> string list go_result" where
  "normalizeZones P zones =
     (if zones = []
      then Inl (Errorf ''%w: at least one zone is required'' [AErr (EDomain ErrInvalidZone)])
      else res_bind (normalize_loop P [] zones)
             (\<lambda>out. Inr (sort_key (\<lambda>z. - int (length z)) out)))"

section \<open>The name that covers a host\<close>

definition requiredName :: "string \<Rightarrow> string \<Rightarrow> string go_result" where
  "requiredName host zone =
     (case CutPrefix host ''*.'' of
        Some wildcard \<Rightarrow>
          if Contains wildcard ''*'' \<or> \<not> withinZone wildcard zone
          then Inl (EDomain ErrInvalidHost) else Inr host
      | None \<Rightarrow>
          if Contains host ''*'' then Inl (EDomain ErrInvalidHost)
          else if host = zone then Inr host
          else (case Cut host ''.'' of
                  None \<Rightarrow> Inl (EDomain ErrInvalidHost)
                | Some (_, parent) \<Rightarrow>
                    if parent = [] then Inl (EDomain ErrInvalidHost) else Inr (''*.'' @ parent)))"

section \<open>Grouping names into certificates\<close>

definition sortedKeys :: "string list \<Rightarrow> string list" where
  "sortedKeys names = sort names"

definition partitionApex :: "string list \<Rightarrow> string list \<times> string list" where
  "partitionApex names =
     (filter (\<lambda>name. \<not> HasPrefix name ''*.'') names, filter (\<lambda>name. HasPrefix name ''*.'') names)"

definition removeItem :: "string list \<Rightarrow> string \<Rightarrow> string list" where
  "removeItem xs x = filter (\<lambda>item. item \<noteq> x) xs"

definition perZoneNameSeed :: "platform \<Rightarrow> string \<Rightarrow> string list \<Rightarrow> string" where
  "perZoneNameSeed P zone names =
     (let wildcard = ''*.'' @ zone in
      if List.member names wildcard then wildcard else PrimaryDNSName P names)"

definition newRequest :: "platform \<Rightarrow> string \<Rightarrow> string \<Rightarrow> string list \<Rightarrow> certificate_request go_result" where
  "newRequest P zone nameSeed dnsNames =
     (case DeriveVaultCertificateName P nameSeed of
        Inl err \<Rightarrow> Inl err
      | Inr name \<Rightarrow> Inr \<lparr>cr_Name = name, cr_Zone = zone, cr_DNSNames = sort dnsNames\<rparr>)"

text \<open>
  The two loops of the \<open>PerWildcard\<close> case. The first goes over the wildcards and takes the
  apex of each out of the pool; what is left of the pool gets certificates of its own.
\<close>

fun wildcard_loop ::
  "platform \<Rightarrow> string \<Rightarrow> string list \<Rightarrow> string list \<Rightarrow>
   (certificate_request list \<times> string list) go_result" where
  "wildcard_loop P zone apexes [] = Inr ([], apexes)"
| "wildcard_loop P zone apexes (wildcard # wildcards) =
     (let (members, apexes') =
        (case CutPrefix wildcard ''*.'' of
           Some apex \<Rightarrow>
             if List.member apexes apex then ([wildcard, apex], removeItem apexes apex)
             else ([wildcard], apexes)
         | None \<Rightarrow> ([wildcard], apexes))
      in res_bind (newRequest P zone wildcard members)
           (\<lambda>cert. res_bind (wildcard_loop P zone apexes' wildcards)
             (\<lambda>(certs, left). Inr (cert # certs, left))))"

definition per_wildcard_certs ::
  "platform \<Rightarrow> string \<Rightarrow> string list \<Rightarrow> certificate_request list go_result" where
  "per_wildcard_certs P zone names =
     (let (apexes, wildcards) = partitionApex names in
      res_bind (wildcard_loop P zone apexes wildcards)
        (\<lambda>(certs, left).
          res_bind (res_map (\<lambda>apex. newRequest P zone apex [apex]) left)
            (\<lambda>apex_certs. Inr (certs @ apex_certs))))"

definition zone_certs ::
  "platform \<Rightarrow> string \<Rightarrow> required \<Rightarrow> string \<Rightarrow> certificate_request list go_result" where
  "zone_certs P grouping required zone =
     (let names = sortedKeys (case map_of required zone of None \<Rightarrow> [] | Some ns \<Rightarrow> ns) in
      if grouping = GroupingPerZone
      then res_bind (newRequest P zone (perZoneNameSeed P zone names) names) (\<lambda>cert. Inr [cert])
      else if grouping = GroupingPerWildcard then per_wildcard_certs P zone names
      else Inl (Errorf ''unknown grouping %q'' [AStr grouping]))"

text \<open>
  \<open>resolveNameCollisions\<close> goes over the certificates with the set of the names in use.
\<close>

fun collision_loop ::
  "platform \<Rightarrow> string list \<Rightarrow> certificate_request list \<Rightarrow> certificate_request list" where
  "collision_loop P seen [] = []"
| "collision_loop P seen (cert # certs) =
     (let name = cr_Name cert;
          name = (if name \<in> set seen
                  then DisambiguateVaultName P name (Join (cr_DNSNames cert) '','') else name)
      in cert\<lparr>cr_Name := name\<rparr> # collision_loop P (List.insert name seen) certs)"

definition resolveNameCollisions ::
  "platform \<Rightarrow> certificate_request list \<Rightarrow> certificate_request list" where
  "resolveNameCollisions P certs = collision_loop P [] certs"

definition groupNames ::
  "platform \<Rightarrow> required \<Rightarrow> string \<Rightarrow> certificate_request list go_result" where
  "groupNames P required grouping =
     res_bind (res_map (zone_certs P grouping required) (sort (map fst required)))
       (\<lambda>certss. Inr (resolveNameCollisions P (sort_key cr_Name (concat certss))))"

section \<open>The cap\<close>

text \<open>
  One pass of \<open>applyLimit\<close>: it stops when the kept set is full, and otherwise adds the
  names of the certificates that \<open>sel\<close> selects.
\<close>

fun keep_pass ::
  "(certificate_request \<Rightarrow> bool) \<Rightarrow> int \<Rightarrow> string list \<Rightarrow> certificate_request list \<Rightarrow> string list" where
  "keep_pass sel mx keep [] = keep"
| "keep_pass sel mx keep (cert # certs) =
     (if int (length keep) = mx then keep
      else keep_pass sel mx (if sel cert then List.insert (cr_Name cert) keep else keep) certs)"

definition applyLimit ::
  "certificate_request list \<Rightarrow> int \<Rightarrow> string list \<Rightarrow>
   certificate_request list \<times> certificate_request list" where
  "applyLimit certs mx existing =
     (if mx \<le> 0 \<or> int (length certs) \<le> mx then (certs, [])
      else
        let keep = keep_pass (\<lambda>cert. cr_Name cert \<in> set existing) mx [] certs;
            keep = keep_pass (\<lambda>_. True) mx keep certs
        in (filter (\<lambda>cert. cr_Name cert \<in> set keep) certs,
            filter (\<lambda>cert. cr_Name cert \<notin> set keep) certs))"

section \<open>The plan\<close>

definition require :: "string \<Rightarrow> string \<Rightarrow> required \<Rightarrow> required" where
  "require zone name required =
     AList.update zone
       (List.insert name (case map_of required zone of None \<Rightarrow> [] | Some ns \<Rightarrow> ns)) required"

fun host_loop ::
  "platform \<Rightarrow> string list \<Rightarrow> string list \<Rightarrow> required \<Rightarrow> skipped_host list \<Rightarrow>
   required \<times> skipped_host list" where
  "host_loop P zones [] required skipped = (required, skipped)"
| "host_loop P zones (raw # hosts) required skipped =
     (let host = NormalizeHost P raw in
      if host = [] then host_loop P zones hosts required skipped
      else
        (case longestMatchingZone host zones of
           None \<Rightarrow> host_loop P zones hosts required
                     (skipped @ [\<lparr>sk_Host = host, sk_Reason = ReasonOutsideAllowlist\<rparr>])
         | Some zone \<Rightarrow>
             (case requiredName host zone of
                Inl _ \<Rightarrow> host_loop P zones hosts required
                           (skipped @ [\<lparr>sk_Host = host, sk_Reason = ReasonMalformed\<rparr>])
              | Inr name \<Rightarrow> host_loop P zones hosts (require zone name required) skipped)))"

definition skip_key :: "skipped_host \<Rightarrow> string \<times> string" where
  "skip_key s = (sk_Host s, sk_Reason s)"

definition sortSkipped :: "skipped_host list \<Rightarrow> skipped_host list" where
  "sortSkipped skipped = sort_key skip_key skipped"

definition overflow_skips :: "certificate_request list \<Rightarrow> skipped_host list" where
  "overflow_skips overflow =
     concat (map (\<lambda>cert. map (\<lambda>name. \<lparr>sk_Host = name, sk_Reason = ReasonMaxCertificates\<rparr>)
       (cr_DNSNames cert)) overflow)"

definition seeded_hosts :: "plan_input \<Rightarrow> string list \<Rightarrow> string list" where
  "seeded_hosts inp zones =
     (if pi_IssueZoneWildcards inp then map (\<lambda>zone. ''*.'' @ zone) zones @ pi_Hosts inp
      else pi_Hosts inp)"

definition BuildPlan :: "platform \<Rightarrow> plan_input \<Rightarrow> plan go_result" where
  "BuildPlan P inp =
     res_bind (normalizeZones P (pi_Zones inp)) (\<lambda>zones.
       let hosts = seeded_hosts inp zones;
           (required, skipped) = host_loop P zones hosts [] [];
           grouping = (if pi_Grouping inp = [] then GroupingPerZone else pi_Grouping inp)
       in res_bind (groupNames P required grouping) (\<lambda>certs.
            let (certs, overflow) = applyLimit certs (pi_MaxCertificates inp) (pi_Existing inp);
                skipped = skipped @ overflow_skips overflow
            in Inr \<lparr>pl_Certificates = certs, pl_Skipped = sortSkipped skipped\<rparr>))"

section \<open>Listener groups\<close>

function SplitListenerHostnames :: "string list \<Rightarrow> string list list" where
  "SplitListenerHostnames [] = []"
| "SplitListenerHostnames (n # names) =
     take MaxListenerHostnames (n # names) #
     SplitListenerHostnames (drop MaxListenerHostnames (n # names))"
  by pat_completeness auto
termination
  by (relation "measure length") (auto simp: MaxListenerHostnames_def)

end
