(* ===== verification/WildcardZones.thy ===== *)
theory WildcardZones
  imports Wildcard
begin

text \<open>
  What the zone and name functions of \<open>Wildcard\<close> do for one host: a host that passes the
  guards yields a name inside the zone that matched it, the name covers the host, and the
  zone is the longest one for the name as well as for the host.
\<close>

section \<open>Zone membership\<close>

lemma withinZone_iff: "withinZone h z \<longleftrightarrow> h = z \<or> (\<exists>t. h = t @ ''.'' @ z)"
  by (simp add: withinZone_def HasSuffix_iff)

lemma withinZone_refl [simp]: "withinZone z z"
  by (simp add: withinZone_def)

lemma withinZone_trans: "withinZone a b \<Longrightarrow> withinZone b c \<Longrightarrow> withinZone a c"
  by (auto simp: withinZone_iff)

lemma withinZone_sub: "withinZone p z \<Longrightarrow> withinZone (l @ CHR ''.'' # p) z"
  by (auto simp: withinZone_iff)

lemma withinZone_length: "withinZone h z \<Longrightarrow> length z \<le> length h"
  by (auto simp: withinZone_iff)

text \<open>Below the apex, taking off the first label stays inside the zone.\<close>

lemma withinZone_parent:
  assumes "withinZone (l @ CHR ''.'' # p) z" and "l @ CHR ''.'' # p \<noteq> z" and "CHR ''.'' \<notin> set l"
  shows "withinZone p z"
proof -
  obtain t where t: "l @ CHR ''.'' # p = t @ CHR ''.'' # z"
    using assms(1,2) by (auto simp: withinZone_iff)
  then consider u where "l = t @ u" "u @ CHR ''.'' # p = CHR ''.'' # z"
    | u where "t = l @ u" "CHR ''.'' # p = u @ CHR ''.'' # z"
    by (auto simp: append_eq_append_conv2)
  then show ?thesis
  proof cases
    case 1
    then have "u = []" using assms(3) by (cases u) auto
    with 1 show ?thesis by simp
  next
    case 2
    then show ?thesis by (cases u) (auto simp: withinZone_iff)
  qed
qed

section \<open>The zones after normalisation\<close>

lemma normalize_loop_Inr:
  "normalize_loop P out zones = Inr zs \<Longrightarrow> distinct out \<Longrightarrow>
     distinct zs \<and> set zs = set out \<union> NormalizeHost P ` set zones \<and>
     (\<forall>z \<in> NormalizeHost P ` set zones. z \<noteq> [] \<and> checkIssuable P z = Inr ())"
proof (induction P out zones rule: normalize_loop.induct)
  case (2 P out raw zones)
  let ?z = "NormalizeHost P raw"
  from "2.prems"(1) have "?z \<noteq> []" and "checkIssuable P ?z = Inr ()"
    by (auto simp: Let_def split: if_splits sum.splits)
  with 2 show ?case by (cases "?z \<in> set out") (auto simp: Let_def)
qed auto

lemma normalizeZones_Inr:
  assumes "normalizeZones P zones = Inr zs"
  shows "distinct zs" and "set zs = NormalizeHost P ` set zones"
    and "\<And>z. z \<in> set zs \<Longrightarrow> z \<noteq> [] \<and> checkIssuable P z = Inr ()"
    and "sorted_wrt (\<lambda>a b. length b \<le> length a) zs"
proof -
  obtain out where out: "normalize_loop P [] zones = Inr out"
    and zs: "zs = sort_key (\<lambda>z. - int (length z)) out"
    using assms by (auto simp: normalizeZones_def res_bind_Inr_iff split: if_splits)
  note n = normalize_loop_Inr [OF out]
  show "distinct zs" and "set zs = NormalizeHost P ` set zones"
    and "\<And>z. z \<in> set zs \<Longrightarrow> z \<noteq> [] \<and> checkIssuable P z = Inr ()"
    using n by (auto simp: zs)
  have "sorted (map (\<lambda>z. - int (length z)) zs)" by (simp add: zs)
  then show "sorted_wrt (\<lambda>a b. length b \<le> length a) zs"
    by (simp add: sorted_wrt_map)
qed

lemma checkIssuable_Inl: "checkIssuable P z = Inl e \<Longrightarrow> errors_Is e ErrInvalidZone"
  by (auto simp: checkIssuable_def split: if_splits sum.splits)

lemma normalizeZones_Inl:
  "normalizeZones P zones = Inl e \<Longrightarrow> errors_Is e ErrInvalidZone"
proof -
  have "normalize_loop P out zones = Inl e \<Longrightarrow> errors_Is e ErrInvalidZone" for out
    by (induction P out zones rule: normalize_loop.induct)
       (auto simp: Let_def dest: checkIssuable_Inl split: if_splits sum.splits)
  then show "normalizeZones P zones = Inl e \<Longrightarrow> errors_Is e ErrInvalidZone"
    by (auto simp: normalizeZones_def res_bind_Inl_iff split: if_splits)
qed

section \<open>The longest zone\<close>

lemma longestMatchingZone_Some:
  assumes "longestMatchingZone host zones = Some z"
  shows "z \<in> set zones" and "withinZone (TrimPrefix host ''*.'') z"
  using assms by (auto simp: longestMatchingZone_def find_Some_iff)

lemma longestMatchingZone_None_iff:
  "longestMatchingZone host zones = None \<longleftrightarrow>
     (\<forall>z \<in> set zones. \<not> withinZone (TrimPrefix host ''*.'') z)"
  by (auto simp: longestMatchingZone_def find_None_iff)

lemma find_sorted_longest:
  assumes "sorted_wrt (\<lambda>a b. length b \<le> length a) zs"
    and "List.find p zs = Some z" and "z' \<in> set zs" and "p z'"
  shows "length z' \<le> length z"
  using assms by (induction zs) (auto split: if_splits)

lemma find_cong_set:
  "(\<And>x. x \<in> set xs \<Longrightarrow> p x = q x) \<Longrightarrow> List.find p xs = List.find q xs"
  by (induction xs) auto

section \<open>The required name\<close>

lemma TrimPrefix_star_id: "CHR ''*'' \<notin> set h \<Longrightarrow> TrimPrefix h ''*.'' = h"
  by (auto simp: TrimPrefix_def HasPrefix_iff)

lemma TrimPrefix_star [simp]: "TrimPrefix (CHR ''*'' # CHR ''.'' # p) ''*.'' = p"
  by (simp add: TrimPrefix_def HasPrefix_def)

text \<open>The two ways in which a name is produced.\<close>

lemma requiredName_cases:
  assumes "requiredName host zone = Inr name"
  obtains (wildcard) w where "host = ''*.'' @ w" "name = host" "CHR ''*'' \<notin> set w" "withinZone w zone"
    | (apex) "host = zone" "name = host" "CHR ''*'' \<notin> set host"
    | (parent) l p where "host = l @ CHR ''.'' # p" "CHR ''.'' \<notin> set l" "p \<noteq> []" "host \<noteq> zone"
        "name = ''*.'' @ p" "CHR ''*'' \<notin> set host"
proof (cases "CutPrefix host ''*.''")
  case (Some w)
  with assms wildcard show ?thesis
    by (auto simp: requiredName_def CutPrefix_Some_iff Contains_char split: if_splits)
next
  case None
  with assms have star: "CHR ''*'' \<notin> set host"
    by (auto simp: requiredName_def Contains_char split: if_splits)
  show ?thesis
  proof (cases "host = zone")
    case True
    with None assms star apex show ?thesis by (auto simp: requiredName_def Contains_char)
  next
    case False
    with None assms star obtain l p where "Cut host ''.'' = Some (l, p)" "p \<noteq> []" "name = ''*.'' @ p"
      by (auto simp: requiredName_def Contains_char split: option.splits if_splits)
    with Cut_char_Some [of host "CHR ''.''" l p] star False parent show ?thesis by blast
  qed
qed

text \<open>A name is a host without a star, or a star label in front of one.\<close>

lemma requiredName_star:
  "requiredName host zone = Inr name \<Longrightarrow> CHR ''*'' \<notin> set (TrimPrefix name ''*.'')"
  by (erule requiredName_cases) (auto simp: TrimPrefix_star_id)

lemma requiredName_within:
  assumes "requiredName host zone = Inr name" and "withinZone (TrimPrefix host ''*.'') zone"
  shows "withinZone (TrimPrefix name ''*.'') zone"
  using assms(1)
proof (cases rule: requiredName_cases)
  case (parent l p)
  then have "TrimPrefix name ''*.'' = p" by simp
  moreover have "withinZone (l @ CHR ''.'' # p) zone"
    using assms(2) parent by (simp add: TrimPrefix_star_id)
  ultimately show ?thesis using parent withinZone_parent by metis
qed (use assms(2) in auto)

text \<open>
  A certificate name covers a host when they are equal, or when the name is a wildcard for
  the host's parent domain: a wildcard stands for exactly one label, which is not empty.
\<close>

definition covers :: "string \<Rightarrow> string \<Rightarrow> bool" where
  "covers name host =
     (name = host \<or>
      (case Cut host ''.'' of
         None \<Rightarrow> False
       | Some (label, parent) \<Rightarrow> label \<noteq> [] \<and> name = ''*.'' @ parent))"

lemma covers_iff:
  "covers name host \<longleftrightarrow> name = host \<or>
     (\<exists>label parent. host = label @ ''.'' @ parent \<and> label \<noteq> [] \<and> CHR ''.'' \<notin> set label \<and>
        name = ''*.'' @ parent)"
  by (auto simp: covers_def Cut_char_first dest: Cut_char_Some split: option.splits)

lemma requiredName_covers:
  assumes "requiredName host zone = Inr name" and "\<not> HasPrefix host ''.''"
  shows "covers name host"
  using assms(1)
proof (cases rule: requiredName_cases)
  case (parent l p)
  with assms(2) have "l \<noteq> []" by (auto simp: HasPrefix_iff)
  with parent show ?thesis by (auto simp: covers_iff)
qed (auto simp: covers_iff)

text \<open>The zone of a host is also the zone of the name that covers it.\<close>

lemma requiredName_zone:
  assumes "requiredName host zone = Inr name" and m: "longestMatchingZone host zones = Some zone"
    and s: "sorted_wrt (\<lambda>a b. length b \<le> length a) zones"
  shows "longestMatchingZone name zones = Some zone"
  using assms(1)
proof (cases rule: requiredName_cases)
  case (parent l p)
  have t: "TrimPrefix host ''*.'' = l @ CHR ''.'' # p" "TrimPrefix name ''*.'' = p"
    using parent by (simp_all add: TrimPrefix_star_id)
  have f: "List.find (withinZone (l @ CHR ''.'' # p)) zones = Some zone"
    using m t(1) by (simp add: longestMatchingZone_def)
  have "withinZone (l @ CHR ''.'' # p) z = withinZone p z" if "z \<in> set zones" for z
  proof
    assume w: "withinZone (l @ CHR ''.'' # p) z"
    have "length z \<le> length zone" by (rule find_sorted_longest [OF s f that w])
    moreover have "length zone < length (l @ CHR ''.'' # p)"
    proof -
      have "withinZone (l @ CHR ''.'' # p) zone" using f by (auto simp: find_Some_iff)
      then show ?thesis using parent(1,4) by (auto simp: withinZone_iff dest: arg_cong [where f = length])
    qed
    ultimately have "l @ CHR ''.'' # p \<noteq> z" by auto
    with w show "withinZone p z" using parent(2) by (blast intro: withinZone_parent)
  qed (rule withinZone_sub)
  then have "List.find (withinZone p) zones = Some zone" using f find_cong_set by metis
  then show ?thesis using t(2) by (simp add: longestMatchingZone_def)
qed (use m in simp_all)

end
