(* ===== verification/WildcardPlan.thy ===== *)
theory WildcardPlan
  imports WildcardZones
begin

text \<open>
  What a plan contains. The abstract specification classifies each host on its own
  (\<open>classify_host\<close>); the loop over the hosts, the grouping into certificates and the cap are
  shown to keep exactly the names it calls for.
\<close>

section \<open>The specification of one host\<close>

datatype host_class = Ignored | Skipped skipped_host | Required string string

definition classify_host :: "platform \<Rightarrow> string list \<Rightarrow> string \<Rightarrow> host_class" where
  "classify_host P zones raw =
     (let host = NormalizeHost P raw in
      if host = [] then Ignored
      else (case longestMatchingZone host zones of
              None \<Rightarrow> Skipped \<lparr>sk_Host = host, sk_Reason = ReasonOutsideAllowlist\<rparr>
            | Some zone \<Rightarrow>
                (case requiredName host zone of
                   Inl _ \<Rightarrow> Skipped \<lparr>sk_Host = host, sk_Reason = ReasonMalformed\<rparr>
                 | Inr name \<Rightarrow> Required zone name)))"

definition planned_pairs :: "platform \<Rightarrow> string list \<Rightarrow> string list \<Rightarrow> (string \<times> string) set" where
  "planned_pairs P zones hosts =
     {(z, n). \<exists>raw \<in> set hosts. classify_host P zones raw = Required z n}"

definition host_skips :: "platform \<Rightarrow> string list \<Rightarrow> string list \<Rightarrow> skipped_host list" where
  "host_skips P zones hosts =
     List.map_filter
       (\<lambda>raw. case classify_host P zones raw of Skipped s \<Rightarrow> Some s | _ \<Rightarrow> None) hosts"

lemma planned_pairs_Nil [simp]: "planned_pairs P zones [] = {}"
  by (simp add: planned_pairs_def)

lemma planned_pairs_Cons:
  "planned_pairs P zones (h # hs) =
     (case classify_host P zones h of Required z n \<Rightarrow> insert (z, n) (planned_pairs P zones hs)
      | _ \<Rightarrow> planned_pairs P zones hs)"
  by (auto simp: planned_pairs_def split: host_class.splits)

lemma host_skips_Cons:
  "host_skips P zones (h # hs) =
     (case classify_host P zones h of Skipped s \<Rightarrow> s # host_skips P zones hs
      | _ \<Rightarrow> host_skips P zones hs)"
  by (auto simp: host_skips_def map_filter_simps split: host_class.splits)

lemma classify_Required:
  assumes "classify_host P zones raw = Required z n"
  shows "NormalizeHost P raw \<noteq> []" and "longestMatchingZone (NormalizeHost P raw) zones = Some z"
    and "requiredName (NormalizeHost P raw) z = Inr n"
  using assms by (auto simp: classify_host_def Let_def split: if_splits option.splits sum.splits)

section \<open>The map of required names\<close>

definition wf_required :: "required \<Rightarrow> bool" where
  "wf_required m =
     (distinct (map fst m) \<and> (\<forall>k vs. map_of m k = Some vs \<longrightarrow> distinct vs \<and> vs \<noteq> []))"

lemma wf_required_Nil [simp]: "wf_required []"
  by (simp add: wf_required_def)

lemma wf_required_map_of:
  "wf_required m \<Longrightarrow> map_of m k = Some vs \<Longrightarrow> distinct vs \<and> vs \<noteq> []"
  by (simp add: wf_required_def)

lemma wf_required_update:
  "wf_required m \<Longrightarrow> distinct vs \<Longrightarrow> vs \<noteq> [] \<Longrightarrow> wf_required (AList.update k vs m)"
  by (simp add: wf_required_def distinct_update update_conv')

lemma wf_require: "wf_required m \<Longrightarrow> wf_required (require z n m)"
  unfolding require_def
  by (rule wf_required_update)
     (auto simp: List.insert_def dest: wf_required_map_of split: option.split)

lemma pairs_of_require: "pairs_of (require z n m) = insert (z, n) (pairs_of m)"
  by (auto simp: pairs_of_def require_def update_conv' split: option.splits if_splits)

lemma host_loop_spec:
  assumes "host_loop P zones hosts req sk = (req', sk')" and "wf_required req"
  shows "wf_required req' \<and> pairs_of req' = pairs_of req \<union> planned_pairs P zones hosts \<and>
         sk' = sk @ host_skips P zones hosts"
  using assms
proof (induction P zones hosts req sk rule: host_loop.induct)
  case (1 P zones required skipped)
  then show ?case by (simp add: host_skips_def map_filter_simps)
next
  case (2 P zones raw hosts required skipped)
  show ?case
  proof (cases "classify_host P zones raw")
    case Ignored
    then have "NormalizeHost P raw = []"
      by (auto simp: classify_host_def Let_def split: if_splits option.splits sum.splits)
    with 2 Ignored show ?thesis by (simp add: planned_pairs_Cons host_skips_Cons)
  next
    case (Skipped s)
    then have "NormalizeHost P raw \<noteq> []"
      and "host_loop P zones (raw # hosts) required skipped =
           host_loop P zones hosts required (skipped @ [s])"
      by (auto simp: classify_host_def Let_def split: if_splits option.splits sum.splits)
    with 2 Skipped show ?thesis
      by (auto simp: planned_pairs_Cons host_skips_Cons classify_host_def Let_def
          split: option.splits sum.splits)
  next
    case (Required z n)
    note r = classify_Required [OF Required]
    with "2.prems" have "host_loop P zones hosts (require z n required) skipped = (req', sk')"
      by simp
    with 2 r Required wf_require show ?thesis
      by (simp add: planned_pairs_Cons host_skips_Cons pairs_of_require)
  qed
qed


section \<open>Certificates of one zone\<close>

definition cert_pairs :: "certificate_request list \<Rightarrow> (string \<times> string) set" where
  "cert_pairs certs = {(z, n). \<exists>c \<in> set certs. cr_Zone c = z \<and> n \<in> set (cr_DNSNames c)}"

abbreviation all_names :: "certificate_request list \<Rightarrow> string list" where
  "all_names certs \<equiv> concat (map cr_DNSNames certs)"

text \<open>A certificate as the planner builds it, before its name is made unique.\<close>

definition good_request :: "certificate_request \<Rightarrow> bool" where
  "good_request c =
     (valid_vault_name (cr_Name c) \<and> cr_DNSNames c \<noteq> [] \<and> sorted (cr_DNSNames c))"

lemma newRequest_Inr:
  "newRequest P zone seed ns = Inr c \<Longrightarrow>
     cr_Zone c = zone \<and> cr_DNSNames c = sort ns \<and> valid_vault_name (cr_Name c)"
  by (auto simp: newRequest_def dest: Derive_valid split: sum.splits)

lemma newRequest_good:
  "newRequest P zone seed ns = Inr c \<Longrightarrow> ns \<noteq> [] \<Longrightarrow> good_request c"
  by (drule newRequest_Inr) (simp add: good_request_def flip: set_empty)

lemma mset_removeItem:
  "distinct xs \<Longrightarrow> x \<in> set xs \<Longrightarrow> mset (removeItem xs x) = mset xs - {#x#}"
  by (induction xs)
     (auto simp: removeItem_def simp del: mset_filter intro!: arg_cong [where f = mset] filter_True)

lemma distinct_removeItem: "distinct xs \<Longrightarrow> distinct (removeItem xs x)"
  by (simp add: removeItem_def)

lemma wildcard_loop_spec:
  assumes "wildcard_loop P zone apexes ws = Inr (cs, left)" and "distinct apexes"
  shows "mset (all_names cs) + mset left = mset apexes + mset ws \<and>
         (\<forall>c \<in> set cs. cr_Zone c = zone \<and> good_request c)"
  using assms
proof (induction P zone apexes ws arbitrary: cs rule: wildcard_loop.induct)
  case (2 P zone apexes w ws)
  define ma where "ma =
    (case CutPrefix w ''*.'' of
       Some apex \<Rightarrow> if List.member apexes apex then ([w, apex], removeItem apexes apex)
                    else ([w], apexes)
     | None \<Rightarrow> ([w], apexes))"
  obtain members apexes' where m: "ma = (members, apexes')" by (cases ma)
  with "2.prems"(1) obtain c cs' where c: "newRequest P zone w members = Inr c"
    and cs': "wildcard_loop P zone apexes' ws = Inr (cs', left)" and cs: "cs = c # cs'"
    by (auto simp: ma_def [symmetric] res_bind_Inr_iff simp del: CutPrefix_def)
  have d: "distinct apexes'" and ne: "members \<noteq> []"
    and part: "mset members + mset apexes' = add_mset w (mset apexes)"
    using m "2.prems"(2) unfolding ma_def
    by (auto simp: distinct_removeItem mset_removeItem List.member_iff split: option.splits if_splits)
  have "mset (all_names cs') + mset left = mset apexes' + mset ws \<and>
        (\<forall>c \<in> set cs'. cr_Zone c = zone \<and> good_request c)"
    by (rule "2.IH" [OF _ _ cs' d]) (use m in \<open>auto simp: ma_def\<close>)
  with c cs part newRequest_Inr [OF c] newRequest_good [OF c ne] show ?case
    by (auto simp: ac_simps) (metis (no_types, lifting) add.assoc add.commute mset_append union_mset_add_mset_left)
qed simp


lemma res_map_new_spec:
  assumes "res_map (\<lambda>apex. newRequest P zone apex [apex]) left = Inr cs"
  shows "mset (all_names cs) = mset left \<and> (\<forall>c \<in> set cs. cr_Zone c = zone \<and> good_request c)"
  using assms
proof (induction left arbitrary: cs)
  case (Cons apex left)
  then obtain c cs' where c: "newRequest P zone apex [apex] = Inr c" and cs: "cs = c # cs'"
    and "res_map (\<lambda>apex. newRequest P zone apex [apex]) left = Inr cs'"
    by (auto simp: res_bind_Inr_iff)
  with Cons.IH newRequest_Inr [OF c] newRequest_good [OF c] show ?case by auto
qed simp

lemma per_wildcard_certs_spec:
  assumes "per_wildcard_certs P zone names = Inr cs" and "distinct names"
  shows "mset (all_names cs) = mset names \<and> (\<forall>c \<in> set cs. cr_Zone c = zone \<and> good_request c)"
proof -
  define ap where "ap = filter (\<lambda>name. \<not> HasPrefix name ''*.'') names"
  define wi where "wi = filter (\<lambda>name. HasPrefix name ''*.'') names"
  obtain cs1 left cs2 where w: "wildcard_loop P zone ap wi = Inr (cs1, left)"
    and l: "res_map (\<lambda>apex. newRequest P zone apex [apex]) left = Inr cs2" and cs: "cs = cs1 @ cs2"
    using assms(1)
    by (auto simp: per_wildcard_certs_def partitionApex_def ap_def wi_def res_bind_Inr_iff)
  have "mset ap + mset wi = mset names"
    by (simp add: ap_def wi_def add.commute multiset_partition [symmetric])
  moreover have "distinct ap" using assms(2) by (simp add: ap_def)
  ultimately show ?thesis
    using wildcard_loop_spec [OF w] res_map_new_spec [OF l] by (auto simp: cs)
qed

lemma zone_certs_spec:
  assumes "zone_certs P grouping req zone = Inr cs"
    and "map_of req zone = Some ns" and "distinct ns" and "ns \<noteq> []"
  shows "mset (all_names cs) = mset ns \<and> (\<forall>c \<in> set cs. cr_Zone c = zone \<and> good_request c)"
proof (cases "grouping = GroupingPerZone")
  case True
  with assms obtain c where "newRequest P zone (perZoneNameSeed P zone (sort ns)) (sort ns) = Inr c"
    and "cs = [c]"
    by (auto simp: zone_certs_def sortedKeys_def Let_def res_bind_Inr_iff)
  then show ?thesis using newRequest_Inr newRequest_good [of P zone _ "sort ns" c] assms(4)
    by (fastforce simp flip: set_empty)
next
  case False
  with assms show ?thesis
    using per_wildcard_certs_spec [of P zone "sort ns" cs]
    by (auto simp: zone_certs_def sortedKeys_def Let_def split: if_splits)
qed

section \<open>Certificates of all zones\<close>

lemma zone_certs_list_spec:
  assumes "res_map (zone_certs P grouping req) zs = Inr css" and "wf_required req"
    and "set zs \<subseteq> dom (map_of req)"
  shows "mset (all_names (concat css)) = mset (concat (map (\<lambda>z. the (map_of req z)) zs)) \<and>
         cert_pairs (concat css) = {(z, n) \<in> pairs_of req. z \<in> set zs} \<and>
         (\<forall>c \<in> set (concat css). good_request c)"
  using assms(1,3)
proof (induction zs arbitrary: css)
  case (Cons z zs)
  then obtain cs css' where cs: "zone_certs P grouping req z = Inr cs" and css: "css = cs # css'"
    and css': "res_map (zone_certs P grouping req) zs = Inr css'"
    by (auto simp: res_bind_Inr_iff)
  obtain ns where ns: "map_of req z = Some ns" using Cons.prems(2) by auto
  have "distinct ns" "ns \<noteq> []" using wf_required_map_of [OF assms(2) ns] by auto
  note c = zone_certs_spec [OF cs ns this]
  then have "set (all_names cs) = set ns" by (metis mset_eq_setD)
  with c have pairs: "cert_pairs cs = {(z, n) | n. n \<in> set ns}"
    by (auto simp: cert_pairs_def)
  have "cert_pairs (concat css) = cert_pairs cs \<union> cert_pairs (concat css')"
    by (auto simp: css cert_pairs_def)
  with Cons.IH [OF css'] Cons.prems(2) c pairs ns show ?case
    by (auto simp: css pairs_of_def)
qed (simp add: cert_pairs_def)


text \<open>Making names unique changes nothing but the names.\<close>

lemma collision_loop_parts:
  "map cr_Zone (collision_loop P seen certs) = map cr_Zone certs"
  "map cr_DNSNames (collision_loop P seen certs) = map cr_DNSNames certs"
  by (induction P seen certs rule: collision_loop.induct) (auto simp: Let_def)

definition unique_name :: "platform \<Rightarrow> string list \<Rightarrow> certificate_request \<Rightarrow> string" where
  "unique_name P seen c =
     (if cr_Name c \<in> set seen then DisambiguateVaultName P (cr_Name c) (Join (cr_DNSNames c) '','')
      else cr_Name c)"

lemma collision_loop_Cons:
  "collision_loop P seen (c # cs) =
     c\<lparr>cr_Name := unique_name P seen c\<rparr> # collision_loop P (List.insert (unique_name P seen c) seen) cs"
  by (simp add: unique_name_def Let_def)

lemma good_unique_name: "good_request c \<Longrightarrow> good_request (c\<lparr>cr_Name := unique_name P seen c\<rparr>)"
  by (simp add: good_request_def unique_name_def Disambiguate_valid)

lemma collision_loop_good:
  "\<forall>c \<in> set certs. good_request c \<Longrightarrow> c \<in> set (collision_loop P seen certs) \<Longrightarrow> good_request c"
  by (induction certs arbitrary: seen)
     (auto simp only: collision_loop_Cons collision_loop.simps(1) list.set
       ball_simps insert_iff empty_iff good_unique_name)

lemma cert_pairs_Cons:
  "cert_pairs (c # cs) = {(cr_Zone c, n) | n. n \<in> set (cr_DNSNames c)} \<union> cert_pairs cs"
  by (auto simp: cert_pairs_def)

lemma cert_pairs_collision [simp]: "cert_pairs (collision_loop P seen certs) = cert_pairs certs"
  by (induction P seen certs rule: collision_loop.induct)
     (simp_all add: cert_pairs_Cons Let_def)

lemma mset_all_names: "mset cs = mset ds \<Longrightarrow> mset (all_names cs) = mset (all_names ds)"
  by (metis mset_concat mset_map sum_mset_sum_list map_map)

lemma pairs_of_fst: "(z, n) \<in> pairs_of m \<Longrightarrow> z \<in> set (map fst m)"
  by (auto simp: pairs_of_iff set_eq_map_of_keys simp del: set_map)

lemma distinct_concat_keys:
  assumes "wf_required m" and "distinct zs" and "set zs \<subseteq> dom (map_of m)"
    and zone: "\<And>z n. (z, n) \<in> pairs_of m \<Longrightarrow> f n = Some z"
  shows "distinct (concat (map (\<lambda>z. the (map_of m z)) zs))"
  using assms(2,3)
proof (induction zs)
  case (Cons z zs)
  then obtain ns where ns: "map_of m z = Some ns" by auto
  have "set ns \<inter> set (the (map_of m z')) = {}" if z': "z' \<in> set zs" for z'
  proof -
    obtain ns' where ns': "map_of m z' = Some ns'" using z' Cons.prems(2) by auto
    have "z \<noteq> z'" using z' Cons.prems(1) by auto
    then show ?thesis
      using zone [of z] zone [of z'] ns ns' by (fastforce simp: pairs_of_iff)
  qed
  with Cons wf_required_map_of [OF assms(1) ns] ns show ?case by fastforce
qed simp

text \<open>
  The certificates before the cap: they hold exactly the required pairs of zone and name,
  and no name is in two certificates.
\<close>

lemma groupNames_spec:
  assumes g: "groupNames P req grouping = Inr certs" and wf: "wf_required req"
    and zone: "\<And>z n. (z, n) \<in> pairs_of req \<Longrightarrow> f n = Some z"
  shows "cert_pairs certs = pairs_of req" and "distinct (all_names certs)"
    and "\<forall>c \<in> set certs. good_request c"
proof -
  let ?zs = "sort (map fst req)"
  obtain css where css: "res_map (zone_certs P grouping req) ?zs = Inr css"
    and certs: "certs = collision_loop P [] (sort_key cr_Name (concat css))"
    using g by (auto simp: groupNames_def resolveNameCollisions_def res_bind_Inr_iff)
  have dom: "set ?zs \<subseteq> dom (map_of req)" by (simp add: dom_map_of_conv_image_fst)
  note s = zone_certs_list_spec [OF css wf dom]
  have "cert_pairs certs = cert_pairs (concat css)"
    by (simp add: certs) (simp add: cert_pairs_def)
  also have "\<dots> = pairs_of req"
    using s by (auto dest: pairs_of_fst)
  finally show "cert_pairs certs = pairs_of req" .
  have "\<forall>c \<in> set (sort_key cr_Name (concat css)). good_request c" using s by simp
  then show "\<forall>c \<in> set certs. good_request c" using collision_loop_good certs by blast
  have "mset (all_names certs) = mset (concat (map cr_DNSNames (sort_key cr_Name (concat css))))"
    by (simp add: certs collision_loop_parts)
  also have "\<dots> = mset (all_names (concat css))"
    by (rule mset_all_names) simp
  finally have "mset (all_names certs) = mset (concat (map (\<lambda>z. the (map_of req z)) ?zs))"
    using s by simp
  moreover have "distinct (concat (map (\<lambda>z. the (map_of req z)) ?zs))"
    by (rule distinct_concat_keys [OF wf _ dom zone]) (use wf in \<open>auto simp: wf_required_def\<close>)
  ultimately show "distinct (all_names certs)" by (metis mset_eq_imp_distinct_iff)
qed

end
