(* ===== verification/WildcardLimit.thy ===== *)
theory WildcardLimit
  imports WildcardPlan
begin

text \<open>
  The cap on the number of certificates (\<open>applyLimit\<close>): it keeps at most the limit, fills
  it, and never gives the place of an existing certificate to a new one.
\<close>

section \<open>One pass\<close>

lemma keep_pass_sub:
  "n \<in> set (keep_pass sel mx keep cs) \<Longrightarrow> n \<in> set keep \<or> (\<exists>c \<in> set cs. sel c \<and> n = cr_Name c)"
  by (induction sel mx keep cs rule: keep_pass.induct) (auto split: if_splits)

lemma keep_pass_sup: "set keep \<subseteq> set (keep_pass sel mx keep cs)"
  by (induction sel mx keep cs rule: keep_pass.induct) auto

lemma keep_pass_distinct: "distinct keep \<Longrightarrow> distinct (keep_pass sel mx keep cs)"
  by (induction sel mx keep cs rule: keep_pass.induct) (auto simp: distinct_insert)

lemma keep_pass_length:
  "int (length keep) \<le> mx \<Longrightarrow> int (length (keep_pass sel mx keep cs)) \<le> mx"
proof (induction sel mx keep cs rule: keep_pass.induct)
  case (2 sel mx keep c cs)
  then have "int (length keep) \<noteq> mx \<Longrightarrow> int (length (List.insert (cr_Name c) keep)) \<le> mx"
    by (auto simp: List.insert_def)
  with 2 show ?case by auto
qed simp

lemma keep_pass_full: "int (length keep) = mx \<Longrightarrow> keep_pass sel mx keep cs = keep"
  by (cases cs) auto

lemma keep_pass_complete:
  "int (length (keep_pass sel mx keep cs)) \<noteq> mx \<Longrightarrow> c \<in> set cs \<Longrightarrow> sel c \<Longrightarrow>
     cr_Name c \<in> set (keep_pass sel mx keep cs)"
proof (induction sel mx keep cs rule: keep_pass.induct)
  case (2 sel mx keep c' cs)
  then show ?case
    using keep_pass_sup [of "List.insert (cr_Name c') keep" sel mx cs]
    by (auto split: if_splits)
qed simp

section \<open>Both passes\<close>

definition kept_names :: "certificate_request list \<Rightarrow> int \<Rightarrow> string list \<Rightarrow> string list" where
  "kept_names certs mx existing =
     keep_pass (\<lambda>_. True) mx
       (keep_pass (\<lambda>cert. cr_Name cert \<in> set existing) mx [] certs) certs"

lemma applyLimit_kept_names:
  "applyLimit certs mx existing =
     (if mx \<le> 0 \<or> int (length certs) \<le> mx then (certs, [])
      else (filter (\<lambda>c. cr_Name c \<in> set (kept_names certs mx existing)) certs,
            filter (\<lambda>c. cr_Name c \<notin> set (kept_names certs mx existing)) certs))"
  by (simp add: applyLimit_def kept_names_def Let_def)

lemma kept_names_distinct: "distinct (kept_names certs mx existing)"
  by (simp add: kept_names_def keep_pass_distinct)

lemma kept_names_length: "0 \<le> mx \<Longrightarrow> int (length (kept_names certs mx existing)) \<le> mx"
  by (simp add: kept_names_def keep_pass_length)

lemma kept_names_set: "set (kept_names certs mx existing) \<subseteq> cr_Name ` set certs"
  unfolding kept_names_def by (auto dest!: keep_pass_sub)

lemma kept_names_complete:
  "int (length (kept_names certs mx existing)) \<noteq> mx \<Longrightarrow>
     set (kept_names certs mx existing) = cr_Name ` set certs"
  using kept_names_set keep_pass_complete [of "\<lambda>_. True" mx _ certs]
  unfolding kept_names_def by fastforce

lemma kept_names_existing:
  assumes "c \<in> set certs" and "cr_Name c \<in> set existing"
  shows "cr_Name c \<in> set (kept_names certs mx existing) \<or>
         set (kept_names certs mx existing) \<subseteq> set existing"
proof -
  let ?sel = "\<lambda>c. cr_Name c \<in> set existing"
  let ?k = "keep_pass ?sel mx [] certs"
  show ?thesis
  proof (cases "int (length ?k) = mx")
    case True
    then have "kept_names certs mx existing = ?k" by (simp add: kept_names_def keep_pass_full)
    then show ?thesis by (auto dest: keep_pass_sub)
  next
    case False
    then have "cr_Name c \<in> set ?k" using keep_pass_complete [of ?sel mx "[]" certs c] assms by simp
    then show ?thesis using keep_pass_sup [of ?k] by (auto simp: kept_names_def)
  qed
qed

lemma kept_names_stable:
  assumes "0 \<le> mx" and "set ex' \<inter> cr_Name ` set certs = set (kept_names certs mx existing)"
  shows "set (kept_names certs mx ex') = set (kept_names certs mx existing)"
proof -
  let ?K = "set (kept_names certs mx existing)" and ?K' = "set (kept_names certs mx ex')"
  have len: "card ?K = length (kept_names certs mx existing)"
    "card ?K' = length (kept_names certs mx ex')"
    by (simp_all add: distinct_card kept_names_distinct)
  have bound: "int (card ?K) \<le> mx" "int (card ?K') \<le> mx"
    unfolding len by (simp_all add: kept_names_length assms(1))
  show ?thesis
  proof (cases "int (card ?K) = mx")
    case False
    then have all: "?K = cr_Name ` set certs" using kept_names_complete len by metis
    then have "?K' \<subseteq> ?K" using kept_names_set by blast
    then have "card ?K' \<le> card ?K" by (simp add: card_mono)
    with False bound have "int (card ?K') \<noteq> mx" by linarith
    then have "?K' = cr_Name ` set certs" using kept_names_complete [of certs mx ex'] len by simp
    with all show ?thesis by simp
  next
    case True
    have "?K \<subseteq> ?K' \<or> ?K' \<subseteq> ?K"
    proof (cases "?K' \<subseteq> set ex'")
      case True
      then have "?K' \<subseteq> set ex' \<inter> cr_Name ` set certs" using kept_names_set by simp
      then show ?thesis unfolding assms(2) ..
    next
      case False
      have "n \<in> ?K'" if "n \<in> ?K" for n
      proof -
        have "n \<in> set ex' \<inter> cr_Name ` set certs" using that unfolding assms(2) .
        then obtain c where "c \<in> set certs" "cr_Name c \<in> set ex'" "n = cr_Name c" by blast
        then show ?thesis using kept_names_existing [of c certs ex' mx] False by blast
      qed
      then show ?thesis by blast
    qed
    moreover have "card ?K' = card ?K"
    proof (cases "int (card ?K') = mx")
      case False
      then have "?K' = cr_Name ` set certs" using kept_names_complete [of certs mx ex'] len by simp
      then have "?K \<subseteq> ?K'" using kept_names_set by simp
      then have "card ?K \<le> card ?K'" by (simp add: card_mono)
      with True bound show ?thesis by linarith
    qed (use True in simp)
    ultimately show ?thesis by (metis card_subset_eq finite_set)
  qed
qed

section \<open>What the cap promises\<close>

lemma applyLimit_partition:
  "applyLimit certs mx existing = (kept, over) \<Longrightarrow> mset kept + mset over = mset certs"
  by (auto simp: applyLimit_kept_names multiset_partition [symmetric] split: if_splits)

lemma applyLimit_filter:
  "applyLimit certs mx existing = (kept, over) \<Longrightarrow> \<exists>sel. kept = filter sel certs"
  unfolding applyLimit_kept_names by (metis (no_types) Pair_inject filter_True)

lemma applyLimit_names:
  assumes "applyLimit certs mx existing = (kept, over)" and "\<not> (mx \<le> 0 \<or> int (length certs) \<le> mx)"
  shows "cr_Name ` set kept = set (kept_names certs mx existing)"
  using assms kept_names_set by (fastforce simp: applyLimit_kept_names)

lemma applyLimit_bound:
  assumes "applyLimit certs mx existing = (kept, over)" and "0 < mx"
  shows "int (card (cr_Name ` set kept)) \<le> mx"
proof (cases "int (length certs) \<le> mx")
  case True
  then have "kept = certs" using assms by (simp add: applyLimit_kept_names)
  moreover have "card (cr_Name ` set kept) \<le> length kept"
    using card_image_le [of "set kept" cr_Name] card_length [of kept] by simp
  ultimately show ?thesis using True by simp
next
  case False
  then show ?thesis
    using applyLimit_names [OF assms(1)] kept_names_length [of mx certs existing] assms(2)
    by (simp add: distinct_card kept_names_distinct)
qed

lemma applyLimit_fills:
  assumes "applyLimit certs mx existing = (kept, over)" and "over \<noteq> []"
  shows "int (card (cr_Name ` set kept)) = mx"
proof -
  have lim: "\<not> (mx \<le> 0 \<or> int (length certs) \<le> mx)"
    and over: "over = filter (\<lambda>c. cr_Name c \<notin> set (kept_names certs mx existing)) certs"
    using assms by (auto simp: applyLimit_kept_names split: if_splits)
  with assms(2) have "int (length (kept_names certs mx existing)) = mx"
    using kept_names_complete by (fastforce simp: filter_empty_conv)
  then show ?thesis
    using applyLimit_names [OF assms(1) lim] by (simp add: distinct_card kept_names_distinct)
qed

lemma applyLimit_no_eviction:
  assumes "applyLimit certs mx existing = (kept, over)"
    and "c \<in> set over" and "cr_Name c \<in> set existing" and "k \<in> set kept"
  shows "cr_Name k \<in> set existing"
  using assms kept_names_existing [of c certs existing mx]
  by (auto simp: applyLimit_kept_names split: if_splits)

lemma applyLimit_stable:
  assumes "applyLimit certs mx existing = (kept, over)"
  shows "applyLimit certs mx (map cr_Name kept) = (kept, over)"
proof (cases "mx \<le> 0 \<or> int (length certs) \<le> mx")
  case False
  have n: "cr_Name ` set kept = set (kept_names certs mx existing)"
    by (rule applyLimit_names [OF assms False])
  have "set (kept_names certs mx (map cr_Name kept)) = set (kept_names certs mx existing)"
    by (rule kept_names_stable) (use False n kept_names_set [of certs mx existing] in auto)
  then show ?thesis using assms False by (simp add: applyLimit_kept_names)
qed (use assms in \<open>auto simp: applyLimit_kept_names\<close>)

end
