(* ===== verification/WildcardOrder.thy ===== *)
theory WildcardOrder
  imports WildcardLimit
begin

text \<open>
  The plan does not depend on the order in which the hosts were discovered, and two
  certificates never get one name unless their digests collide.
\<close>

section \<open>The order of the hosts\<close>

lemma mset_host_skips:
  "mset hosts = mset hosts' \<Longrightarrow> mset (host_skips P zones hosts) = mset (host_skips P zones hosts')"
  by (simp add: host_skips_def map_filter_def)

lemma planned_pairs_cong: "set hosts = set hosts' \<Longrightarrow> planned_pairs P zones hosts = planned_pairs P zones hosts'"
  by (simp add: planned_pairs_def)

lemma filter_eq_replicate: "filter (\<lambda>x. k = x) xs = replicate (count (mset xs) k) k"
  by (induction xs) auto

lemma sort_key_inj_cong:
  assumes inj: "\<And>x y. f x = f y \<Longrightarrow> x = y" and m: "mset xs = mset ys"
  shows "sort_key f xs = sort_key (f :: 'a \<Rightarrow> 'b :: linorder) ys"
proof (rule properties_for_sort_key [symmetric])
  fix k
  have f: "f k = f x \<longleftrightarrow> k = x" for x using inj by blast
  have "mset (sort_key f xs) = mset ys" using m by simp
  then show "filter (\<lambda>x. f k = f x) (sort_key f xs) = filter (\<lambda>x. f k = f x) ys"
    unfolding f filter_eq_replicate by simp
qed (use m in simp_all)

lemma skip_key_inj: "skip_key s = skip_key t \<Longrightarrow> s = (t :: skipped_host)"
  by (simp add: skip_key_def)

lemma sortSkipped_cong: "mset xs = mset ys \<Longrightarrow> sortSkipped xs = sortSkipped ys"
  unfolding sortSkipped_def by (rule sort_key_inj_cong [OF skip_key_inj])

lemma wf_keys: "wf_required m \<Longrightarrow> set (map fst m) = fst ` pairs_of m"
proof -
  assume wf: "wf_required m"
  have "z \<in> fst ` pairs_of m" if "map_of m z = Some vs" for z vs
  proof -
    have "vs \<noteq> []" using wf_required_map_of [OF wf that] by simp
    then obtain v where "v \<in> set vs" by (cases vs) auto
    with that have "(z, v) \<in> pairs_of m" by (auto simp: pairs_of_iff)
    then show ?thesis by force
  qed
  then show ?thesis using pairs_of_fst [of _ _ m] set_eq_map_of_keys [of _ m] by fastforce
qed

definition names_at :: "required \<Rightarrow> string \<Rightarrow> string list" where
  "names_at m z = (case map_of m z of None \<Rightarrow> [] | Some ns \<Rightarrow> ns)"

lemma set_names_at: "set (names_at m z) = {n. (z, n) \<in> pairs_of m}"
  by (cases "map_of m z") (auto simp: names_at_def pairs_of_iff)

lemma distinct_names_at: "wf_required m \<Longrightarrow> distinct (names_at m z)"
  by (cases "map_of m z") (auto simp: names_at_def dest: wf_required_map_of)

lemma zone_certs_cong:
  assumes "wf_required m" and "wf_required m'" and "pairs_of m = pairs_of m'"
  shows "zone_certs P g m z = zone_certs P g m' z"
proof -
  have "sort (names_at m z) = sort (names_at m' z)"
    by (rule sort_eq_if_set_eq) (simp_all only: assms set_names_at distinct_names_at)
  then show ?thesis by (simp add: zone_certs_def sortedKeys_def names_at_def)
qed

lemma groupNames_cong:
  assumes "wf_required m" and "wf_required m'" and "pairs_of m = pairs_of m'"
  shows "groupNames P m g = groupNames P m' g"
proof -
  have "sort (map fst m) = sort (map fst m')"
    by (rule sort_eq_if_set_eq)
       (use assms wf_keys in \<open>auto simp: wf_required_def simp del: set_map\<close>)
  moreover have "zone_certs P g m = zone_certs P g m'"
    using zone_certs_cong [OF assms] by blast
  ultimately show ?thesis by (simp add: groupNames_def)
qed

section \<open>The steps of a plan\<close>

text \<open>The parts of a successful plan, for the proofs about it.\<close>

definition plan_grouping :: "plan_input \<Rightarrow> string" where
  "plan_grouping inp = (if pi_Grouping inp = [] then GroupingPerZone else pi_Grouping inp)"

lemma BuildPlan_unfold:
  "BuildPlan P inp =
     res_bind (normalizeZones P (pi_Zones inp)) (\<lambda>zones.
       res_bind (groupNames P (fst (host_loop P zones (seeded_hosts inp zones) [] [])) (plan_grouping inp))
         (\<lambda>certs. Inr
            \<lparr>pl_Certificates = fst (applyLimit certs (pi_MaxCertificates inp) (pi_Existing inp)),
             pl_Skipped = sortSkipped (host_skips P zones (seeded_hosts inp zones) @
               overflow_skips (snd (applyLimit certs (pi_MaxCertificates inp) (pi_Existing inp))))\<rparr>))"
proof -
  have "snd (host_loop P zones hosts [] []) = host_skips P zones hosts" for zones hosts
    using host_loop_spec [of P zones hosts "[]" "[]"] by (metis append_Nil prod.collapse wf_required_Nil)
  then show ?thesis
    by (simp add: BuildPlan_def plan_grouping_def Let_def split_def)
qed

lemma host_loop_required:
  "wf_required (fst (host_loop P zones hosts [] []))"
  "pairs_of (fst (host_loop P zones hosts [] [])) = planned_pairs P zones hosts"
  using host_loop_spec [of P zones hosts "[]" "[]"]
  by (metis prod.collapse wf_required_Nil, metis Un_empty_left pairs_of_Nil prod.collapse wf_required_Nil)

text \<open>
  What is known of a successful plan: the zones, the certificates before the cap, and how
  the cap divides them.
\<close>

lemma BuildPlan_InrE:
  assumes "BuildPlan P inp = Inr p"
  obtains zones certs over where "normalizeZones P (pi_Zones inp) = Inr zones"
    and "applyLimit certs (pi_MaxCertificates inp) (pi_Existing inp) = (pl_Certificates p, over)"
    and "pl_Skipped p = sortSkipped (host_skips P zones (seeded_hosts inp zones) @ overflow_skips over)"
    and "cert_pairs certs = planned_pairs P zones (seeded_hosts inp zones)"
    and "distinct (all_names certs)" and "\<forall>c \<in> set certs. good_request c"
proof -
  obtain zones certs where z: "normalizeZones P (pi_Zones inp) = Inr zones"
    and g: "groupNames P (fst (host_loop P zones (seeded_hosts inp zones) [] [])) (plan_grouping inp) = Inr certs"
    and p: "p = \<lparr>pl_Certificates = fst (applyLimit certs (pi_MaxCertificates inp) (pi_Existing inp)),
             pl_Skipped = sortSkipped (host_skips P zones (seeded_hosts inp zones) @
               overflow_skips (snd (applyLimit certs (pi_MaxCertificates inp) (pi_Existing inp))))\<rparr>"
    using assms by (auto simp: BuildPlan_unfold res_bind_Inr_iff)
  have zone: "longestMatchingZone n zones = Some z"
    if req: "(z, n) \<in> pairs_of (fst (host_loop P zones (seeded_hosts inp zones) [] []))" for z n
  proof -
    obtain raw where "classify_host P zones raw = Required z n"
      using req by (auto simp: host_loop_required planned_pairs_def)
    then show ?thesis
      using classify_Required normalizeZones_Inr(4) [OF z] by (blast intro: requiredName_zone)
  qed
  note gs = groupNames_spec [OF g host_loop_required(1) zone]
  show ?thesis
    by (rule that [OF z, of certs "snd (applyLimit certs (pi_MaxCertificates inp) (pi_Existing inp))"])
       (use gs p in \<open>simp_all add: host_loop_required\<close>)
qed

section \<open>Names are unique unless digests collide\<close>

abbreviation names_digest :: "platform \<Rightarrow> certificate_request \<Rightarrow> string" where
  "names_digest P c \<equiv> shortDigest P (Join (cr_DNSNames c) '','')"

definition collision_free :: "platform \<Rightarrow> certificate_request list \<Rightarrow> bool" where
  "collision_free P certs =
     (distinct (map (names_digest P) certs) \<and>
      list_all (\<lambda>c. list_all (\<lambda>c'. \<not> HasSuffix (cr_Name c') (''-'' @ names_digest P c)) certs) certs)"

lemma unique_name_suffix:
  "unique_name P seen c \<noteq> cr_Name c \<Longrightarrow> HasSuffix (unique_name P seen c) (''-'' @ names_digest P c)"
  using Disambiguate_suffix [of P "cr_Name c" "Join (cr_DNSNames c) '',''"]
  by (auto simp: unique_name_def HasSuffix_iff split: if_splits)

lemma digest_suffix_eq:
  "HasSuffix n (''-'' @ shortDigest P s) \<Longrightarrow> HasSuffix n (''-'' @ shortDigest P t) \<Longrightarrow>
     shortDigest P s = shortDigest P t"
  by (auto simp: HasSuffix_iff)

lemma collision_loop_distinct:
  assumes "distinct (map (names_digest P) certs)"
    and "\<And>c c'. c \<in> set certs \<Longrightarrow> c' \<in> set certs \<Longrightarrow> \<not> HasSuffix (cr_Name c') (''-'' @ names_digest P c)"
    and "\<And>n c. n \<in> set seen \<Longrightarrow> c \<in> set certs \<Longrightarrow> \<not> HasSuffix n (''-'' @ names_digest P c)"
  shows "distinct (map cr_Name (collision_loop P seen certs)) \<and>
         set (map cr_Name (collision_loop P seen certs)) \<inter> set seen = {}"
  using assms
proof (induction certs arbitrary: seen)
  case (Cons c certs)
  let ?u = "unique_name P seen c"
  have new: "?u \<notin> set seen"
  proof (cases "?u = cr_Name c")
    case True
    show ?thesis
    proof
      assume "?u \<in> set seen"
      with True have "?u = DisambiguateVaultName P (cr_Name c) (Join (cr_DNSNames c) '','')"
        by (simp add: unique_name_def)
      then have "HasSuffix (cr_Name c) (''-'' @ names_digest P c)"
        using True Disambiguate_suffix [of P "cr_Name c" "Join (cr_DNSNames c) '',''"]
        by (auto simp: HasSuffix_iff)
      then show False using Cons.prems(2) [of c c] by simp
    qed
  next
    case False
    then show ?thesis using unique_name_suffix Cons.prems(3) [of ?u c] by auto
  qed
  have "\<not> HasSuffix n (''-'' @ names_digest P c')"
    if "n \<in> set (List.insert ?u seen)" "c' \<in> set certs" for n c'
  proof (cases "n = ?u \<and> ?u \<noteq> cr_Name c")
    case True
    have "names_digest P c \<noteq> names_digest P c'" using Cons.prems(1) that(2) by auto
    with True show ?thesis using unique_name_suffix digest_suffix_eq by metis
  next
    case False
    with that Cons.prems(2) [of c' c] Cons.prems(3) [of n c'] show ?thesis by auto
  qed
  moreover have "\<And>d c'. d \<in> set certs \<Longrightarrow> c' \<in> set certs \<Longrightarrow>
      \<not> HasSuffix (cr_Name c') (''-'' @ names_digest P d)"
    by (rule Cons.prems(2)) simp_all
  moreover have "distinct (map (names_digest P) certs)" using Cons.prems(1) by simp
  ultimately have "distinct (map cr_Name (collision_loop P (List.insert ?u seen) certs)) \<and>
      set (map cr_Name (collision_loop P (List.insert ?u seen) certs)) \<inter> set (List.insert ?u seen) = {}"
    by (intro Cons.IH) blast+
  with new show ?case by (auto simp: collision_loop_Cons simp del: collision_loop.simps)
qed simp

end
