(* ===== verification/WildcardProps.thy ===== *)
theory WildcardProps
  imports WildcardOrder
begin

text \<open>
  The properties of wildcard planning, each followed by an instance on a concrete cluster.
\<close>

section \<open>A concrete plan\<close>

definition example_input :: plan_input where
  "example_input =
     \<lparr> pi_Hosts = [''api.x.com'', ''WEB.x.com'', ''x.com'', ''a.sub.x.com'', ''nope.evil.com'', ''b.y.org''],
       pi_Zones = [''x.com'', ''y.org''], pi_MaxCertificates = 1, pi_Existing = [''wildcard-x-com''],
       pi_Grouping = [], pi_IssueZoneWildcards = False \<rparr>"

definition cert_x :: certificate_request where
  "cert_x = \<lparr>cr_Name = ''wildcard-x-com'', cr_Zone = ''x.com'',
             cr_DNSNames = [''*.sub.x.com'', ''*.x.com'', ''x.com'']\<rparr>"

definition cert_y :: certificate_request where
  "cert_y = \<lparr>cr_Name = ''wildcard-y-org'', cr_Zone = ''y.org'', cr_DNSNames = [''*.y.org'']\<rparr>"

definition example_plan :: plan where
  "example_plan =
     \<lparr> pl_Certificates = [cert_x],
       pl_Skipped = [\<lparr>sk_Host = ''*.y.org'', sk_Reason = ReasonMaxCertificates\<rparr>,
                     \<lparr>sk_Host = ''nope.evil.com'', sk_Reason = ReasonOutsideAllowlist\<rparr>] \<rparr>"

lemma example_plan_eq: "BuildPlan sample_platform example_input = Inr example_plan"
  by code_simp

lemma example_uncapped_eq:
  "BuildPlan sample_platform (example_input\<lparr>pi_MaxCertificates := 0\<rparr>) =
     Inr \<lparr> pl_Certificates = [cert_x, cert_y],
           pl_Skipped = [\<lparr>sk_Host = ''nope.evil.com'', sk_Reason = ReasonOutsideAllowlist\<rparr>] \<rparr>"
  by code_simp

section \<open>Safety: nothing outside the zones\<close>

lemma checkIssuable_Inr:
  "checkIssuable P z = Inr () \<longleftrightarrow>
     CHR ''*'' \<notin> set z \<and> z \<noteq> public_suffix P z \<and> (\<exists>r. etld_plus_one P z = Inr r)"
  by (auto simp: checkIssuable_def Contains_char split: sum.splits)

lemma plan_pairs:
  assumes "cert_pairs certs = planned_pairs P zones hosts" and "c \<in> set certs" and "n \<in> set (cr_DNSNames c)"
  obtains raw where "raw \<in> set hosts" and "classify_host P zones raw = Required (cr_Zone c) n"
proof -
  have "(cr_Zone c, n) \<in> cert_pairs certs" using assms(2,3) by (auto simp: cert_pairs_def)
  with assms(1) that show ?thesis by (auto simp: planned_pairs_def)
qed

lemma applyLimit_subset: "applyLimit certs mx ex = (kept, over) \<Longrightarrow> set kept \<union> set over = set certs"
  by (metis applyLimit_partition set_mset_mset set_mset_union)

lemma BuildPlan_name_in_zone:
  assumes "BuildPlan P inp = Inr p" and "c \<in> set (pl_Certificates p)" and "n \<in> set (cr_DNSNames c)"
  shows "cr_Zone c \<in> NormalizeHost P ` set (pi_Zones inp) \<and>
         CHR ''*'' \<notin> set (cr_Zone c) \<and> cr_Zone c \<noteq> public_suffix P (cr_Zone c) \<and>
         (\<exists>r. etld_plus_one P (cr_Zone c) = Inr r) \<and>
         withinZone (TrimPrefix n ''*.'') (cr_Zone c) \<and> CHR ''*'' \<notin> set (TrimPrefix n ''*.'')"
proof -
  obtain zones certs over where z: "normalizeZones P (pi_Zones inp) = Inr zones"
    and lim: "applyLimit certs (pi_MaxCertificates inp) (pi_Existing inp) = (pl_Certificates p, over)"
    and pairs: "cert_pairs certs = planned_pairs P zones (seeded_hosts inp zones)"
    using BuildPlan_InrE [OF assms(1)] by metis
  have "c \<in> set certs" using applyLimit_subset [OF lim] assms(2) by blast
  then obtain raw where "classify_host P zones raw = Required (cr_Zone c) n"
    using plan_pairs [OF pairs _ assms(3)] by blast
  note r = classify_Required [OF this]
  note m = longestMatchingZone_Some [OF r(2)]
  have "cr_Zone c \<noteq> [] \<and> checkIssuable P (cr_Zone c) = Inr ()" by (rule normalizeZones_Inr(3) [OF z m(1)])
  then show ?thesis
    using m normalizeZones_Inr(2) [OF z] requiredName_within [OF r(3) m(2)] requiredName_star [OF r(3)]
    by (auto simp: checkIssuable_Inr)
qed

text \<open>
  C1. Every subject name of every planned certificate lies inside the certificate's zone; the
  zone is one of the configured zones (normalised), it carries no star, it is not a public
  suffix and it has a registrable domain; and the name is a plain host name or one star label
  in front of one. So a host that anyone can put on an Ingress never causes issuance outside
  the allowlist.
\<close>
theorem BuildPlan_sans_in_zone:
  assumes "BuildPlan P inp = Inr p" and "c \<in> set (pl_Certificates p)" and "n \<in> set (cr_DNSNames c)"
  shows "cr_Zone c \<in> NormalizeHost P ` set (pi_Zones inp) \<and>
         CHR ''*'' \<notin> set (cr_Zone c) \<and> cr_Zone c \<noteq> public_suffix P (cr_Zone c) \<and>
         (\<exists>r. etld_plus_one P (cr_Zone c) = Inr r) \<and>
         withinZone (TrimPrefix n ''*.'') (cr_Zone c) \<and> CHR ''*'' \<notin> set (TrimPrefix n ''*.'')"
  by (rule BuildPlan_name_in_zone [OF assms])

lemma BuildPlan_sans_in_zone_witness:
  "withinZone (TrimPrefix ''*.sub.x.com'' ''*.'') (cr_Zone cert_x)"
  using BuildPlan_sans_in_zone [OF example_plan_eq, of cert_x "''*.sub.x.com''"]
  by (simp add: example_plan_def cert_x_def del: TrimPrefix_star)

section \<open>Completeness: no host is lost\<close>

lemma overflow_skips_iff:
  "s \<in> set (overflow_skips over) \<longleftrightarrow>
     sk_Reason s = ReasonMaxCertificates \<and> (\<exists>c \<in> set over. sk_Host s \<in> set (cr_DNSNames c))"
  by (cases s) (auto simp: overflow_skips_def)

lemma set_sortSkipped [simp]: "set (sortSkipped xs) = set xs"
  by (simp add: sortSkipped_def)

lemma in_host_skips:
  "raw \<in> set hosts \<Longrightarrow> classify_host P zones raw = Skipped s \<Longrightarrow> s \<in> set (host_skips P zones hosts)"
  by (force simp: host_skips_def map_filter_def)

lemma classify_Skipped:
  "classify_host P zones raw = Skipped s \<Longrightarrow> sk_Host s = NormalizeHost P raw"
  by (auto simp: classify_host_def Let_def split: if_splits option.splits sum.splits)

lemma classify_Ignored: "classify_host P zones raw = Ignored \<Longrightarrow> NormalizeHost P raw = []"
  by (auto simp: classify_host_def Let_def split: if_splits option.splits sum.splits)

lemma BuildPlan_host_found:
  assumes "BuildPlan P inp = Inr p" and "raw \<in> set (pi_Hosts inp)"
    and "NormalizeHost P raw \<noteq> []" and "\<not> HasPrefix (NormalizeHost P raw) ''.''"
  shows "(\<exists>c \<in> set (pl_Certificates p). \<exists>n \<in> set (cr_DNSNames c). covers n (NormalizeHost P raw)) \<or>
         (\<exists>s \<in> set (pl_Skipped p). sk_Host s = NormalizeHost P raw \<or>
            sk_Reason s = ReasonMaxCertificates \<and> covers (sk_Host s) (NormalizeHost P raw))"
proof -
  obtain zones certs over
    where lim: "applyLimit certs (pi_MaxCertificates inp) (pi_Existing inp) = (pl_Certificates p, over)"
    and skip: "pl_Skipped p = sortSkipped (host_skips P zones (seeded_hosts inp zones) @ overflow_skips over)"
    and pairs: "cert_pairs certs = planned_pairs P zones (seeded_hosts inp zones)"
    using BuildPlan_InrE [OF assms(1)] by metis
  have raw: "raw \<in> set (seeded_hosts inp zones)" using assms(2) by (simp add: seeded_hosts_def)
  show ?thesis
  proof (cases "classify_host P zones raw")
    case Ignored
    then show ?thesis using classify_Ignored assms(3) by blast
  next
    case (Skipped s)
    then show ?thesis using in_host_skips [OF raw Skipped] classify_Skipped skip by fastforce
  next
    case (Required z n)
    then have "(z, n) \<in> cert_pairs certs" using pairs raw by (auto simp: planned_pairs_def)
    then obtain c where c: "c \<in> set certs" "n \<in> set (cr_DNSNames c)" by (auto simp: cert_pairs_def)
    have cov: "covers n (NormalizeHost P raw)"
      by (rule requiredName_covers [OF classify_Required(3) [OF Required] assms(4)])
    show ?thesis
    proof (cases "c \<in> set (pl_Certificates p)")
      case False
      then have "c \<in> set over" using applyLimit_subset [OF lim] c by blast
      then have "\<lparr>sk_Host = n, sk_Reason = ReasonMaxCertificates\<rparr> \<in> set (pl_Skipped p)"
        using c(2) by (auto simp: skip overflow_skips_iff)
      with cov show ?thesis by fastforce
    qed (use c cov in blast)
  qed
qed

text \<open>
  C2. No discovered host is lost: a host that is not blank and whose first label is not empty
  is covered by a subject name of a planned certificate, or is itself among the skipped hosts,
  or the name that would cover it is among them with the reason that the cap was reached.
\<close>
theorem BuildPlan_no_host_lost:
  assumes "BuildPlan P inp = Inr p" and "raw \<in> set (pi_Hosts inp)"
    and "NormalizeHost P raw \<noteq> []" and "\<not> HasPrefix (NormalizeHost P raw) ''.''"
  shows "(\<exists>c \<in> set (pl_Certificates p). \<exists>n \<in> set (cr_DNSNames c). covers n (NormalizeHost P raw)) \<or>
         (\<exists>s \<in> set (pl_Skipped p). sk_Host s = NormalizeHost P raw \<or>
            sk_Reason s = ReasonMaxCertificates \<and> covers (sk_Host s) (NormalizeHost P raw))"
  by (rule BuildPlan_host_found [OF assms])

lemma BuildPlan_no_host_lost_witness:
  "(\<exists>c \<in> set (pl_Certificates example_plan). \<exists>n \<in> set (cr_DNSNames c). covers n (NormalizeHost sample_platform ''WEB.x.com'')) \<or>
   (\<exists>s \<in> set (pl_Skipped example_plan). sk_Host s = NormalizeHost sample_platform ''WEB.x.com'' \<or>
      sk_Reason s = ReasonMaxCertificates \<and> covers (sk_Host s) (NormalizeHost sample_platform ''WEB.x.com''))"
  by (rule BuildPlan_no_host_lost [OF example_plan_eq]) (simp add: example_input_def, code_simp, code_simp)

section \<open>Refinement of the specification\<close>

text \<open>
  C3. Without a cap the plan refines the specification of single hosts: the pairs of zone and
  subject name over all certificates are exactly those that \<open>classify_host\<close> requires of
  some host (or of a zone wildcard, when those are asked for), and the skipped hosts are
  exactly those it skips, each as often as it was discovered.
\<close>
theorem BuildPlan_refines_hosts:
  assumes "BuildPlan P inp = Inr p" and "pi_MaxCertificates inp \<le> 0"
    and "normalizeZones P (pi_Zones inp) = Inr zones"
  shows "cert_pairs (pl_Certificates p) = planned_pairs P zones (seeded_hosts inp zones) \<and>
         mset (pl_Skipped p) = mset (host_skips P zones (seeded_hosts inp zones))"
proof -
  obtain certs over where lim: "applyLimit certs (pi_MaxCertificates inp) (pi_Existing inp) = (pl_Certificates p, over)"
    and skip: "pl_Skipped p = sortSkipped (host_skips P zones (seeded_hosts inp zones) @ overflow_skips over)"
    and pairs: "cert_pairs certs = planned_pairs P zones (seeded_hosts inp zones)"
    using BuildPlan_InrE [OF assms(1)] assms(3) by (metis sum.inject(2))
  have "pl_Certificates p = certs" and "over = []" using lim assms(2) by (simp_all add: applyLimit_def)
  then show ?thesis using pairs skip by (simp add: sortSkipped_def overflow_skips_def)
qed

lemma BuildPlan_refines_hosts_witness:
  "cert_pairs [cert_x, cert_y] =
     planned_pairs sample_platform [''x.com'', ''y.org'']
       (seeded_hosts (example_input\<lparr>pi_MaxCertificates := 0\<rparr>) [''x.com'', ''y.org''])"
proof -
  have "normalizeZones sample_platform (pi_Zones (example_input\<lparr>pi_MaxCertificates := 0\<rparr>)) =
      Inr [''x.com'', ''y.org'']" by code_simp
  from BuildPlan_refines_hosts [OF example_uncapped_eq _ this] show ?thesis by simp
qed

lemma BuildPlan_certificates:
  assumes "BuildPlan P inp = Inr p"
  shows "distinct (concat (map cr_DNSNames (pl_Certificates p))) \<and>
         list_all (\<lambda>c. valid_vault_name (cr_Name c) \<and> cr_DNSNames c \<noteq> [] \<and> sorted (cr_DNSNames c))
           (pl_Certificates p)"
proof -
  obtain certs over
    where lim: "applyLimit certs (pi_MaxCertificates inp) (pi_Existing inp) = (pl_Certificates p, over)"
    and d: "distinct (all_names certs)" and good: "\<forall>c \<in> set certs. good_request c"
    using BuildPlan_InrE [OF assms] by metis
  have "mset (all_names certs) = mset (all_names (pl_Certificates p @ over))"
    by (rule mset_all_names) (simp add: applyLimit_partition [OF lim])
  then have "distinct (all_names (pl_Certificates p @ over))" using d by (metis mset_eq_imp_distinct_iff)
  then show ?thesis
    using good applyLimit_subset [OF lim] by (auto simp: list_all_iff good_request_def)
qed

lemma plan_names_nonempty:
  "BuildPlan P inp = Inr p \<Longrightarrow> list_all (\<lambda>c. cr_DNSNames c \<noteq> []) (pl_Certificates p)"
  using BuildPlan_certificates by (auto simp: list_all_iff)

text \<open>
  C4. No subject name is in two certificates, and none is twice in one; every certificate has
  a valid Key Vault name and a non-empty, sorted list of subject names.
\<close>
theorem BuildPlan_certificates_wellformed:
  assumes "BuildPlan P inp = Inr p"
  shows "distinct (concat (map cr_DNSNames (pl_Certificates p))) \<and>
         list_all (\<lambda>c. valid_vault_name (cr_Name c) \<and> cr_DNSNames c \<noteq> [] \<and> sorted (cr_DNSNames c))
           (pl_Certificates p)"
  using BuildPlan_certificates [OF assms] .

lemma BuildPlan_certificates_wellformed_witness:
  "distinct (concat (map cr_DNSNames (pl_Certificates example_plan)))"
  using BuildPlan_certificates_wellformed [OF example_plan_eq] by (rule conjunct1)

section \<open>The cap\<close>

lemma seeded_hosts_cong:
  "seeded_hosts (inp\<lparr>pi_MaxCertificates := m\<rparr>) = seeded_hosts inp"
  "seeded_hosts (inp\<lparr>pi_Existing := ex\<rparr>) = seeded_hosts inp"
  by (cases "pi_IssueZoneWildcards inp"; rule ext; simp add: seeded_hosts_def)+

lemma plan_grouping_cong:
  "plan_grouping (inp\<lparr>pi_MaxCertificates := m\<rparr>) = plan_grouping inp"
  "plan_grouping (inp\<lparr>pi_Existing := ex\<rparr>) = plan_grouping inp"
  "plan_grouping (inp\<lparr>pi_Hosts := hosts\<rparr>) = plan_grouping inp"
  by (cases "pi_Grouping inp = []"; simp add: plan_grouping_def)+

lemma mset_seeded_hosts:
  assumes "mset hosts = mset (pi_Hosts inp)"
  shows "mset (seeded_hosts (inp\<lparr>pi_Hosts := hosts\<rparr>) zones) = mset (seeded_hosts inp zones)"
proof -
  have "pi_IssueZoneWildcards (inp\<lparr>pi_Hosts := hosts\<rparr>) = pi_IssueZoneWildcards inp"
    and "pi_Hosts (inp\<lparr>pi_Hosts := hosts\<rparr>) = hosts" by simp_all
  then show ?thesis
    by (cases "pi_IssueZoneWildcards inp") (simp_all only: seeded_hosts_def mset_append if_True if_False assms)
qed

text \<open>The certificates before the cap.\<close>

definition uncapped :: "platform \<Rightarrow> plan_input \<Rightarrow> certificate_request list go_result" where
  "uncapped P inp =
     res_bind (normalizeZones P (pi_Zones inp)) (\<lambda>zones.
       groupNames P (fst (host_loop P zones (seeded_hosts inp zones) [] [])) (plan_grouping inp))"

lemma BuildPlan_uncapped:
  "BuildPlan P inp = Inr p \<Longrightarrow> \<exists>certs. uncapped P inp = Inr certs \<and>
     pl_Certificates p = fst (applyLimit certs (pi_MaxCertificates inp) (pi_Existing inp))"
  by (auto simp: BuildPlan_unfold uncapped_def res_bind_Inr_iff)

lemma uncapped_max: "uncapped P (inp\<lparr>pi_MaxCertificates := m\<rparr>) = uncapped P inp"
  by (simp add: uncapped_def seeded_hosts_cong plan_grouping_cong)

lemma BuildPlan_set_max:
  assumes "BuildPlan P inp = Inr p" and "BuildPlan P (inp\<lparr>pi_MaxCertificates := 0\<rparr>) = Inr p0"
  obtains over where
    "applyLimit (pl_Certificates p0) (pi_MaxCertificates inp) (pi_Existing inp) = (pl_Certificates p, over)"
proof -
  have "uncapped P inp = Inr (pl_Certificates p0)"
    using BuildPlan_uncapped [OF assms(2)] by (auto simp: uncapped_max applyLimit_def)
  then have "pl_Certificates p =
      fst (applyLimit (pl_Certificates p0) (pi_MaxCertificates inp) (pi_Existing inp))"
    using BuildPlan_uncapped [OF assms(1)] by auto
  then show ?thesis using that by (metis prod.collapse)
qed

text \<open>
  C6. A positive cap bounds the number of certificate names, and it is used up before anything
  is left out: either the plan is the uncapped one or it has exactly as many names as allowed.
\<close>
theorem BuildPlan_cap:
  assumes "BuildPlan P inp = Inr p" and "BuildPlan P (inp\<lparr>pi_MaxCertificates := 0\<rparr>) = Inr p0"
    and "0 < pi_MaxCertificates inp"
  shows "int (card (cr_Name ` set (pl_Certificates p))) \<le> pi_MaxCertificates inp \<and>
         (pl_Certificates p = pl_Certificates p0 \<or>
          int (card (cr_Name ` set (pl_Certificates p))) = pi_MaxCertificates inp)"
proof -
  obtain over where lim:
    "applyLimit (pl_Certificates p0) (pi_MaxCertificates inp) (pi_Existing inp) = (pl_Certificates p, over)"
    by (rule BuildPlan_set_max [OF assms(1,2)])
  show ?thesis
  proof (cases "over = []")
    case True
    with lim have "pl_Certificates p = pl_Certificates p0"
      by (auto simp: applyLimit_kept_names filter_empty_conv filter_id_conv split: if_splits)
    then show ?thesis using applyLimit_bound [OF lim assms(3)] by simp
  next
    case False
    then show ?thesis using applyLimit_fills [OF lim] by simp
  qed
qed

lemma BuildPlan_cap_witness: "int (card (cr_Name ` set (pl_Certificates example_plan))) \<le> 1"
  using BuildPlan_cap [OF example_plan_eq example_uncapped_eq] by (simp add: example_input_def)

text \<open>
  C5. The cap never takes the place of an existing certificate for a new one: if a certificate
  whose name already exists is left out of the plan, then every certificate that is in the plan
  exists already.
\<close>
theorem BuildPlan_no_eviction:
  assumes "BuildPlan P inp = Inr p" and "BuildPlan P (inp\<lparr>pi_MaxCertificates := 0\<rparr>) = Inr p0"
    and "c \<in> set (pl_Certificates p0)" and "c \<notin> set (pl_Certificates p)"
    and "cr_Name c \<in> set (pi_Existing inp)" and "k \<in> set (pl_Certificates p)"
  shows "cr_Name k \<in> set (pi_Existing inp)"
proof -
  obtain over where lim:
    "applyLimit (pl_Certificates p0) (pi_MaxCertificates inp) (pi_Existing inp) = (pl_Certificates p, over)"
    by (rule BuildPlan_set_max [OF assms(1,2)])
  have "c \<in> set over" using applyLimit_subset [OF lim] assms(3,4) by blast
  then show ?thesis by (rule applyLimit_no_eviction [OF lim _ assms(5,6)])
qed

definition crowded_input :: plan_input where
  "crowded_input = example_input\<lparr>pi_Existing := [''wildcard-x-com'', ''wildcard-y-org'']\<rparr>"

lemma BuildPlan_no_eviction_witness: "''wildcard-x-com'' \<in> set (pi_Existing crowded_input)"
proof -
  have "BuildPlan sample_platform crowded_input = Inr example_plan" by code_simp
  moreover have "BuildPlan sample_platform (crowded_input\<lparr>pi_MaxCertificates := 0\<rparr>) =
     Inr \<lparr> pl_Certificates = [cert_x, cert_y],
           pl_Skipped = [\<lparr>sk_Host = ''nope.evil.com'', sk_Reason = ReasonOutsideAllowlist\<rparr>] \<rparr>"
    by code_simp
  ultimately have "cr_Name cert_x \<in> set (pi_Existing crowded_input)"
    by (rule BuildPlan_no_eviction [where c = cert_y])
       (simp_all add: example_plan_def cert_x_def cert_y_def crowded_input_def)
  then show ?thesis by (simp add: cert_x_def)
qed

text \<open>
  C7. Planning is stable: when the certificates of a plan are the existing ones of the next
  pass over the same hosts, the plan comes out the same, also when the cap left some out.
\<close>
theorem BuildPlan_stable:
  assumes "BuildPlan P inp = Inr p"
  shows "BuildPlan P (inp\<lparr>pi_Existing := map cr_Name (pl_Certificates p)\<rparr>) = Inr p"
proof -
  have stable: "applyLimit certs mx (map cr_Name (fst (applyLimit certs mx ex))) = applyLimit certs mx ex"
    for certs mx ex
    by (metis applyLimit_stable prod.collapse)
  show ?thesis
    using assms
    by (auto simp: BuildPlan_unfold res_bind_Inr_iff seeded_hosts_cong plan_grouping_cong stable)
qed

lemma BuildPlan_stable_witness:
  "BuildPlan sample_platform (example_input\<lparr>pi_Existing := [''wildcard-x-com'']\<rparr>) = Inr example_plan"
  using BuildPlan_stable [OF example_plan_eq] by (simp add: example_plan_def cert_x_def)

section \<open>Determinism\<close>

text \<open>
  C8. The whole result, errors included, does not depend on the order in which the hosts were
  discovered.
\<close>
theorem BuildPlan_order:
  assumes "mset hosts = mset (pi_Hosts inp)"
  shows "BuildPlan P (inp\<lparr>pi_Hosts := hosts\<rparr>) = BuildPlan P inp"
proof -
  let ?inp = "inp\<lparr>pi_Hosts := hosts\<rparr>"
  have m: "mset (seeded_hosts ?inp zones) = mset (seeded_hosts inp zones)" for zones
    by (rule mset_seeded_hosts [OF assms])
  have "set (seeded_hosts ?inp zones) = set (seeded_hosts inp zones)" for zones
    using m by (rule mset_eq_setD)
  then have p: "planned_pairs P zones (seeded_hosts ?inp zones) = planned_pairs P zones (seeded_hosts inp zones)" for zones
    by (rule planned_pairs_cong)
  have g: "groupNames P (fst (host_loop P zones (seeded_hosts ?inp zones) [] [])) =
      groupNames P (fst (host_loop P zones (seeded_hosts inp zones) [] []))" for zones
    by (rule ext, rule groupNames_cong) (simp_all only: host_loop_required p)
  have s: "sortSkipped (host_skips P zones (seeded_hosts ?inp zones) @ xs) =
      sortSkipped (host_skips P zones (seeded_hosts inp zones) @ xs)" for zones xs
    by (rule sortSkipped_cong) (simp add: mset_host_skips [OF m])
  show ?thesis by (simp add: BuildPlan_unfold g s plan_grouping_cong)
qed

lemma BuildPlan_order_witness:
  "BuildPlan sample_platform (example_input\<lparr>pi_Hosts := rev (pi_Hosts example_input)\<rparr>) = Inr example_plan"
  using BuildPlan_order [of "rev (pi_Hosts example_input)" example_input sample_platform]
  by (simp add: example_plan_eq)

text \<open>
  A zone of many labels gives a certificate whose name, within the 127 characters of Key Vault, is
  longer than the 63 of a Kubernetes label value.
\<close>

definition long_zone :: string where
  "long_zone = concat (replicate 6 ''department.'') @ ''example.com''"

definition long_zone_input :: plan_input where
  "long_zone_input = \<lparr>pi_Hosts = [''a.'' @ long_zone], pi_Zones = [long_zone], pi_MaxCertificates = 10,
     pi_Existing = [], pi_Grouping = ''PerZone'', pi_IssueZoneWildcards = False\<rparr>"

lemma planned_label_too_long:
  "case BuildPlan sample_platform long_zone_input of
     Inl _ \<Rightarrow> False | Inr p \<Rightarrow> map (\<lambda>cert. length (cr_Name cert)) (pl_Certificates p) = [86]"
  by code_simp

text \<open>A host without a derivable name fails the whole plan instead of being skipped.\<close>

lemma underivable_host_fails_plan:
  "BuildPlan sample_platform \<lparr>pi_Hosts = [''ok.x.com'', ''a.b_c.x.com''], pi_Zones = [''x.com''], pi_MaxCertificates = 10,
       pi_Existing = [], pi_Grouping = ''PerWildcard'', pi_IssueZoneWildcards = False\<rparr> =
     Inl (Errorf ''deriving name from %q: %w''
        [AStr ''*.b_c.x.com'',
         AErr (Errorf ''%w: %q may only contain letters, digits and hyphens''
            [AErr (EDomain ErrInvalidVaultName), AStr ''wildcard-b_c-x-com''])])"
  by code_simp

section \<open>Names\<close>

text \<open>
  After name collisions are resolved the certificates have distinct names, provided that
  the short digests of their subject names differ and that no derived name already ends in one
  of these digests; and nothing but names has changed.
\<close>
theorem resolveNameCollisions_distinct:
  assumes "collision_free P certs"
  shows "distinct (map cr_Name (resolveNameCollisions P certs)) \<and>
         map cr_DNSNames (resolveNameCollisions P certs) = map cr_DNSNames certs \<and>
         map cr_Zone (resolveNameCollisions P certs) = map cr_Zone certs"
  using collision_loop_distinct [of P certs "[]"] assms
  by (simp add: resolveNameCollisions_def collision_loop_parts collision_free_def list_all_iff)

text \<open>Two zones that flatten to one name: \<open>a.b-c.com\<close> and \<open>a-b.c.com\<close>.\<close>

definition twins :: "certificate_request list" where
  "twins = [\<lparr>cr_Name = ''a-b-c-com'', cr_Zone = ''b-c.com'', cr_DNSNames = [''a.b-c.com'']\<rparr>,
            \<lparr>cr_Name = ''a-b-c-com'', cr_Zone = ''c.com'', cr_DNSNames = [''a-b.c.com'']\<rparr>]"

lemma resolveNameCollisions_distinct_witness:
  "distinct (map cr_Name (resolveNameCollisions sample_platform twins))"
proof -
  have "collision_free sample_platform twins" by code_simp
  from resolveNameCollisions_distinct [OF this] show ?thesis by (rule conjunct1)
qed

lemma SplitListenerHostnames_groups:
  "concat (SplitListenerHostnames names) = names \<and>
   list_all (\<lambda>g. 0 < length g \<and> length g \<le> MaxListenerHostnames) (SplitListenerHostnames names) \<and>
   length (SplitListenerHostnames names) = (length names + 4) div 5"
proof (induction names rule: SplitListenerHostnames.induct)
  case (2 n names)
  have "(length (n # names) + 4) div 5 = Suc ((length (n # names) - 5 + 4) div 5)"
    unfolding list.size by presburger
  with 2 show ?case by (simp add: MaxListenerHostnames_def del: take_Suc_Cons drop_Suc_Cons)
qed simp

lemma listener_groups:
  "concat (SplitListenerHostnames names) = names"
  "g \<in> set (SplitListenerHostnames names) \<Longrightarrow> Suc 0 \<le> length g \<and> length g \<le> 5"
  using SplitListenerHostnames_groups [of names]
  by (auto simp: list_all_iff MaxListenerHostnames_def Suc_le_eq)

text \<open>
  Splitting the names of a certificate over listeners loses and reorders nothing, makes no
  empty group and none above the limit of five, and makes as few groups as that allows.
\<close>
theorem SplitListenerHostnames_spec:
  "concat (SplitListenerHostnames names) = names \<and>
   list_all (\<lambda>g. 0 < length g \<and> length g \<le> MaxListenerHostnames) (SplitListenerHostnames names) \<and>
   length (SplitListenerHostnames names) = (length names + 4) div 5"
  by (rule SplitListenerHostnames_groups)

end
