(* ===== verification/Planner.thy ===== *)
theory Planner
  imports Ports WildcardProps
begin

text \<open>
  The planning use case (\<open>internal/app/planner.go\<close>): discovery, the wildcard plan, and what an
  operator needs to wire each certificate to a listener.
\<close>

section \<open>Data\<close>

record policy_spec =
  ps_Zones :: "string list"
  ps_MaxCertificates :: int
  ps_Existing :: "string list"
  ps_Grouping :: string
  ps_IssueZoneWildcards :: bool
  ps_VaultURL :: string

text \<open>\<open>DesiredCertificate\<close> embeds a \<open>CertificateRequest\<close>: the record extends it.\<close>

record desired_certificate = certificate_request +
  ds_SecretName :: string
  ds_SecretIdentifier :: string
  ds_Listeners :: "string list list"

record desired_state =
  st_Certificates :: "desired_certificate list"
  st_Skipped :: "skipped_host list"
  st_DiscoveredHosts :: "string list"

section \<open>Operations\<close>

definition desired_of :: "string \<Rightarrow> certificate_request \<Rightarrow> desired_certificate" where
  "desired_of vaultURL cert =
     \<lparr> cr_Name = cr_Name cert, cr_Zone = cr_Zone cert, cr_DNSNames = cr_DNSNames cert,
       ds_SecretName = cr_Name cert @ ''-tls'',
       ds_SecretIdentifier = SecretIdentifier \<lparr>vr_VaultURL = vaultURL, vr_CertificateName = cr_Name cert\<rparr>,
       ds_Listeners = SplitListenerHostnames (cr_DNSNames cert) \<rparr>"

definition input_of :: "policy_spec \<Rightarrow> string list \<Rightarrow> plan_input" where
  "input_of spec hosts =
     \<lparr> pi_Hosts = hosts, pi_Zones = ps_Zones spec, pi_MaxCertificates = ps_MaxCertificates spec,
       pi_Existing = ps_Existing spec, pi_Grouping = ps_Grouping spec,
       pi_IssueZoneWildcards = ps_IssueZoneWildcards spec \<rparr>"

definition PlanState :: "platform \<Rightarrow> 'w host_source \<Rightarrow> policy_spec \<Rightarrow> ('w, desired_state) io" where
  "PlanState P source spec =
     io_bind (io_wrap (\<lambda>err. Errorf ''discovering hostnames: %w'' [AErr err]) source) (\<lambda>hosts.
     io_bind (io_lift (BuildPlan P (input_of spec hosts))) (\<lambda>p.
       io_return
         \<lparr> st_Certificates = map (desired_of (ps_VaultURL spec)) (pl_Certificates p),
           st_Skipped = pl_Skipped p, st_DiscoveredHosts = hosts \<rparr>))"

lemma PlanState_InrE:
  assumes "PlanState P source spec w = (Inr st, w')"
  obtains hosts p where "source w = (Inr hosts, w')" and "BuildPlan P (input_of spec hosts) = Inr p"
    and "st_Certificates st = map (desired_of (ps_VaultURL spec)) (pl_Certificates p)"
    and "st_Skipped st = pl_Skipped p" and "st_DiscoveredHosts st = hosts"
  using assms by (auto simp: PlanState_def io_Inr_iffs)

section \<open>Over any source of hosts\<close>

context host_contract
begin

text \<open>Every routed host ends up covered by a desired certificate, or reported.\<close>

lemma planner_complete:
  assumes "PlanState P source spec w = (Inr st, w')" and "h \<in> routed w"
    and "NormalizeHost P h \<noteq> []" and "\<not> HasPrefix (NormalizeHost P h) ''.''" and "h \<noteq> []"
  shows "(\<exists>c \<in> set (st_Certificates st). \<exists>n \<in> set (cr_DNSNames c). covers n (NormalizeHost P h)) \<or>
         (\<exists>s \<in> set (st_Skipped st). sk_Host s = NormalizeHost P h \<or>
            sk_Reason s = ReasonMaxCertificates \<and> covers (sk_Host s) (NormalizeHost P h))"
proof -
  obtain hosts p where s: "source w = (Inr hosts, w')" "BuildPlan P (input_of spec hosts) = Inr p"
    "st_Certificates st = map (desired_of (ps_VaultURL spec)) (pl_Certificates p)" "st_Skipped st = pl_Skipped p"
    by (rule PlanState_InrE [OF assms(1)])
  have "h \<in> set (pi_Hosts (input_of spec hosts))"
    using hosts_exact [OF s(1)] assms(2,5) by (simp add: input_of_def)
  from BuildPlan_host_found [OF s(2) this assms(3,4)] show ?thesis
    by (simp add: s(3,4) desired_of_def)
qed

text \<open>The discovered hosts in the state are the routed ones, in order and without repetition.\<close>

lemma planner_hosts:
  "PlanState P source spec w = (Inr st, w') \<Longrightarrow>
     sorted (st_DiscoveredHosts st) \<and> distinct (st_DiscoveredHosts st) \<and>
     set (st_DiscoveredHosts st) = routed w - {[]}"
  using hosts_exact by (auto elim!: PlanState_InrE)

end

section \<open>Property\<close>

text \<open>The versionless identifier of a secret.\<close>

lemma SecretIdentifier_slash:
  "SecretIdentifier \<lparr>vr_VaultURL = u @ ''/'', vr_CertificateName = n\<rparr> =
   SecretIdentifier \<lparr>vr_VaultURL = u, vr_CertificateName = n\<rparr>" if "\<not> HasSuffix u ''/''"
  using that by (simp add: SecretIdentifier_def TrimSuffix_def HasSuffix_iff)

text \<open>
  The desired state that planning returns lists for each certificate the Secret and the
  versionless Key Vault identifier named after it, and listener groups that together serve
  exactly its subject names, in order, each within the limit of a listener; a failing discovery
  leaves no state but its error, wrapped.
\<close>
theorem PlanState_guidance:
  "case PlanState P source spec w of
     (Inr st, w') \<Rightarrow>
       source w = (Inr (st_DiscoveredHosts st), w') \<and>
       list_all (\<lambda>c. ds_SecretName c = cr_Name c @ ''-tls'' \<and>
           ds_SecretIdentifier c = TrimSuffix (ps_VaultURL spec) ''/'' @ ''/secrets/'' @ cr_Name c \<and>
           concat (ds_Listeners c) = cr_DNSNames c \<and> cr_DNSNames c \<noteq> [] \<and>
           list_all (\<lambda>g. 1 \<le> length g \<and> length g \<le> 5) (ds_Listeners c)) (st_Certificates st)
   | (Inl e, w') \<Rightarrow>
       (case source w of
          (Inl err, w1) \<Rightarrow> w' = w1 \<and> e = Errorf ''discovering hostnames: %w'' [AErr err]
        | (Inr hosts, w1) \<Rightarrow> w' = w1 \<and> BuildPlan P (input_of spec hosts) = Inl e)"
proof (cases "PlanState P source spec w")
  case (Pair r w')
  show ?thesis
  proof (cases r)
    case (Inr st)
    obtain hosts p where s: "source w = (Inr hosts, w')" "BuildPlan P (input_of spec hosts) = Inr p"
      "st_Certificates st = map (desired_of (ps_VaultURL spec)) (pl_Certificates p)" "st_DiscoveredHosts st = hosts"
      using Pair Inr by (auto elim: PlanState_InrE)
    have "list_all (\<lambda>c. cr_DNSNames c \<noteq> []) (pl_Certificates p)"
      using plan_names_nonempty [OF s(2)] .
    then show ?thesis
      using s Pair Inr listener_groups by (auto simp: list_all_iff desired_of_def SecretIdentifier_def)
  next
    case (Inl e)
    with Pair show ?thesis
      by (auto simp: PlanState_def io_simps split: prod.splits sum.splits)
  qed
qed

end
