(* ===== verification/PolicyController.thy ===== *)
theory PolicyController
  imports SyncController CertManager Planner
begin

text \<open>
  The controller of WildcardCertificatePolicy
  (\<open>internal/controller/wildcardpolicy_controller.go\<close>). Logging is left out, as in the sync
  controller.
\<close>

section \<open>The reconciler\<close>

definition maxReportedSkippedHosts :: nat where "maxReportedSkippedHosts = 50"
definition maxReportedListeners :: nat where "maxReportedListeners = 100"
definition maxReportedDNSNames :: nat where "maxReportedDNSNames = 100"

definition DefaultDiscoveryInterval :: duration where
  "DefaultDiscoveryInterval = 10 * Minute"

record 'w policy_reconciler =
  pr_Client :: "'w kube_client"
  pr_Recorder :: "'w recorder option"
  pr_Certificates :: "'w certificate_writer"
  pr_Clock :: "'w clock"
  pr_HTTPRoutesAvailable :: bool
  pr_GatewaysAvailable :: bool
  pr_Cloud :: cloud
  pr_AllowedVaults :: vault_allowlist
  pr_Rand :: "int \<Rightarrow> 'w \<Rightarrow> int \<times> 'w"
  pr_Metrics :: "(metrics \<Rightarrow> metrics) \<Rightarrow> 'w \<Rightarrow> 'w"

section \<open>Small functions\<close>

definition namespaceSelector :: "discovery_spec option \<Rightarrow> label_selector option" where
  "namespaceSelector discovery = (case discovery of None \<Rightarrow> None | Some d \<Rightarrow> dv_NamespaceSelector d)"

definition explicitlyEnabled :: "discovery_spec option \<Rightarrow> (discovery_spec \<Rightarrow> bool option) \<Rightarrow> bool" where
  "explicitlyEnabled discovery pick =
     (case discovery of
        None \<Rightarrow> False
      | Some d \<Rightarrow> (case pick d of None \<Rightarrow> False | Some value \<Rightarrow> value))"

definition enabled :: "discovery_spec option \<Rightarrow> (discovery_spec \<Rightarrow> bool option) \<Rightarrow> bool" where
  "enabled discovery pick =
     (case discovery of
        None \<Rightarrow> True
      | Some d \<Rightarrow> (case pick d of None \<Rightarrow> True | Some value \<Rightarrow> value))"

definition truncate_list :: "'a list \<Rightarrow> nat \<Rightarrow> 'a list" where
  "truncate_list items mx = (if length items \<le> mx then items else take mx items)"

definition orphanVerb :: "string \<Rightarrow> string" where
  "orphanVerb policy =
     (if policy = OrphanPrune then ''pruned'' else ''retained (the Key Vault certificate is never deleted)'')"

text \<open>\<open>SelectorFrom\<close> of \<open>internal/infra/kube/hostsource.go\<close>.\<close>

definition SelectorFrom :: "machinery \<Rightarrow> label_selector option \<Rightarrow> selector option go_result" where
  "SelectorFrom M sel =
     (case sel of
        None \<Rightarrow> Inr None
      | Some s \<Rightarrow> (case mc_LabelSelectorAsSelector M s of
                     Inl err \<Rightarrow> Inl (Errorf ''parsing namespace selector: %w'' [AErr err])
                   | Inr parsed \<Rightarrow> Inr (Some parsed)))"

section \<open>Planning\<close>

definition generatedCertificateNames :: "'w policy_reconciler \<Rightarrow> wildcard_policy \<Rightarrow> ('w, string list) io" where
  "generatedCertificateNames R policy =
     io_bind (io_wrap (\<lambda>err. Errorf ''listing generated sync resources: %w'' [AErr err])
                (list_syncs (pr_Client R) (pc_CertificateNamespace (wp_Spec policy))
                   (MatchingLabels [(LabelPolicy, om_Name (wp_Meta policy))])))
       (\<lambda>syncs. io_return (map (\<lambda>s. om_Name (sc_Meta s)) syncs))"

definition discovery_config :: "'w policy_reconciler \<Rightarrow> wildcard_policy \<Rightarrow> selector option \<Rightarrow> host_source_config" where
  "discovery_config R policy sel =
     (let discovery = pc_Discovery (wp_Spec policy) in
      \<lparr> hc_IncludeIngress = enabled discovery dv_Ingress,
        hc_IncludeHTTPRoutes = (pr_HTTPRoutesAvailable R \<and> enabled discovery dv_HTTPRoutes),
        hc_IncludeGateways = (pr_GatewaysAvailable R \<and> enabled discovery dv_Gateways),
        hc_NamespaceSelector = sel \<rparr>)"

definition policy_plan :: "library \<Rightarrow> 'w policy_reconciler \<Rightarrow> wildcard_policy \<Rightarrow> string list \<Rightarrow> ('w, desired_state) io" where
  "policy_plan G R policy existing =
     io_bind (io_lift (vault_url_of G (pr_AllowedVaults R) (pr_Cloud R) (pc_KeyVault (wp_Spec policy)))) (\<lambda>vaultURL.
     io_bind (io_wrap (\<lambda>err. Errorf ''%w: %w'' [AErr (EDomain ErrInvalidZone), AErr err])
                (io_lift (SelectorFrom (lb_Machinery G) (namespaceSelector (pc_Discovery (wp_Spec policy)))))) (\<lambda>sel.
     PlanState (lb_Platform G)
       (HostSource_Hosts (cl_Reader (pr_Client R)) (discovery_config R policy sel))
       \<lparr> ps_Zones = pc_Zones (wp_Spec policy), ps_MaxCertificates = pc_MaxCertificates (wp_Spec policy),
         ps_Existing = existing, ps_Grouping = pc_Grouping (wp_Spec policy),
         ps_IssueZoneWildcards = pc_IssueZoneWildcards (wp_Spec policy), ps_VaultURL = vaultURL \<rparr>))"

section \<open>Applying a plan\<close>

definition desired_sync_state ::
  "machinery \<Rightarrow> wildcard_policy \<Rightarrow> desired_certificate \<Rightarrow> cert_sync \<Rightarrow> cert_sync go_result" where
  "desired_sync_state M policy cert sync =
     (let labels = AList.update LabelCertificate (cr_Name cert)
                     (AList.update LabelPolicy (om_Name (wp_Meta policy)) (om_Labels (sc_Meta sync)));
          meta = (sc_Meta sync)\<lparr>om_Labels := labels\<rparr>;
          spec = \<lparr> cx_Source = \<lparr>sx_SecretRef = \<lparr>lr_Name = ds_SecretName cert\<rparr>\<rparr>,
                   cx_KeyVault = (pc_KeyVault (wp_Spec policy))\<lparr>kv_CertificateName := cr_Name cert\<rparr>,
                   cx_SyncPolicy = pc_SyncPolicy (wp_Spec policy) \<rparr> in
      case mc_SetControllerReference M (wp_Meta policy) meta of
        Inl err \<Rightarrow> Inl err
      | Inr m \<Rightarrow> Inr (sync\<lparr>sc_Meta := m, sc_Spec := spec\<rparr>))"

definition ensureSync :: "library \<Rightarrow> 'w policy_reconciler \<Rightarrow> wildcard_policy \<Rightarrow> desired_certificate \<Rightarrow> ('w, unit) io" where
  "ensureSync G R policy cert =
     io_wrap (\<lambda>err. Errorf ''ensuring sync resource %s/%s: %w''
                [AStr (pc_CertificateNamespace (wp_Spec policy)), AStr (cr_Name cert), AErr err])
       (upsert_sync (pr_Client R) (named_sync (pc_CertificateNamespace (wp_Spec policy)) (cr_Name cert))
          (desired_sync_state (lb_Machinery G) policy cert))"

definition certificate_request_of :: "wildcard_policy \<Rightarrow> desired_certificate \<Rightarrow> cm_request" where
  "certificate_request_of policy cert =
     \<lparr> cq_Name = cr_Name cert, cq_Namespace = pc_CertificateNamespace (wp_Spec policy),
       cq_SecretName = ds_SecretName cert, cq_DNSNames = cr_DNSNames cert,
       cq_IssuerRef = pc_IssuerRef (wp_Spec policy), cq_PolicyName = om_Name (wp_Meta policy) \<rparr>"

definition policy_apply :: "library \<Rightarrow> 'w policy_reconciler \<Rightarrow> wildcard_policy \<Rightarrow> desired_state \<Rightarrow> ('w, unit) io" where
  "policy_apply G R policy st =
     io_iterate (\<lambda>cert.
       io_bind (EnsureCertificate (lb_Machinery G) (pr_Certificates R) (wp_Meta policy)
                  (certificate_request_of policy cert))
         (\<lambda>_. ensureSync G R policy cert)) (st_Certificates st)"

section \<open>Orphans\<close>

definition pruneWithheldReason :: "'w policy_reconciler \<Rightarrow> wildcard_policy \<Rightarrow> desired_state \<Rightarrow> string" where
  "pruneWithheldReason R policy st =
     (let discovery = pc_Discovery (wp_Spec policy) in
      if pc_OrphanPolicy (wp_Spec policy) \<noteq> OrphanPrune then []
      else if st_Certificates st = []
      then ''the discovery pass planned no certificates at all, which cannot be told apart '' @
           ''from a misconfiguration; set issueZoneWildcards to make the plan independent of discovery''
      else if \<not> pr_HTTPRoutesAvailable R \<and> explicitlyEnabled discovery dv_HTTPRoutes
      then ''discovery.httpRoutes is enabled but the Gateway API CRDs were absent when the operator started, '' @
           ''so the discovered set is incomplete''
      else if \<not> pr_GatewaysAvailable R \<and> explicitlyEnabled discovery dv_Gateways
      then ''discovery.gateways is enabled but the Gateway API CRDs were absent when the operator started, '' @
           ''so the discovered set is incomplete''
      else [])"

text \<open>\<open>err != nil && client.IgnoreNotFound(err) != nil\<close>: a resource that is already gone is no failure.\<close>

definition prune_item :: "string \<Rightarrow> string \<Rightarrow> ('w, unit) io \<Rightarrow> ('w, unit) io" where
  "prune_item what name delete =
     io_case delete
       (\<lambda>err. case IgnoreNotFound err of
                Inr _ \<Rightarrow> io_return ()
              | Inl err \<Rightarrow> io_fail (Errorf (''pruning '' @ what @ '' %s: %w'') [AStr name, AErr err]))
       io_return"

definition handleOrphans ::
  "'w policy_reconciler \<Rightarrow> wildcard_policy \<Rightarrow> desired_state \<Rightarrow> ('w, nat \<times> string) io" where
  "handleOrphans R policy st =
     (let wanted = map cr_Name (st_Certificates st);
          withheld = pruneWithheldReason R policy st;
          pruning = (pc_OrphanPolicy (wp_Spec policy) = OrphanPrune \<and> withheld = []);
          sel = MatchingLabels [(LabelPolicy, om_Name (wp_Meta policy))];
          ns = pc_CertificateNamespace (wp_Spec policy) in
      io_bind (io_wrap (\<lambda>err. Errorf ''listing generated sync resources: %w'' [AErr err])
                 (list_syncs (pr_Client R) ns sel)) (\<lambda>syncs.
      let stale = filter (\<lambda>s. om_Name (sc_Meta s) \<notin> set wanted) syncs;
          orphans = length stale in
      io_bind (if pruning
               then io_iterate (\<lambda>s. prune_item ''sync resource'' (om_Name (sc_Meta s)) (delete_sync (pr_Client R) s)) stale
               else io_return ()) (\<lambda>_.
      io_bind (if pruning
               then io_bind (io_wrap (\<lambda>err. Errorf ''listing generated certificates: %w'' [AErr err])
                               (list_certificates (pr_Client R) ns sel)) (\<lambda>certs.
                    io_iterate (\<lambda>c. prune_item ''certificate'' (om_Name (cm_Meta c)) (delete_certificate (pr_Client R) c))
                      (filter (\<lambda>c. om_Name (cm_Meta c) \<notin> set wanted) certs))
               else io_return ()) (\<lambda>_.
      io_return (orphans, if orphans = 0 then [] else withheld)))))"

section \<open>The plan in the status\<close>

text \<open>The conversion \<open>int32(n)\<close> wraps.\<close>

definition int32 :: "nat \<Rightarrow> int" where
  "int32 n = (int n + 2 ^ 31) mod 2 ^ 32 - 2 ^ 31"

definition planned_of :: "desired_certificate \<Rightarrow> planned_certificate" where
  "planned_of cert =
     \<lparr> pn_Name = cr_Name cert, pn_Zone = cr_Zone cert,
       pn_DNSNames = truncate_list (cr_DNSNames cert) maxReportedDNSNames,
       pn_SecretName = ds_SecretName cert, pn_SecretIdentifier = ds_SecretIdentifier cert \<rparr>"

text \<open>The loop over the groups of one certificate: all are counted, and listed while there is room.\<close>

fun listener_loop :: "string \<Rightarrow> string list list \<Rightarrow> listener_guidance list \<times> nat \<Rightarrow> listener_guidance list \<times> nat" where
  "listener_loop ident [] acc = acc"
| "listener_loop ident (hosts # rest) (listeners, listenerCount) =
     listener_loop ident rest
       (if length listeners \<ge> maxReportedListeners then listeners
        else listeners @ [\<lparr>lg_Hostnames = hosts, lg_KeyVaultSecretID = ident\<rparr>],
        Suc listenerCount)"

definition plan_status :: "wildcard_policy \<Rightarrow> desired_state \<Rightarrow> time \<Rightarrow> policy_cr_status" where
  "plan_status policy st now =
     (let (listeners, listenerCount) =
            fold (\<lambda>cert. listener_loop (ds_SecretIdentifier cert) (ds_Listeners cert)) (st_Certificates st) ([], 0) in
      (wp_Status policy)
        \<lparr> pt_ObservedGeneration := om_Generation (wp_Meta policy),
          pt_DiscoveredHosts := int32 (length (st_DiscoveredHosts st)),
          pt_SkippedHostCount := int32 (length (st_Skipped st)),
          pt_LastDiscoveryTime := Some now,
          pt_RequiredCertificateCount := int32 (length (st_Certificates st)),
          pt_RequiredCertificates := map planned_of (st_Certificates st),
          pt_ApplicationGateway := Some \<lparr>gg_Listeners = listeners, gg_ListenerCount = int32 listenerCount\<rparr>,
          pt_SkippedHosts := map (\<lambda>host. \<lparr>hs_Host = sk_Host host, hs_Reason = sk_Reason host\<rparr>)
            (truncate_list (st_Skipped st) maxReportedSkippedHosts) \<rparr>)"

definition recordPlan :: "'w policy_reconciler \<Rightarrow> wildcard_policy \<Rightarrow> desired_state \<Rightarrow> ('w, wildcard_policy) io" where
  "recordPlan R policy st =
     io_bind (io_effect (pr_Clock R)) (\<lambda>now.
     io_bind (io_do (pr_Metrics R (\<lambda>m. m
       \<lparr> mt_certificatesRequired := AList.update (om_Name (wp_Meta policy)) (length (st_Certificates st)) (mt_certificatesRequired m),
         mt_hostsSkipped := AList.update (om_Name (wp_Meta policy)) (length (st_Skipped st)) (mt_hostsSkipped m) \<rparr>))) (\<lambda>_.
     io_return (policy\<lparr>wp_Status := plan_status policy st now\<rparr>)))"

section \<open>Reconciliation\<close>

definition with_conditions :: "(condition list \<Rightarrow> condition list) \<Rightarrow> wildcard_policy \<Rightarrow> wildcard_policy" where
  "with_conditions f policy =
     policy\<lparr>wp_Status := (wp_Status policy)\<lparr>pt_Conditions := f (pt_Conditions (wp_Status policy))\<rparr>\<rparr>"

abbreviation policy_event :: "'w policy_reconciler \<Rightarrow> wildcard_policy \<Rightarrow> string \<Rightarrow> string \<Rightarrow> string \<Rightarrow> ('w, unit) io" where
  "policy_event R policy \<equiv> record_event (pr_Recorder R) (wp_Meta policy) EventTypeWarning"

definition policy_finalize :: "library \<Rightarrow> 'w policy_reconciler \<Rightarrow> wildcard_policy \<Rightarrow> ('w, ctrl_result) io" where
  "policy_finalize G R policy =
     (let (finalizers, removed) = mc_RemoveFinalizer (lb_Machinery G) FinalizerName (om_Finalizers (wp_Meta policy));
          released = policy\<lparr>wp_Meta := (wp_Meta policy)\<lparr>om_Finalizers := finalizers\<rparr>\<rparr> in
      io_bind (if removed
               then io_wrap (\<lambda>err. Errorf ''removing finalizer: %w'' [AErr err]) (update_policy (pr_Client R) released)
               else io_return policy) (\<lambda>policy.
      io_bind (io_do (pr_Metrics R (\<lambda>m. m
        \<lparr> mt_certificatesRequired := AList.delete (om_Name (wp_Meta policy)) (mt_certificatesRequired m),
          mt_hostsSkipped := AList.delete (om_Name (wp_Meta policy)) (mt_hostsSkipped m) \<rparr>))) (\<lambda>_.
      io_return no_requeue)))"

definition policy_add_finalizer :: "library \<Rightarrow> 'w policy_reconciler \<Rightarrow> wildcard_policy \<Rightarrow> ('w, wildcard_policy) io" where
  "policy_add_finalizer G R policy =
     (let (finalizers, added) = mc_AddFinalizer (lb_Machinery G) FinalizerName (om_Finalizers (wp_Meta policy)) in
      if added
      then io_wrap (\<lambda>err. Errorf ''adding finalizer: %w'' [AErr err])
             (update_policy (pr_Client R) (policy\<lparr>wp_Meta := (wp_Meta policy)\<lparr>om_Finalizers := finalizers\<rparr>\<rparr>))
      else io_return policy)"

abbreviation policy_status :: "'w policy_reconciler \<Rightarrow> wildcard_policy \<Rightarrow> ('w, unit) io" where
  "policy_status R \<equiv> updateStatus (update_policy_status (pr_Client R))"

definition discovery_failed :: "library \<Rightarrow> 'w policy_reconciler \<Rightarrow> wildcard_policy \<Rightarrow> go_error \<Rightarrow> ('w, ctrl_result) io" where
  "discovery_failed G R policy err =
     (let (reason, retryable) = classify err; text = error_text (lb_Platform G) err;
          M = lb_Machinery G; g = om_Generation (wp_Meta policy);
          policy = with_conditions (\<lambda>cs. setFalse M ConditionReady reason text g
                     (setFalse M ConditionDiscovered ReasonDiscoveryFailed text g cs)) policy in
      io_bind (policy_event R policy ReasonDiscoveryFailed ''Discover'' text) (\<lambda>_.
      io_bind (policy_status R policy) (\<lambda>_.
      if retryable then io_fail err else requeue_jittered (pr_Rand R) DefaultDiscoveryInterval)))"

definition cert_manager_missing :: string where
  "cert_manager_missing =
     ''the cert-manager Certificate CRD is not installed, so no certificates can be issued; '' @
     ''status.requiredCertificates still reports what this policy would create''"

definition issue_degraded :: "library \<Rightarrow> 'w policy_reconciler \<Rightarrow> wildcard_policy \<Rightarrow> ('w, ctrl_result) io" where
  "issue_degraded G R policy =
     (let M = lb_Machinery G; g = om_Generation (wp_Meta policy); msg = cert_manager_missing;
          policy = with_conditions (\<lambda>cs. setFalse M ConditionReady ReasonCertManagerMissing msg g
                     (setFalse M ConditionCertManagerAvailable ReasonCertManagerMissing msg g cs)) policy in
      io_bind (policy_event R policy ReasonCertManagerMissing ''Issue'' msg) (\<lambda>_.
      io_bind (policy_status R policy) (\<lambda>_.
      requeue_jittered (pr_Rand R) DefaultDiscoveryInterval)))"

definition issuance_failed :: "library \<Rightarrow> 'w policy_reconciler \<Rightarrow> wildcard_policy \<Rightarrow> go_error \<Rightarrow> ('w, ctrl_result) io" where
  "issuance_failed G R policy err =
     (let text = error_text (lb_Platform G) err;
          policy = with_conditions (setFalse (lb_Machinery G) ConditionReady ReasonIssuanceFailed text
                     (om_Generation (wp_Meta policy))) policy in
      io_bind (policy_event R policy ReasonIssuanceFailed ''Issue'' text) (\<lambda>_.
      io_bind (policy_status R policy) (\<lambda>_.
      io_fail err)))"

definition summary_message :: "wildcard_policy \<Rightarrow> desired_state \<Rightarrow> nat \<Rightarrow> string \<Rightarrow> string" where
  "summary_message policy st orphans withheld =
     nat_decimal (length (st_Certificates st)) @ '' certificate(s) required from '' @
     nat_decimal (length (st_DiscoveredHosts st)) @ '' discovered hostname(s)'' @
     (if orphans > 0
      then ''; '' @ nat_decimal orphans @ '' no longer required and '' @
           (if withheld \<noteq> [] then ''retained despite orphanPolicy: Prune''
            else orphanVerb (pc_OrphanPolicy (wp_Spec policy)))
      else [])"

definition policy_done :: "library \<Rightarrow> 'w policy_reconciler \<Rightarrow> wildcard_policy \<Rightarrow> desired_state \<Rightarrow> nat \<Rightarrow> string \<Rightarrow> ('w, ctrl_result) io" where
  "policy_done G R policy st orphans withheld =
     (let M = lb_Machinery G; g = om_Generation (wp_Meta policy);
          message = summary_message policy st orphans withheld;
          policy = with_conditions (setTrue M ConditionDiscovered ReasonSynced message g) policy in
      if withheld \<noteq> []
      then
        let withheldMsg = message @ ''; '' @ nat_decimal orphans @
              '' orphaned resource(s) were kept rather than deleted because '' @ withheld;
            policy = with_conditions (setFalse M ConditionReady ReasonPruneWithheld withheldMsg g) policy in
        io_bind (policy_event R policy ReasonPruneWithheld ''Prune'' withheldMsg) (\<lambda>_.
        io_bind (policy_status R policy) (\<lambda>_.
        requeue_jittered (pr_Rand R) DefaultDiscoveryInterval))
      else
        let policy = with_conditions (setTrue M ConditionReady ReasonSynced message g) policy in
        io_bind (policy_status R policy) (\<lambda>_.
        requeue_jittered (pr_Rand R) DefaultDiscoveryInterval))"

definition policy_issue :: "library \<Rightarrow> 'w policy_reconciler \<Rightarrow> wildcard_policy \<Rightarrow> desired_state \<Rightarrow> ('w, ctrl_result) io" where
  "policy_issue G R policy st =
     (let policy = with_conditions (setTrue (lb_Machinery G) ConditionCertManagerAvailable ReasonCertManagerFound
                     ''cert-manager is installed'' (om_Generation (wp_Meta policy))) policy in
      io_case (policy_apply G R policy st)
        (issuance_failed G R policy)
        (\<lambda>_. io_bind (handleOrphans R policy st) (\<lambda>(orphans, withheld).
              policy_done G R policy st orphans withheld)))"

definition policy_planned :: "library \<Rightarrow> 'w policy_reconciler \<Rightarrow> wildcard_policy \<Rightarrow> desired_state \<Rightarrow> ('w, ctrl_result) io" where
  "policy_planned G R policy st =
     io_bind (recordPlan R policy st) (\<lambda>policy.
     io_case (Available (lb_Machinery G) (pr_Certificates R))
       (\<lambda>err. io_bind (policy_status R policy) (\<lambda>_. io_fail err))
       (\<lambda>available. if \<not> available then issue_degraded G R policy else policy_issue G R policy st))"

definition policy_live :: "library \<Rightarrow> 'w policy_reconciler \<Rightarrow> wildcard_policy \<Rightarrow> ('w, ctrl_result) io" where
  "policy_live G R policy =
     io_bind (policy_add_finalizer G R policy) (\<lambda>policy.
     io_bind (generatedCertificateNames R policy) (\<lambda>existing.
     io_case (policy_plan G R policy existing)
       (discovery_failed G R policy)
       (policy_planned G R policy)))"

definition policy_Reconcile :: "library \<Rightarrow> 'w policy_reconciler \<Rightarrow> object_key \<Rightarrow> ('w, ctrl_result) io" where
  "policy_Reconcile G R key =
     io_case (get_policy (pr_Client R) key)
       (\<lambda>err. io_bind (io_lift (IgnoreNotFound err)) (\<lambda>_. io_return no_requeue))
       (\<lambda>policy.
         if deletion_requested (wp_Meta policy) then policy_finalize G R policy
         else policy_live G R policy)"

section \<open>Watches\<close>

definition enqueueAllPolicies :: "'w policy_reconciler \<Rightarrow> ('w, object_key list) io" where
  "enqueueAllPolicies R =
     io_case (list_policies (pr_Client R))
       (\<lambda>err. io_return [])
       (\<lambda>items. io_return (map (\<lambda>p. key_of (wp_Meta p)) items))"

end
