(* ===== verification/ApiServer.thy ===== *)
theory ApiServer
  imports Conditions CertManager
begin

text \<open>
  The contract of the Kubernetes API for the resources that a policy generates, and an API
  server in memory that provides it: objects by their keys, deletion that waits for finalizers,
  a status that only the status calls change. Examples run against this server.
\<close>

section \<open>The contract\<close>

text \<open>
  Over views of the stored resources by their keys: a list returns exactly the objects of the
  namespace that carry the label; a delete affects its object only, which afterwards is gone or
  waits for its finalizers, and an object that is not found is not there; an upsert stores what
  the closure makes of the present object, or of the initial one, up to what the server maintains
  itself. Calls that fail change nothing.
\<close>

definition terminating :: "object_meta option \<Rightarrow> bool" where
  "terminating om = (case om of None \<Rightarrow> True | Some m \<Rightarrow> deletion_requested m)"

definition labelled :: "string \<Rightarrow> string \<Rightarrow> string \<Rightarrow> object_meta \<Rightarrow> bool" where
  "labelled ns l v m \<longleftrightarrow> om_Namespace m = ns \<and> map_of (om_Labels m) l = Some v"

locale generated_contract =
  fixes C :: "'w kube_client"
    and syncs :: "'w \<Rightarrow> object_key \<Rightarrow> cert_sync option"
    and certs :: "'w \<Rightarrow> object_key \<Rightarrow> cm_certificate option"
  assumes sync_key: "syncs w k = Some s \<Longrightarrow> key_of (sc_Meta s) = k"
    and cert_key: "certs w k = Some c \<Longrightarrow> key_of (cm_Meta c) = k"
    and list_syncs_law:
      "list_syncs C ns (MatchingLabels [(l, v)]) w = (r, w') \<Longrightarrow>
         syncs w' = syncs w \<and> certs w' = certs w \<and>
         (\<forall>items. r = Inr items \<longrightarrow> set items = {s. syncs w (key_of (sc_Meta s)) = Some s \<and> labelled ns l v (sc_Meta s)})"
    and list_certificates_law:
      "list_certificates C ns (MatchingLabels [(l, v)]) w = (r', w') \<Longrightarrow>
         syncs w' = syncs w \<and> certs w' = certs w \<and>
         (\<forall>items. r' = Inr items \<longrightarrow> set items = {c. certs w (key_of (cm_Meta c)) = Some c \<and> labelled ns l v (cm_Meta c)})"
    and delete_sync_law:
      "delete_sync C s w = (d, w') \<Longrightarrow>
         certs w' = certs w \<and> (\<forall>k. k \<noteq> key_of (sc_Meta s) \<longrightarrow> syncs w' k = syncs w k) \<and>
         (case d of Inr _ \<Rightarrow> terminating (map_option sc_Meta (syncs w' (key_of (sc_Meta s))))
          | Inl e \<Rightarrow> syncs w' = syncs w \<and> (IsNotFound e \<longrightarrow> syncs w (key_of (sc_Meta s)) = None))"
    and delete_certificate_law:
      "delete_certificate C c w = (d, w') \<Longrightarrow>
         syncs w' = syncs w \<and> (\<forall>k. k \<noteq> key_of (cm_Meta c) \<longrightarrow> certs w' k = certs w k) \<and>
         (case d of Inr _ \<Rightarrow> terminating (map_option cm_Meta (certs w' (key_of (cm_Meta c))))
          | Inl e \<Rightarrow> certs w' = certs w \<and> (IsNotFound e \<longrightarrow> certs w (key_of (cm_Meta c)) = None))"
    and upsert_sync_law:
      "upsert_sync C s0 f w = (d, w') \<Longrightarrow>
         (\<And>s s'. f s = Inr s' \<Longrightarrow> key_of (sc_Meta s') = key_of (sc_Meta s)) \<Longrightarrow>
         certs w' = certs w \<and>
         (case d of Inl e \<Rightarrow> syncs w' = syncs w
          | Inr _ \<Rightarrow> \<exists>s' s''. f (case syncs w (key_of (sc_Meta s0)) of None \<Rightarrow> s0 | Some s \<Rightarrow> s) = Inr s' \<and>
              syncs w' = (syncs w)(key_of (sc_Meta s0) \<mapsto> s'') \<and> sc_Spec s'' = sc_Spec s' \<and>
              om_Labels (sc_Meta s'') = om_Labels (sc_Meta s'))"
    and upsert_certificate_law:
      "upsert_certificate C c0 g w = (d, w') \<Longrightarrow>
         (\<And>c c'. g c = Inr c' \<Longrightarrow> key_of (cm_Meta c') = key_of (cm_Meta c)) \<Longrightarrow>
         syncs w' = syncs w \<and>
         (case d of Inl e \<Rightarrow> certs w' = certs w
          | Inr _ \<Rightarrow> \<exists>c'. g (case certs w (key_of (cm_Meta c0)) of None \<Rightarrow> c0 | Some c \<Rightarrow> c) = Inr c' \<and>
              certs w' = (certs w)(key_of (cm_Meta c0) \<mapsto> c'))"

section \<open>A collection of objects\<close>

text \<open>The object of a key is the first one with it; one that is hidden by another is no object.\<close>

definition lookup_obj :: "('o \<Rightarrow> object_key) \<Rightarrow> 'o list \<Rightarrow> object_key \<Rightarrow> 'o option" where
  "lookup_obj kf os k = find (\<lambda>ob. kf ob = k) os"

fun put_obj :: "('o \<Rightarrow> object_key) \<Rightarrow> 'o \<Rightarrow> 'o list \<Rightarrow> 'o list" where
  "put_obj kf x [] = [x]"
| "put_obj kf x (ob # os) = (if kf ob = kf x then x # os else ob # put_obj kf x os)"

definition remove_obj :: "('o \<Rightarrow> object_key) \<Rightarrow> object_key \<Rightarrow> 'o list \<Rightarrow> 'o list" where
  "remove_obj kf k os = filter (\<lambda>ob. kf ob \<noteq> k) os"

definition visible_objs :: "('o \<Rightarrow> object_key) \<Rightarrow> 'o list \<Rightarrow> 'o list" where
  "visible_objs kf os = filter (\<lambda>ob. lookup_obj kf os (kf ob) = Some ob) os"

lemma lookup_put: "lookup_obj kf (put_obj kf x os) = (lookup_obj kf os)(kf x \<mapsto> x)"
  by (induction os) (auto simp: lookup_obj_def fun_eq_iff)

lemma lookup_remove: "lookup_obj kf (remove_obj kf k os) = (lookup_obj kf os)(k := None)"
  by (induction os) (auto simp: lookup_obj_def remove_obj_def fun_eq_iff)

lemma lookup_key: "lookup_obj kf os k = Some ob \<Longrightarrow> kf ob = k \<and> ob \<in> set os"
  by (auto simp: lookup_obj_def find_Some_iff)

lemma set_visible: "set (visible_objs kf os) = {ob. lookup_obj kf os (kf ob) = Some ob}"
  by (auto simp: visible_objs_def dest: lookup_key)

section \<open>The server\<close>

record api_server =
  sv_Syncs :: "cert_sync list"
  sv_Policies :: "wildcard_policy list"
  sv_Certificates :: "cm_certificate list"
  sv_Cluster :: cluster
  sv_Metrics :: metrics
  sv_Events :: "(string \<times> string) list"

abbreviation "sync_key_of s \<equiv> key_of (sc_Meta s)"
abbreviation "policy_key_of p \<equiv> key_of (wp_Meta p)"
abbreviation "cert_key_of c \<equiv> key_of (cm_Meta c)"

definition not_found :: go_error where
  "not_found = EStatus StatusNotFound ''not found''"

definition matches :: "string \<Rightarrow> list_option \<Rightarrow> (string \<Rightarrow> string \<Rightarrow> bool) \<Rightarrow> object_meta \<Rightarrow> bool" where
  "matches ns sel field m =
     (om_Namespace m = ns \<and>
      (case sel of MatchingLabels ls \<Rightarrow> list_all (\<lambda>(l, v). map_of (om_Labels m) l = Some v) ls
       | MatchingFields fs \<Rightarrow> list_all (\<lambda>(f, v). field f v) fs))"

text \<open>The one index of the program: the name of the Secret.\<close>

definition sync_field :: "cert_sync \<Rightarrow> string \<Rightarrow> string \<Rightarrow> bool" where
  "sync_field s f v = (f = ''.spec.source.secretRef.name'' \<and> v \<noteq> [] \<and> lr_Name (sx_SecretRef (cx_Source (sc_Spec s))) = v)"

definition delete_meta :: "object_meta \<Rightarrow> object_meta option" where
  "delete_meta m = (if om_Finalizers m = [] then None else Some (m\<lparr>om_DeletionTimestamp := Some 1\<rparr>))"

definition memory_client :: "api_server kube_client" where
  "memory_client =
     \<lparr> cl_Reader = cluster_reader sv_Cluster,
       get_sync = (\<lambda>k w. case lookup_obj sync_key_of (sv_Syncs w) k of
          None \<Rightarrow> (Inl not_found, w) | Some s \<Rightarrow> (Inr s, w)),
       update_sync = (\<lambda>s w. case lookup_obj sync_key_of (sv_Syncs w) (sync_key_of s) of
          None \<Rightarrow> (Inl not_found, w)
        | Some old \<Rightarrow>
            let new = s\<lparr>sc_Status := sc_Status old\<rparr> in
            if deletion_requested (sc_Meta new) \<and> om_Finalizers (sc_Meta new) = []
            then (Inr new, w\<lparr>sv_Syncs := remove_obj sync_key_of (sync_key_of s) (sv_Syncs w)\<rparr>)
            else (Inr new, w\<lparr>sv_Syncs := put_obj sync_key_of new (sv_Syncs w)\<rparr>)),
       update_sync_status = (\<lambda>s w. case lookup_obj sync_key_of (sv_Syncs w) (sync_key_of s) of
          None \<Rightarrow> (Inl not_found, w)
        | Some old \<Rightarrow>
            let new = old\<lparr>sc_Status := sc_Status s\<rparr> in
            (Inr new, w\<lparr>sv_Syncs := put_obj sync_key_of new (sv_Syncs w)\<rparr>)),
       list_syncs = (\<lambda>ns sel w.
          (Inr (filter (\<lambda>s. matches ns sel (sync_field s) (sc_Meta s)) (visible_objs sync_key_of (sv_Syncs w))), w)),
       delete_sync = (\<lambda>s w. case lookup_obj sync_key_of (sv_Syncs w) (sync_key_of s) of
          None \<Rightarrow> (Inl not_found, w)
        | Some old \<Rightarrow> (case delete_meta (sc_Meta old) of
            None \<Rightarrow> (Inr (), w\<lparr>sv_Syncs := remove_obj sync_key_of (sync_key_of s) (sv_Syncs w)\<rparr>)
          | Some m \<Rightarrow> (Inr (), w\<lparr>sv_Syncs := put_obj sync_key_of (old\<lparr>sc_Meta := m\<rparr>) (sv_Syncs w)\<rparr>))),
       upsert_sync = (\<lambda>s0 f w.
          case f (case lookup_obj sync_key_of (sv_Syncs w) (sync_key_of s0) of None \<Rightarrow> s0 | Some s \<Rightarrow> s) of
            Inl e \<Rightarrow> (Inl e, w)
          | Inr s \<Rightarrow> (Inr (), w\<lparr>sv_Syncs := put_obj sync_key_of s (sv_Syncs w)\<rparr>)),
       get_policy = (\<lambda>k w. case lookup_obj policy_key_of (sv_Policies w) k of
          None \<Rightarrow> (Inl not_found, w) | Some p \<Rightarrow> (Inr p, w)),
       update_policy = (\<lambda>p w. case lookup_obj policy_key_of (sv_Policies w) (policy_key_of p) of
          None \<Rightarrow> (Inl not_found, w)
        | Some old \<Rightarrow>
            let new = p\<lparr>wp_Status := wp_Status old\<rparr> in
            if deletion_requested (wp_Meta new) \<and> om_Finalizers (wp_Meta new) = []
            then (Inr new, w\<lparr>sv_Policies := remove_obj policy_key_of (policy_key_of p) (sv_Policies w)\<rparr>)
            else (Inr new, w\<lparr>sv_Policies := put_obj policy_key_of new (sv_Policies w)\<rparr>)),
       update_policy_status = (\<lambda>p w. case lookup_obj policy_key_of (sv_Policies w) (policy_key_of p) of
          None \<Rightarrow> (Inl not_found, w)
        | Some old \<Rightarrow>
            let new = old\<lparr>wp_Status := wp_Status p\<rparr> in
            (Inr new, w\<lparr>sv_Policies := put_obj policy_key_of new (sv_Policies w)\<rparr>)),
       list_policies = (\<lambda>w. (Inr (visible_objs policy_key_of (sv_Policies w)), w)),
       list_certificates = (\<lambda>ns sel w.
          (Inr (filter (\<lambda>c. matches ns sel (\<lambda>f v. False) (cm_Meta c)) (visible_objs cert_key_of (sv_Certificates w))), w)),
       delete_certificate = (\<lambda>c w. case lookup_obj cert_key_of (sv_Certificates w) (cert_key_of c) of
          None \<Rightarrow> (Inl not_found, w)
        | Some old \<Rightarrow> (case delete_meta (cm_Meta old) of
            None \<Rightarrow> (Inr (), w\<lparr>sv_Certificates := remove_obj cert_key_of (cert_key_of c) (sv_Certificates w)\<rparr>)
          | Some m \<Rightarrow> (Inr (), w\<lparr>sv_Certificates := put_obj cert_key_of (old\<lparr>cm_Meta := m\<rparr>) (sv_Certificates w)\<rparr>))),
       upsert_certificate = (\<lambda>c0 g w.
          case g (case lookup_obj cert_key_of (sv_Certificates w) (cert_key_of c0) of None \<Rightarrow> c0 | Some c \<Rightarrow> c) of
            Inl e \<Rightarrow> (Inl e, w)
          | Inr c \<Rightarrow> (Inr (), w\<lparr>sv_Certificates := put_obj cert_key_of c (sv_Certificates w)\<rparr>)) \<rparr>"

definition server_syncs :: "api_server \<Rightarrow> object_key \<Rightarrow> cert_sync option" where
  "server_syncs w = lookup_obj sync_key_of (sv_Syncs w)"

definition server_certs :: "api_server \<Rightarrow> object_key \<Rightarrow> cm_certificate option" where
  "server_certs w = lookup_obj cert_key_of (sv_Certificates w)"

lemmas server_views = server_syncs_def server_certs_def lookup_put lookup_remove

lemma delete_meta_key: "delete_meta m = Some m' \<Longrightarrow> key_of m' = key_of m \<and> deletion_requested m'"
  by (auto simp: delete_meta_def key_of_def deletion_requested_def IsZero_def split: if_splits)

lemma found_key: "kf (case lookup_obj kf os (kf x) of None \<Rightarrow> x | Some y \<Rightarrow> y) = kf x"
  by (auto dest: lookup_key split: option.split)

lemma memory_upsert_sync:
  assumes "upsert_sync memory_client s0 f w = (d, w')"
    and "\<And>s s'. f s = Inr s' \<Longrightarrow> sync_key_of s' = sync_key_of s"
  shows "server_certs w' = server_certs w \<and>
     (case d of Inl e \<Rightarrow> server_syncs w' = server_syncs w
      | Inr _ \<Rightarrow> \<exists>s' s''. f (case server_syncs w (sync_key_of s0) of None \<Rightarrow> s0 | Some s \<Rightarrow> s) = Inr s' \<and>
          server_syncs w' = (server_syncs w)(sync_key_of s0 \<mapsto> s'') \<and> sc_Spec s'' = sc_Spec s' \<and>
          om_Labels (sc_Meta s'') = om_Labels (sc_Meta s'))"
proof (cases "f (case server_syncs w (sync_key_of s0) of None \<Rightarrow> s0 | Some s \<Rightarrow> s)")
  case (Inl e)
  with assms(1) show ?thesis by (auto simp: memory_client_def server_syncs_def)
next
  case (Inr s)
  with assms(2) [OF Inr] assms(1) show ?thesis
    by (auto simp: memory_client_def server_views found_key [of sync_key_of])
qed

lemma memory_upsert_certificate:
  assumes "upsert_certificate memory_client c0 g w = (d, w')"
    and "\<And>c c'. g c = Inr c' \<Longrightarrow> cert_key_of c' = cert_key_of c"
  shows "server_syncs w' = server_syncs w \<and>
     (case d of Inl e \<Rightarrow> server_certs w' = server_certs w
      | Inr _ \<Rightarrow> \<exists>c'. g (case server_certs w (cert_key_of c0) of None \<Rightarrow> c0 | Some c \<Rightarrow> c) = Inr c' \<and>
          server_certs w' = (server_certs w)(cert_key_of c0 \<mapsto> c'))"
proof (cases "g (case server_certs w (cert_key_of c0) of None \<Rightarrow> c0 | Some c \<Rightarrow> c)")
  case (Inl e)
  with assms(1) show ?thesis by (auto simp: memory_client_def server_certs_def)
next
  case (Inr c)
  with assms(2) [OF Inr] assms(1) show ?thesis
    by (auto simp: memory_client_def server_views found_key [of cert_key_of])
qed

interpretation memory_server: generated_contract memory_client server_syncs server_certs
proof (unfold_locales, goal_cases)
  case (1 w k s)
  then show ?case by (auto simp: server_syncs_def dest: lookup_key)
next
  case (2 w k c)
  then show ?case by (auto simp: server_certs_def dest: lookup_key)
next
  case (3 ns l v w r w')
  then show ?case
    by (auto simp: memory_client_def server_syncs_def set_visible matches_def labelled_def)
next
  case (4 ns l v w r w')
  then show ?case
    by (auto simp: memory_client_def server_certs_def set_visible matches_def labelled_def)
next
  case (5 s w d w')
  then show ?case
    by (auto simp: memory_client_def server_views not_found_def terminating_def dest: delete_meta_key
        dest!: lookup_key split: option.splits)
next
  case (6 c w d w')
  then show ?case
    by (auto simp: memory_client_def server_views not_found_def terminating_def dest: delete_meta_key
        dest!: lookup_key split: option.splits)
next
  case (7 s0 f w d w')
  then show ?case by (rule memory_upsert_sync)
next
  case (8 c0 g w d w')
  then show ?case by (rule memory_upsert_certificate)
qed

end
