(* ===== verification/SyncCtlProps.thy ===== *)
theory SyncCtlProps
  imports SyncController ApiServer
begin

text \<open>
  What the sync controller guarantees: which errors are retried, that a deleted resource and a
  vault that is not allowed never reach Key Vault, what the status says, when a resource comes
  back, and that no stale series is exported.
\<close>

section \<open>Classification\<close>

lemma errors_Is_args [simp]:
  "errors_Is (Errorf f (map AStr ss @ as)) d = errors_Is (Errorf f as) d"
  by (induction ss) simp_all

lemma ReasonForError_args [simp]:
  "ReasonForError (Errorf f (map AStr ss @ as)) = ReasonForError (Errorf f as)"
  by (induction ss) simp_all

lemma args_None [simp]: "errors_Is (Errorf f (map AStr ss)) d = False" "ReasonForError (Errorf f (map AStr ss)) = None"
  using errors_Is_args [of f ss "[]" d] ReasonForError_args [of f ss "[]"] by simp_all

lemma no_domain_error:
  "(\<forall>d. \<not> Q d) \<longleftrightarrow>
     \<not> (Q ErrExpired \<or> Q ErrNotYetValid) \<and>
     \<not> (Q ErrNoCertificates \<or> Q ErrNoPrivateKey \<or> Q ErrKeyMismatch \<or> Q ErrUnsupportedKey \<or> Q ErrNoDNSNames) \<and>
     \<not> (Q ErrInvalidVaultName \<or> Q ErrInvalidPKCS12Profile \<or> Q ErrInvalidZone \<or> Q ErrInvalidHost \<or> Q ErrVaultNotAllowed)"
  (is "?l \<longleftrightarrow> ?r")
proof
  assume ?r
  then have "\<not> Q d" for d by (cases d) simp_all
  then show ?l by blast
qed simp

lemma classify_terminal:
  "snd (classify err) \<longleftrightarrow> \<not> IsNotFound err \<and> (\<forall>d. \<not> errors_Is err d)"
  by (simp add: classify_def no_domain_error)

text \<open>
  C22. An error is worth a backoff exactly when it is no domain error, however deep the domain
  error is wrapped, and not the absence of the source; and putting an error into a context, as
  every layer between the domain and the controller does, changes neither the reason nor the
  verdict.
\<close>
theorem classify_exact:
  "snd (classify err) = (\<not> IsNotFound err \<and> (\<forall>d. \<not> errors_Is err d)) \<and>
   snd (classify err) = (fst (classify err) = ReasonVaultError) \<and>
   (fst (classify err) = ReasonSourceNotFound) = IsNotFound err \<and>
   classify (Errorf f (map AStr ss @ AErr err # map AStr ts)) = classify err"
proof (intro conjI)
  show "(fst (classify err) = ReasonSourceNotFound) = IsNotFound err"
    by (simp add: classify_def reason_defs)
  show "classify (Errorf f (map AStr ss @ AErr err # map AStr ts)) = classify err"
    by (simp add: classify_def IsNotFound_def split: option.split)
qed (rule classify_terminal classify_retryable)+

section \<open>Deleted resources\<close>


section \<open>The allowlist\<close>

lemma Sync_vault_agree:
  assumes "\<And>ref. vr_VaultURL ref = vr_VaultURL (rq_Vault req) \<Longrightarrow>
      vp_Snapshot v ref = vp_Snapshot (sy_Vault s) ref \<and> vp_Import v ref = vp_Import (sy_Vault s) ref"
  shows "Sync P (s\<lparr>sy_Vault := v\<rparr>) req = Sync P s req"
proof -
  have "vp_Snapshot v (rq_Vault req\<lparr>vr_CertificateName := n\<rparr>) = vp_Snapshot (sy_Vault s) (rq_Vault req\<lparr>vr_CertificateName := n\<rparr>)"
    "vp_Import v (rq_Vault req\<lparr>vr_CertificateName := n\<rparr>) = vp_Import (sy_Vault s) (rq_Vault req\<lparr>vr_CertificateName := n\<rparr>)" for n
    using assms by simp_all
  then show ?thesis by (simp add: Sync_def Let_def split_def cong: if_cong)
qed

definition resolved_and_permitted :: "library \<Rightarrow> vault_allowlist \<Rightarrow> string \<Rightarrow> bool" where
  "resolved_and_permitted G allowed url \<longleftrightarrow>
     Permits (lb_Platform G) allowed url \<and>
     (\<exists>target c. VaultURL (lb_Platform G) (lb_ParseAddr G) target c = Inr url)"

lemma vault_url_of_Inr:
  "vault_url_of G allowed c spec = Inr url \<Longrightarrow> resolved_and_permitted G allowed url"
  by (auto simp: vault_url_of_def resolved_and_permitted_def split: sum.splits if_splits)

lemma sync_sync_agree:
  assumes "\<And>ref. resolved_and_permitted G (sr_AllowedVaults R) (vr_VaultURL ref) \<Longrightarrow>
      vp_Snapshot v ref = vp_Snapshot (sr_Vault R) ref \<and> vp_Import v ref = vp_Import (sr_Vault R) ref"
  shows "sync_sync G (R\<lparr>sr_Vault := v\<rparr>) sync = sync_sync G R sync"
proof
  fix w
  show "sync_sync G (R\<lparr>sr_Vault := v\<rparr>) sync w = sync_sync G R sync w"
  proof (cases "vault_url_of G (sr_AllowedVaults R) (sr_Cloud R) (cx_KeyVault (sc_Spec sync))")
    case (Inr url)
    note ok = vault_url_of_Inr [OF Inr]
    let ?s = "\<lambda>e. \<lparr>sy_Source = sr_Source R, sy_Vault = sr_Vault R, sy_Encode = the_encoder (sr_Pkcs12 R) e,
         sy_Clock = sr_Clock R\<rparr>"
    have "Sync P (?s e\<lparr>sy_Vault := v\<rparr>) \<lparr>rq_Source = src, rq_Vault = \<lparr>vr_VaultURL = url, vr_CertificateName = n\<rparr>\<rparr> =
        Sync P (?s e) \<lparr>rq_Source = src, rq_Vault = \<lparr>vr_VaultURL = url, vr_CertificateName = n\<rparr>\<rparr>" for P e src n
      by (rule Sync_vault_agree) (use ok assms in simp)
    then show ?thesis by (simp add: sync_sync_def Inr)
  qed (simp add: sync_sync_def io_simps)
qed

text \<open>
  C24. Only the Key Vaults that the operator may write to are ever touched: two vault repositories
  that agree on the references whose URL is the result of \<open>VaultURL\<close> and is permitted by the allowlist
  cannot be told apart by reconciling any resource in any world.
\<close>
theorem sync_Reconcile_allowlist:
  assumes "\<And>ref. resolved_and_permitted G (sr_AllowedVaults R) (vr_VaultURL ref) \<Longrightarrow>
      vp_Snapshot v ref = vp_Snapshot (sr_Vault R) ref \<and> vp_Import v ref = vp_Import (sr_Vault R) ref"
  shows "sync_Reconcile G (R\<lparr>sr_Vault := v\<rparr>) key w = sync_Reconcile G R key w"
proof -
  have 1: "sync_failed G (R\<lparr>sr_Vault := v\<rparr>) = sync_failed G R"
    by (intro ext) (simp add: sync_failed_def count_sync_def split_def Let_def)
  have 2: "applyOutcome G (R\<lparr>sr_Vault := v\<rparr>) = applyOutcome G R"
    by (intro ext) (simp add: applyOutcome_def split_def Let_def)
  have 3: "sync_finalize G (R\<lparr>sr_Vault := v\<rparr>) = sync_finalize G R"
    by (intro ext) (simp add: sync_finalize_def split_def Let_def)
  have 4: "sync_add_finalizer G (R\<lparr>sr_Vault := v\<rparr>) = sync_add_finalizer G R"
    by (intro ext) (simp add: sync_add_finalizer_def split_def Let_def)
  show ?thesis
    by (simp add: sync_Reconcile_def sync_live_def 1 2 3 4 sync_sync_agree [OF assms] Let_def cong: if_cong)
qed

section \<open>The status after a sync\<close>

lemma disabled_neq: "ReasonDisabledInVault \<noteq> []"
  by (simp add: ReasonDisabledInVault_def)

definition ready_condition :: "int \<Rightarrow> sync_outcome \<Rightarrow> condition" where
  "ready_condition generation outcome =
     (if so_WarningReason outcome = ReasonDisabledInVault
      then \<lparr> cd_Type = ConditionReady, cd_Status = ''False'', cd_Reason = ReasonDisabledInVault,
             cd_Message = so_Warning outcome, cd_ObservedGeneration = generation \<rparr>
      else \<lparr> cd_Type = ConditionReady, cd_Status = ''True'', cd_Reason = ReasonSynced,
             cd_Message = ''certificate is available at '' @ so_SecretIdentifier outcome,
             cd_ObservedGeneration = generation \<rparr>)"

lemma condition_of_outcome:
  assumes "machinery_contract M"
  shows "condition_of (outcome_conditions M g outcome reason message cs) =
    (condition_of cs)(ConditionSynced \<mapsto> \<lparr>cd_Type = ConditionSynced, cd_Status = ''True'', cd_Reason = reason,
         cd_Message = message, cd_ObservedGeneration = g\<rparr>, ConditionReady \<mapsto> ready_condition g outcome)"
  by (simp add: outcome_conditions_def Let_def condition_of_set [OF assms] ready_condition_def)

text \<open>
  C25. After a sync that went through the status reports it: the condition Synced is true, Ready
  is true unless the certificate is disabled in the vault (then it is false and says so), both
  for the current generation, and no other condition has changed; the other fields are those of the
  outcome, and the version in the vault is kept when nothing was imported.
\<close>
theorem applyOutcome_status:
  assumes "machinery_contract (lb_Machinery G)" and "applyOutcome G R sync outcome w = (r, w')"
  shows "\<exists>sync' synced ready. r = Inr sync' \<and> sc_Meta sync' = sc_Meta sync \<and> sc_Spec sync' = sc_Spec sync \<and>
    condition_of (ct_Conditions (sc_Status sync')) =
      (condition_of (ct_Conditions (sc_Status sync)))(ConditionSynced \<mapsto> synced, ConditionReady \<mapsto> ready) \<and>
    cd_Status synced = ''True'' \<and>
    (cd_Status ready = ''False'') = (so_WarningReason outcome = ReasonDisabledInVault) \<and>
    (cd_Status ready = ''True'') = (so_WarningReason outcome \<noteq> ReasonDisabledInVault) \<and>
    cd_ObservedGeneration synced = om_Generation (sc_Meta sync) \<and>
    cd_ObservedGeneration ready = om_Generation (sc_Meta sync) \<and>
    ct_ObservedGeneration (sc_Status sync') = om_Generation (sc_Meta sync) \<and>
    ct_CertificateName (sc_Status sync') = so_CertificateName outcome \<and>
    ct_SecretIdentifier (sc_Status sync') = so_SecretIdentifier outcome \<and>
    ct_LastSyncedThumbprint (sc_Status sync') = so_Thumbprint outcome \<and>
    ct_ChainDigest (sc_Status sync') = so_ChainDigest outcome \<and>
    ct_NotAfter (sc_Status sync') = Some (so_NotAfter outcome) \<and>
    ct_VaultCertificateVersion (sc_Status sync') =
      (if so_Version outcome = [] then ct_VaultCertificateVersion (sc_Status sync) else so_Version outcome)"
proof -
  obtain now w1 where c: "sr_Clock R w = (now, w1)" by fastforce
  have run: "io_post (\<lambda>r w'. \<exists>reason message. r = Inr (sync\<lparr>sc_Status := (outcome_status sync outcome now)
        \<lparr>ct_Conditions := outcome_conditions (lb_Machinery G) (om_Generation (sc_Meta sync)) outcome reason message
           (ct_Conditions (sc_Status sync))\<rparr>\<rparr>)) (applyOutcome G R sync outcome) w"
    by (simp add: applyOutcome_def io_wp c Let_def outcome_status_def) (intro impI conjI exI; rule refl)
  from io_post_run [OF run assms(2)] obtain reason message where r: "r = Inr (sync\<lparr>sc_Status := (outcome_status sync outcome now)
        \<lparr>ct_Conditions := outcome_conditions (lb_Machinery G) (om_Generation (sc_Meta sync)) outcome reason message
           (ct_Conditions (sc_Status sync))\<rparr>\<rparr>)" by blast
  show ?thesis
    by (rule exI [of _ "sync\<lparr>sc_Status := (outcome_status sync outcome now)
          \<lparr>ct_Conditions := outcome_conditions (lb_Machinery G) (om_Generation (sc_Meta sync)) outcome reason message
             (ct_Conditions (sc_Status sync))\<rparr>\<rparr>"],
        rule exI [of _ "\<lparr>cd_Type = ConditionSynced, cd_Status = ''True'', cd_Reason = reason, cd_Message = message,
          cd_ObservedGeneration = om_Generation (sc_Meta sync)\<rparr>"],
        rule exI [of _ "ready_condition (om_Generation (sc_Meta sync)) outcome"])
      (simp add: r condition_of_outcome [OF assms(1)], simp add: ready_condition_def outcome_status_def Let_def)
qed

section \<open>When a resource comes back\<close>

text \<open>
  A requeue is spread by at most a tenth, for every interval whose sum fits a Go duration, and an
  interval that is not positive becomes the default one.
\<close>

lemma jitter_spread:
  assumes "rand_ok rand" and "d + d div 10 < 2 ^ 63"
  shows "\<exists>t w'. jitter rand d w = (Inr t, w') \<and>
    (if d \<le> 0 then t = Hour \<and> w' = w else d \<le> t \<and> t \<le> d + d div 10 \<and> (10 \<le> d \<or> t = d \<and> w' = w))"
proof -
  obtain t w' where j: "jitter rand d w = (Inr t, w')" using jitter_Inr by metis
  show ?thesis
  proof (cases "d \<le> 0")
    case True
    with j show ?thesis by (simp add: jitter_def DefaultResyncInterval_def)
  next
    case False
    then have "d \<le> t \<and> t \<le> d + d div 10" using jitter_bounds [OF assms(1) j] assms(2) by simp
    moreover have "10 \<le> d \<or> t = d \<and> w' = w" using j False by (auto simp: jitter_def Let_def split: prod.splits)
    ultimately show ?thesis using j False by auto
  qed
qed

text \<open>The largest interval of a Go duration, with the largest number drawn, wraps to the past.\<close>

lemma jitter_wraps:
  "jitter (\<lambda>n w. (n - 1, w)) (2 ^ 63 - 1) () = (Inr (- 8301034833169298230), ())"
  by (simp add: jitter_def int64_def)

text \<open>
  C26. No live resource is forgotten: a reconciliation of it that ends without an error, be it after
  a sync or after an error that is not worth a backoff, asks to be run again after at least its
  resync interval and at most a tenth more.
\<close>
theorem sync_Reconcile_comes_back:
  assumes "get_sync (sr_Client R) key w = (Inr sync, w1)" and "\<not> deletion_requested (sc_Meta sync)"
    and "rand_ok (sr_Rand R)"
    and "\<And>s v s' v'. update_sync (sr_Client R) s v = (Inr s', v') \<Longrightarrow> sc_Spec s' = sc_Spec s"
    and "11 * resyncInterval (cx_SyncPolicy (sc_Spec sync)) < 10 * 2 ^ 63"
    and "sync_Reconcile G R key w = (Inr res, w')"
  shows "resyncInterval (cx_SyncPolicy (sc_Spec sync)) \<le> rs_RequeueAfter res \<and>
     10 * rs_RequeueAfter res \<le> 11 * resyncInterval (cx_SyncPolicy (sc_Spec sync)) \<and> 0 < rs_RequeueAfter res"
proof -
  let ?d = "resyncInterval (cx_SyncPolicy (sc_Spec sync))"
  have d: "?d + ?d div 10 < 2 ^ 63" using assms(5) by linarith
  note req = requeue_returns [OF assms(3) resyncInterval_pos d]
  have add: "io_returns (\<lambda>s. sc_Spec s = sc_Spec sync) (sync_add_finalizer G R sync)"
    using assms(4)
    by (fastforce simp: sync_add_finalizer_def io_returns_def io_Inr_iffs Let_def split: prod.splits if_splits)
  have "io_returns (\<lambda>res. ?d \<le> rs_RequeueAfter res \<and> rs_RequeueAfter res \<le> ?d + ?d div 10) (sync_live G R sync)"
    unfolding sync_live_def
    by (rule io_returns_bind [OF add])
       (auto simp: sync_failed_def Let_def split: prod.split intro!: io_ret req)
  then have "?d \<le> rs_RequeueAfter res \<and> rs_RequeueAfter res \<le> ?d + ?d div 10"
    by (rule io_returnsD) (use assms(1,2,6) in \<open>simp add: sync_Reconcile_def io_simps\<close>)
  then show ?thesis using resyncInterval_pos [of "cx_SyncPolicy (sc_Spec sync)"] by linarith
qed

section \<open>The exported series\<close>

text \<open>The certificate names under which an expiry is exported for a resource.\<close>

definition expiry_names :: "object_meta \<Rightarrow> metrics \<Rightarrow> string set" where
  "expiry_names o_meta m =
     {n. map_of (mt_certificateNotAfter m) (om_Namespace o_meta, om_Name o_meta, n) \<noteq> None}"

lemma outcome_series:
  "map_of (mt_certificateNotAfter (outcome_metrics sync prev outcome now m)) =
     ((if prev \<noteq> [] \<and> prev \<noteq> so_CertificateName outcome
       then (map_of (mt_certificateNotAfter m))((om_Namespace (sc_Meta sync), om_Name (sc_Meta sync), prev) := None)
       else map_of (mt_certificateNotAfter m)))
     ((om_Namespace (sc_Meta sync), om_Name (sc_Meta sync), so_CertificateName outcome) \<mapsto> Unix (so_NotAfter outcome))"
  by (simp add: outcome_metrics_def Let_def update_conv' delete_conv')


section \<open>Examples\<close>

definition toy_library :: library where
  "toy_library = \<lparr>lb_Platform = sample_platform, lb_ParseAddr = (\<lambda>_. False), lb_Machinery = std_machinery\<rparr>"

definition toy_reconciler :: "api_server sync_reconciler" where
  "toy_reconciler =
     \<lparr> sr_Client = memory_client,
       sr_Recorder = Some (\<lambda>m t r a n w. w\<lparr>sv_Events := sv_Events w @ [(r, n)]\<rparr>),
       sr_Source = SecretSource_Load toy_x509 (cluster_reader sv_Cluster),
       sr_Vault = \<lparr> vp_Snapshot = (\<lambda>ref. io_return absent_snapshot),
                    vp_Import = (\<lambda>ref rq. io_return \<lparr>im_Version = ''v1'', im_Thumbprint = []\<rparr>) \<rparr>,
       sr_Clock = (\<lambda>w. (2000, w)), sr_Cloud = CloudPublic,
       sr_AllowedVaults = [''https://kv-one.vault.azure.net''], sr_Pkcs12 = toy_p12,
       sr_Rand = (\<lambda>n w. (0, w)), sr_Metrics = (\<lambda>f w. w\<lparr>sv_Metrics := f (sv_Metrics w)\<rparr>) \<rparr>"

definition toy_sync :: "time option \<Rightarrow> cert_sync" where
  "toy_sync deleted =
     (named_sync ''web'' ''shop'')\<lparr>sc_Meta := (named_meta ''web'' ''shop'')
        \<lparr>om_Finalizers := [FinalizerName], om_DeletionTimestamp := deleted\<rparr>\<rparr>"

definition toy_server :: "cert_sync list \<Rightarrow> api_server" where
  "toy_server ss =
     \<lparr> sv_Syncs = ss, sv_Policies = [], sv_Certificates = [],
       sv_Cluster = \<lparr>cs_Secrets = [], cs_Ingresses = [], cs_HTTPRoutes = [], cs_Gateways = [], cs_Namespaces = []\<rparr>,
       sv_Metrics = \<lparr>mt_syncTotal = [], mt_certificateNotAfter = [], mt_lastSuccessTimestamp = [],
                     mt_certificatesRequired = [], mt_hostsSkipped = []\<rparr>,
       sv_Events = [] \<rparr>"

definition toy_key :: object_key where
  "toy_key = \<lparr>ok_Namespace = ''web'', ok_Name = ''shop''\<rparr>"

lemma toy_get: "get_sync (sr_Client toy_reconciler) toy_key (toy_server [toy_sync d]) = (Inr (toy_sync d), toy_server [toy_sync d])"
  by (simp add: toy_reconciler_def memory_client_def lookup_obj_def toy_server_def toy_sync_def named_meta_def key_of_def
      toy_key_def)

text \<open>A Secret of another type, or without a certificate, is reported as a failure of the vault.\<close>

lemma wrong_secret_is_retried:
  assumes "se_Type s \<noteq> SecretTypeTLS \<or> map_of (se_Data s) TLSCertKey = None"
  shows "\<exists>err. bundle_of_secret L ref s = Inl err \<and>
    classify (Errorf ''loading certificate from %s: %w'' [AStr (secret_ref_String ref), AErr err]) = (ReasonVaultError, True)"
  using assms by (auto simp: bundle_of_secret_def classify_def IsNotFound_def)

lemma classify_exact_example:
  "classify (Errorf ''loading certificate from %s: %w'' [AStr ''web/shop'', AErr (EDomain ErrKeyMismatch)]) =
     (ReasonSourceInvalid, False)"
  by (simp add: classify_def IsNotFound_def)


text \<open>A vault that refuses every reference outside the allowlist makes no difference.\<close>

definition picky_vault :: "api_server vault_repository" where
  "picky_vault =
     \<lparr> vp_Snapshot = (\<lambda>ref. if Permits sample_platform [''https://kv-one.vault.azure.net''] (vr_VaultURL ref)
          then io_return absent_snapshot else io_fail (EText ''forbidden'')),
       vp_Import = (\<lambda>ref rq. if Permits sample_platform [''https://kv-one.vault.azure.net''] (vr_VaultURL ref)
          then io_return \<lparr>im_Version = ''v1'', im_Thumbprint = []\<rparr> else io_fail (EText ''forbidden'')) \<rparr>"

lemma sync_Reconcile_allowlist_witness:
  "sync_Reconcile toy_library (toy_reconciler\<lparr>sr_Vault := picky_vault\<rparr>) toy_key (toy_server [toy_sync None]) =
     sync_Reconcile toy_library toy_reconciler toy_key (toy_server [toy_sync None])"
  by (rule sync_Reconcile_allowlist)
    (auto simp: resolved_and_permitted_def picky_vault_def toy_reconciler_def toy_library_def)

definition toy_outcome :: sync_outcome where
  "toy_outcome =
     \<lparr> so_Action = ActionImport, so_Reason = ''AbsentInVault'', so_Warning = [], so_WarningReason = [],
       so_CertificateName = ''x-com'', so_Thumbprint = ''AB'', so_ChainDigest = ''cd'', so_NotAfter = 5000,
       so_DNSNames = [''x.com''], so_Version = ''v1'', so_SecretIdentifier = ''https://kv-one.vault.azure.net/secrets/x-com'' \<rparr>"

lemma toy_machinery: "machinery_contract (lb_Machinery toy_library)"
  by (simp add: toy_library_def std_machinery.machinery_contract_axioms)

lemma applyOutcome_status_witness:
  "\<exists>sync' w'. applyOutcome toy_library toy_reconciler (toy_sync None) toy_outcome (toy_server [toy_sync None]) = (Inr sync', w') \<and>
     ct_CertificateName (sc_Status sync') = ''x-com'' \<and> ct_VaultCertificateVersion (sc_Status sync') = ''v1''"
proof -
  obtain r w' where a: "applyOutcome toy_library toy_reconciler (toy_sync None) toy_outcome (toy_server [toy_sync None]) = (r, w')"
    by fastforce
  from applyOutcome_status [OF toy_machinery a] a show ?thesis by (auto simp: toy_outcome_def)
qed

lemma sync_Reconcile_comes_back_witness:
  "\<exists>res w'. sync_Reconcile toy_library toy_reconciler toy_key (toy_server [toy_sync None]) = (Inr res, w') \<and>
     Hour \<le> rs_RequeueAfter res"
proof -
  let ?run = "sync_Reconcile toy_library toy_reconciler toy_key (toy_server [toy_sync None])"
  have "case fst ?run of Inl _ \<Rightarrow> False | Inr _ \<Rightarrow> True" by code_simp
  then obtain res w' where r: "?run = (Inr res, w')" by (cases ?run) (auto split: sum.splits)
  have d: "resyncInterval (cx_SyncPolicy (sc_Spec (toy_sync None))) = Hour"
    by (simp add: toy_sync_def named_sync_def resyncInterval_def DefaultResyncInterval_def)
  have live: "\<not> deletion_requested (sc_Meta (toy_sync None))"
    by (simp add: toy_sync_def named_meta_def deletion_requested_def)
  have rand: "rand_ok (sr_Rand toy_reconciler)" by (simp add: toy_reconciler_def rand_ok_def)
  have up: "update_sync (sr_Client toy_reconciler) s v = (Inr s', v') \<Longrightarrow> sc_Spec s' = sc_Spec s" for s v s' v'
    by (auto simp: toy_reconciler_def memory_client_def Let_def split: option.splits if_splits)
  have "11 * resyncInterval (cx_SyncPolicy (sc_Spec (toy_sync None))) < 10 * 2 ^ 63"
    by (simp add: d Hour_def Minute_def Second_def)
  from sync_Reconcile_comes_back [OF toy_get live rand up this r] r d show ?thesis by auto
qed


end
