(* ===== verification/PolicyProps.thy ===== *)
theory PolicyProps
  imports PolicyController SyncCtlProps
begin

text \<open>
  What the policy controller guarantees: applying a plan leaves exactly the desired resources,
  orphans are the only resources that are ever deleted, and the status keeps the limits of the
  API. The first two are proved over every client with the contract of the API.
\<close>

section \<open>Desired resources\<close>

definition sync_matches :: "wildcard_policy \<Rightarrow> desired_certificate \<Rightarrow> cert_sync \<Rightarrow> bool" where
  "sync_matches policy cert s \<longleftrightarrow>
     lr_Name (sx_SecretRef (cx_Source (sc_Spec s))) = ds_SecretName cert \<and>
     cx_KeyVault (sc_Spec s) = (pc_KeyVault (wp_Spec policy))\<lparr>kv_CertificateName := cr_Name cert\<rparr> \<and>
     cx_SyncPolicy (sc_Spec s) = pc_SyncPolicy (wp_Spec policy) \<and>
     map_of (om_Labels (sc_Meta s)) LabelPolicy = Some (om_Name (wp_Meta policy)) \<and>
     map_of (om_Labels (sc_Meta s)) LabelCertificate = Some (cr_Name cert)"

lemma desired_sync_matches:
  assumes "machinery_contract M" and "desired_sync_state M policy cert s = Inr s'"
  shows "sync_matches policy cert s' \<and> key_of (sc_Meta s') = key_of (sc_Meta s)"
proof -
  let ?labels = "AList.update LabelCertificate (cr_Name cert)
      (AList.update LabelPolicy (om_Name (wp_Meta policy)) (om_Labels (sc_Meta s)))"
  obtain m where m: "mc_SetControllerReference M (wp_Meta policy) ((sc_Meta s)\<lparr>om_Labels := ?labels\<rparr>) = Inr m"
    and c: "sync_matches policy cert s' \<longleftrightarrow> map_of (om_Labels m) LabelPolicy = Some (om_Name (wp_Meta policy)) \<and>
        map_of (om_Labels m) LabelCertificate = Some (cr_Name cert)" "sc_Meta s' = m"
    using assms(2) by (auto simp: desired_sync_state_def Let_def sync_matches_def split: sum.splits)
  have e: "m = (sc_Meta s)\<lparr>om_Labels := ?labels\<rparr>\<lparr>om_Owners := om_Owners m\<rparr>"
    by (rule machinery_contract.set_controller [OF assms(1) m])
  have "om_Labels m = ?labels" "key_of m = key_of (sc_Meta s)"
    by (subst e, simp add: key_of_def)+
  then show ?thesis
    using c by (simp add: update_conv') (simp add: LabelPolicy_def LabelCertificate_def)
qed

lemma sync_matches_cong:
  "sc_Spec s = sc_Spec s' \<Longrightarrow> om_Labels (sc_Meta s) = om_Labels (sc_Meta s') \<Longrightarrow> sync_matches p c s = sync_matches p c s'"
  by (simp add: sync_matches_def)

lemma keys_named [simp]:
  "key_of (sc_Meta (named_sync ns n)) = \<lparr>ok_Namespace = ns, ok_Name = n\<rparr>"
  "key_of (cm_Meta (named_certificate ns n)) = \<lparr>ok_Namespace = ns, ok_Name = n\<rparr>"
  by (simp_all add: key_of_def named_sync_def named_certificate_def named_meta_def)

definition cert_key :: "wildcard_policy \<Rightarrow> desired_certificate \<Rightarrow> object_key" where
  "cert_key policy cert = \<lparr>ok_Namespace = pc_CertificateNamespace (wp_Spec policy), ok_Name = cr_Name cert\<rparr>"

section \<open>Over any client that keeps the contract\<close>

definition is_orphan :: "wildcard_policy \<Rightarrow> desired_state \<Rightarrow> object_meta \<Rightarrow> bool" where
  "is_orphan policy st m \<longleftrightarrow>
     labelled (pc_CertificateNamespace (wp_Spec policy)) LabelPolicy (om_Name (wp_Meta policy)) m \<and>
     om_Name m \<notin> cr_Name ` set (st_Certificates st)"

text \<open>The keys of the stored objects of a kind that are orphans.\<close>

definition orphan_keys :: "('o \<Rightarrow> object_meta) \<Rightarrow> (object_key \<Rightarrow> 'o option) \<Rightarrow> wildcard_policy \<Rightarrow> desired_state \<Rightarrow> object_key set" where
  "orphan_keys meta view policy st = {k. \<exists>ob. view k = Some ob \<and> is_orphan policy st (meta ob)}"

definition prunes :: "'w policy_reconciler \<Rightarrow> wildcard_policy \<Rightarrow> desired_state \<Rightarrow> bool" where
  "prunes R policy st \<longleftrightarrow>
     pc_OrphanPolicy (wp_Spec policy) = OrphanPrune \<and> pruneWithheldReason R policy st = []"

lemma prune_item_run:
  "prune_item what name delete w = (case delete w of
     (Inl e, w') \<Rightarrow> (if IsNotFound e then Inr () else Inl (Errorf (''pruning '' @ what @ '' %s: %w'') [AStr name, AErr e]), w')
   | (Inr _, w') \<Rightarrow> (Inr (), w'))"
  by (simp add: prune_item_def IgnoreNotFound_def io_simps split: prod.split sum.split)

context generated_contract
begin

definition same :: "'w \<Rightarrow> 'w \<Rightarrow> bool" where
  "same w w' \<longleftrightarrow> syncs w' = syncs w \<and> certs w' = certs w"

lemma apply_one:
  assumes "machinery_contract (lb_Machinery G)" and "pr_Client R = C" and "cw_Client (pr_Certificates R) = C"
    and "io_bind (EnsureCertificate (lb_Machinery G) (pr_Certificates R) (wp_Meta policy)
           (certificate_request_of policy cert)) (\<lambda>_. ensureSync G R policy cert) w = (Inr u, w')"
  shows "\<exists>s c. syncs w' = (syncs w)(cert_key policy cert \<mapsto> s) \<and> certs w' = (certs w)(cert_key policy cert \<mapsto> c) \<and>
    sync_matches policy cert s \<and> certificate_matches (certificate_request_of policy cert) c"
proof -
  let ?M = "lb_Machinery G" and ?rq = "certificate_request_of policy cert" and ?k = "cert_key policy cert"
  let ?ns = "pc_CertificateNamespace (wp_Spec policy)"
  have ck: "desired_certificate_state ?M (wp_Meta policy) ?rq c = Inr c' \<Longrightarrow> key_of (cm_Meta c') = key_of (cm_Meta c)" for c c'
    using desired_state_matches [OF assms(1)] by blast
  have sk: "desired_sync_state ?M policy cert s = Inr s' \<Longrightarrow> key_of (sc_Meta s') = key_of (sc_Meta s)" for s s'
    using desired_sync_matches [OF assms(1)] by blast
  obtain u1 w1 where 1: "upsert_certificate C (named_certificate ?ns (cr_Name cert))
      (desired_certificate_state ?M (wp_Meta policy) ?rq) w = (Inr u1, w1)"
    and 2: "upsert_sync C (named_sync ?ns (cr_Name cert)) (desired_sync_state ?M policy cert) w1 = (Inr u, w')"
    using assms(2-4)
    by (auto simp: EnsureCertificate_def ensureSync_def io_Inr_iffs certificate_request_of_def)
  obtain c c0 where c: "desired_certificate_state ?M (wp_Meta policy) ?rq c0 = Inr c" "certs w1 = (certs w)(?k \<mapsto> c)"
    "syncs w1 = syncs w"
    using upsert_certificate_law [OF 1 ck] by (auto simp: cert_key_def)
  obtain s s' s0 where s: "desired_sync_state ?M policy cert s0 = Inr s'" "syncs w' = (syncs w1)(?k \<mapsto> s)"
    "sc_Spec s = sc_Spec s'" "om_Labels (sc_Meta s) = om_Labels (sc_Meta s')" "certs w' = certs w1"
    using upsert_sync_law [OF 2 sk] by (auto simp: cert_key_def)
  show ?thesis
    using c s desired_sync_matches [OF assms(1) s(1)] desired_state_matches [OF assms(1) c(1)]
      sync_matches_cong [OF s(3,4)]
    by auto
qed

lemma apply_installs:
  assumes "machinery_contract (lb_Machinery G)" and "pr_Client R = C" and "cw_Client (pr_Certificates R) = C"
    and "policy_apply G R policy st w = (Inr u, w')" and "distinct (map cr_Name (st_Certificates st))"
  shows "(\<forall>cert \<in> set (st_Certificates st). \<exists>s c. syncs w' (cert_key policy cert) = Some s \<and>
            certs w' (cert_key policy cert) = Some c \<and> sync_matches policy cert s \<and>
            certificate_matches (certificate_request_of policy cert) c) \<and>
         (\<forall>k. k \<notin> cert_key policy ` set (st_Certificates st) \<longrightarrow> syncs w' k = syncs w k \<and> certs w' k = certs w k)"
  using assms(4,5) unfolding policy_apply_def
proof (induction "st_Certificates st" arbitrary: st w)
  case Nil
  then show ?case by (simp add: io_return_Inr_iff)
next
  case (Cons cert rest)
  let ?st = "st\<lparr>st_Certificates := rest\<rparr>" and ?k = "cert_key policy cert"
  let ?one = "\<lambda>cert. io_bind (EnsureCertificate (lb_Machinery G) (pr_Certificates R) (wp_Meta policy)
           (certificate_request_of policy cert)) (\<lambda>_. ensureSync G R policy cert)"
  obtain v w1 where one: "?one cert w = (Inr v, w1)" and more: "io_iterate ?one rest w1 = (Inr u, w')"
    using Cons.prems(1) unfolding Cons.hyps(2) [symmetric] io_iterate.simps io_bind_Inr_iff [of "?one cert"] by blast
  obtain s c where sc: "syncs w1 = (syncs w)(?k \<mapsto> s)" "certs w1 = (certs w)(?k \<mapsto> c)" "sync_matches policy cert s"
    "certificate_matches (certificate_request_of policy cert) c"
    using apply_one [OF assms(1-3) one] by blast
  have "distinct (map cr_Name rest)" using Cons.prems(2) Cons.hyps(2) by (metis distinct.simps(2) list.simps(9))
  then have ih: "(\<forall>cert \<in> set rest. \<exists>s c. syncs w' (cert_key policy cert) = Some s \<and>
        certs w' (cert_key policy cert) = Some c \<and> sync_matches policy cert s \<and>
        certificate_matches (certificate_request_of policy cert) c) \<and>
      (\<forall>k. k \<notin> cert_key policy ` set rest \<longrightarrow> syncs w' k = syncs w1 k \<and> certs w' k = certs w1 k)"
    using Cons.hyps(1) [of ?st w1] more by simp
  have "?k \<notin> cert_key policy ` set rest"
    using Cons.prems(2) unfolding Cons.hyps(2) [symmetric] by (auto simp: cert_key_def)
  then show ?case
    unfolding Cons.hyps(2) [symmetric] using ih sc by auto
qed

lemma prune_objects:
  assumes law: "\<And>x w d w'. delete x w = (d, w') \<Longrightarrow>
      other w' = other w \<and> (\<forall>k. k \<noteq> key_of (meta x) \<longrightarrow> view w' k = view w k) \<and>
      (case d of Inr _ \<Rightarrow> terminating (map_option meta (view w' (key_of (meta x))))
       | Inl e \<Rightarrow> view w' = view w \<and> (IsNotFound e \<longrightarrow> view w (key_of (meta x)) = None))"
    and "io_iterate (\<lambda>x. prune_item what (om_Name (meta x)) (delete x)) xs w = (r, w')"
  shows "other w' = other w \<and> (\<forall>k. k \<notin> (\<lambda>x. key_of (meta x)) ` set xs \<longrightarrow> view w' k = view w k) \<and>
    (\<forall>k. terminating (map_option meta (view w k)) \<longrightarrow> terminating (map_option meta (view w' k))) \<and>
    (r = Inr () \<longrightarrow> (\<forall>x \<in> set xs. terminating (map_option meta (view w' (key_of (meta x))))))"
  using assms(2)
proof (induction xs arbitrary: w)
  case Nil
  then show ?case by (simp add: io_return_def)
next
  case (Cons x xs)
  obtain d w1 where d: "delete x w = (d, w1)" by fastforce
  note law = law [OF d]
  have keep: "other w1 = other w \<and> (\<forall>k. k \<noteq> key_of (meta x) \<longrightarrow> view w1 k = view w k) \<and>
      (\<forall>k. terminating (map_option meta (view w k)) \<longrightarrow> terminating (map_option meta (view w1 k)))"
    using law by (cases d; simp; metis)
  show ?case
  proof (cases "\<exists>e. d = Inl e \<and> \<not> IsNotFound e")
    case True
    then have "w' = w1 \<and> r \<noteq> Inr ()"
      using Cons.prems d by (auto simp: io_bind_def prune_item_run [where w = w])
    with keep show ?thesis by auto
  next
    case False
    then have "io_iterate (\<lambda>x. prune_item what (om_Name (meta x)) (delete x)) xs w1 = (r, w')"
      using Cons.prems d by (cases d) (auto simp: io_bind_def prune_item_run [where w = w])
    note ih = Cons.IH [OF this]
    have "terminating (map_option meta (view w1 (key_of (meta x))))"
      using law False by (cases d) (auto simp: terminating_def)
    with ih keep show ?thesis by auto
  qed
qed

lemma prune_syncs:
  assumes "io_iterate (\<lambda>x. prune_item what (om_Name (sc_Meta x)) (delete_sync C x)) xs w = (r, w')"
  shows "certs w' = certs w \<and> (\<forall>k. k \<notin> (\<lambda>x. key_of (sc_Meta x)) ` set xs \<longrightarrow> syncs w' k = syncs w k) \<and>
    (\<forall>k. terminating (map_option sc_Meta (syncs w k)) \<longrightarrow> terminating (map_option sc_Meta (syncs w' k))) \<and>
    (r = Inr () \<longrightarrow> (\<forall>x \<in> set xs. terminating (map_option sc_Meta (syncs w' (key_of (sc_Meta x))))))"
  by (rule prune_objects [OF delete_sync_law assms])

lemma prune_certs:
  assumes "io_iterate (\<lambda>x. prune_item what (om_Name (cm_Meta x)) (delete_certificate C x)) xs w = (r, w')"
  shows "syncs w' = syncs w \<and> (\<forall>k. k \<notin> (\<lambda>x. key_of (cm_Meta x)) ` set xs \<longrightarrow> certs w' k = certs w k) \<and>
    (\<forall>k. terminating (map_option cm_Meta (certs w k)) \<longrightarrow> terminating (map_option cm_Meta (certs w' k))) \<and>
    (r = Inr () \<longrightarrow> (\<forall>x \<in> set xs. terminating (map_option cm_Meta (certs w' (key_of (cm_Meta x))))))"
  by (rule prune_objects [OF delete_certificate_law assms])

lemma orphan_sync_keys:
  assumes "set items = {x. syncs w (key_of (sc_Meta x)) = Some x \<and> is_orphan policy st (sc_Meta x)}"
  shows "(\<lambda>x. key_of (sc_Meta x)) ` set items = orphan_keys sc_Meta (syncs w) policy st"
proof (intro set_eqI iffI)
  fix k
  assume "k \<in> orphan_keys sc_Meta (syncs w) policy st"
  then obtain x where x: "syncs w k = Some x" "is_orphan policy st (sc_Meta x)" by (auto simp: orphan_keys_def)
  have "key_of (sc_Meta x) = k" by (rule sync_key [OF x(1)])
  with x have "x \<in> set items" "k = key_of (sc_Meta x)" by (simp_all add: assms)
  then show "k \<in> (\<lambda>x. key_of (sc_Meta x)) ` set items" by blast
qed (auto simp: orphan_keys_def assms)

lemma orphan_cert_keys:
  assumes "set items = {x. certs w (key_of (cm_Meta x)) = Some x \<and> is_orphan policy st (cm_Meta x)}"
  shows "(\<lambda>x. key_of (cm_Meta x)) ` set items = orphan_keys cm_Meta (certs w) policy st"
proof (intro set_eqI iffI)
  fix k
  assume "k \<in> orphan_keys cm_Meta (certs w) policy st"
  then obtain x where x: "certs w k = Some x" "is_orphan policy st (cm_Meta x)" by (auto simp: orphan_keys_def)
  have "key_of (cm_Meta x) = k" by (rule cert_key [OF x(1)])
  with x have "x \<in> set items" "k = key_of (cm_Meta x)" by (simp_all add: assms)
  then show "k \<in> (\<lambda>x. key_of (cm_Meta x)) ` set items" by blast
qed (auto simp: orphan_keys_def assms)

text \<open>The two loops of a prune, over what the lists returned.\<close>

lemma prune_both:
  assumes "io_iterate (\<lambda>s. prune_item what (om_Name (sc_Meta s)) (delete_sync C s)) ss w1 = (Inr u, w2)"
    and "same w2 w3"
    and "io_iterate (\<lambda>c. prune_item what' (om_Name (cm_Meta c)) (delete_certificate C c)) cs w3 = (r, w4)"
  shows "(\<forall>k. k \<notin> (\<lambda>s. key_of (sc_Meta s)) ` set ss \<longrightarrow> syncs w4 k = syncs w1 k) \<and>
    (\<forall>k. k \<notin> (\<lambda>c. key_of (cm_Meta c)) ` set cs \<longrightarrow> certs w4 k = certs w1 k) \<and>
    (\<forall>k \<in> (\<lambda>s. key_of (sc_Meta s)) ` set ss. terminating (map_option sc_Meta (syncs w4 k))) \<and>
    (r = Inr () \<longrightarrow> (\<forall>k \<in> (\<lambda>c. key_of (cm_Meta c)) ` set cs. terminating (map_option cm_Meta (certs w4 k))))"
  using prune_syncs [OF assms(1)] prune_certs [OF assms(3)] assms(2) unfolding same_def by simp

text \<open>
  The two sweeps of a policy that prunes: the resources of which no certificate is planned any more
  are deleted, first the sync resources, then the certificates.
\<close>

lemma orphan_sweeps:
  assumes "io_bind (io_iterate (\<lambda>s. prune_item what (om_Name (sc_Meta s)) (delete_sync C s)) stale) (\<lambda>_.
       io_bind (io_wrap g (list_certificates C (pc_CertificateNamespace (wp_Spec policy)) (MatchingLabels [(LabelPolicy, om_Name (wp_Meta policy))]))) (\<lambda>cs.
       io_iterate (\<lambda>c. prune_item what' (om_Name (cm_Meta c)) (delete_certificate C c))
         (filter (\<lambda>c. om_Name (cm_Meta c) \<notin> set (map cr_Name (st_Certificates st))) cs))) w = (r, w')"
    and keys: "(\<lambda>s. key_of (sc_Meta s)) ` set stale = orphan_keys sc_Meta (syncs w) policy st"
  shows "(\<forall>k. k \<notin> orphan_keys sc_Meta (syncs w) policy st \<longrightarrow> syncs w' k = syncs w k) \<and>
    (\<forall>k. k \<notin> orphan_keys cm_Meta (certs w) policy st \<longrightarrow> certs w' k = certs w k) \<and>
    (r = Inr () \<longrightarrow>
       (\<forall>k \<in> orphan_keys sc_Meta (syncs w) policy st. terminating (map_option sc_Meta (syncs w' k))) \<and>
       (\<forall>k \<in> orphan_keys cm_Meta (certs w) policy st. terminating (map_option cm_Meta (certs w' k))))"
proof -
  obtain r1 w1 where 1: "io_iterate (\<lambda>s. prune_item what (om_Name (sc_Meta s)) (delete_sync C s)) stale w = (r1, w1)" by fastforce
  note p1 = prune_syncs [OF 1, unfolded keys]
  obtain l w2 where l: "list_certificates C (pc_CertificateNamespace (wp_Spec policy))
      (MatchingLabels [(LabelPolicy, om_Name (wp_Meta policy))]) w1 = (l, w2)" by fastforce
  note law = list_certificates_law [OF l]
  show ?thesis
  proof (cases "\<exists>u cs. r1 = Inr u \<and> l = Inr cs")
    case False
    then have "(w' = w1 \<or> w' = w2) \<and> r \<noteq> Inr ()"
      using assms(1) 1 l by (cases r1; cases l) (auto simp: io_simps)
    with p1 law show ?thesis by auto
  next
    case True
    then obtain cs where cs: "r1 = Inr ()" "l = Inr cs" by auto
    let ?stale = "filter (\<lambda>c. om_Name (cm_Meta c) \<notin> set (map cr_Name (st_Certificates st))) cs"
    have it: "io_iterate (\<lambda>c. prune_item what' (om_Name (cm_Meta c)) (delete_certificate C c)) ?stale w2 = (r, w')"
      using assms(1) 1 l cs by (simp add: io_simps)
    have "set ?stale = {c. certs w (key_of (cm_Meta c)) = Some c \<and> is_orphan policy st (cm_Meta c)}"
      using law cs p1 by (auto simp: is_orphan_def)
    note keys' = orphan_cert_keys [OF this]
    have "same w1 w2" using law by (simp add: same_def)
    from prune_both [OF 1 [unfolded cs] this it, unfolded keys keys'] p1 show ?thesis by simp
  qed
qed

lemma orphans_law:
  assumes "pr_Client R = C" and "handleOrphans R policy st w = (r, w')"
  shows "(\<forall>k. k \<notin> orphan_keys sc_Meta (syncs w) policy st \<longrightarrow> syncs w' k = syncs w k) \<and>
    (\<forall>k. k \<notin> orphan_keys cm_Meta (certs w) policy st \<longrightarrow> certs w' k = certs w k) \<and>
    (\<not> prunes R policy st \<longrightarrow> same w w') \<and>
    (\<forall>n reason. r = Inr (n, reason) \<longrightarrow>
       (n = 0) = (orphan_keys sc_Meta (syncs w) policy st = {}) \<and>
       reason = (if n = 0 then [] else pruneWithheldReason R policy st) \<and>
       (prunes R policy st \<longrightarrow>
          (\<forall>k \<in> orphan_keys sc_Meta (syncs w) policy st. terminating (map_option sc_Meta (syncs w' k))) \<and>
          (\<forall>k \<in> orphan_keys cm_Meta (certs w) policy st. terminating (map_option cm_Meta (certs w' k)))))"
proof -
  let ?ns = "pc_CertificateNamespace (wp_Spec policy)" and ?name = "om_Name (wp_Meta policy)"
  let ?stale = "filter (\<lambda>s. om_Name (sc_Meta s) \<notin> set (map cr_Name (st_Certificates st)))"
  let ?stale' = "filter (\<lambda>c. om_Name (cm_Meta c) \<notin> set (map cr_Name (st_Certificates st)))"
  note run = assms(2) [unfolded handleOrphans_def Let_def assms(1)]
  obtain l w1 where l: "list_syncs C ?ns (MatchingLabels [(LabelPolicy, ?name)]) w = (l, w1)" by fastforce
  note law1 = list_syncs_law [OF l]
  show ?thesis
  proof (cases l)
    case (Inl e)
    with run l have "w' = w1 \<and> (\<exists>e. r = Inl e)" by (auto simp: io_simps)
    with law1 show ?thesis by (auto simp: same_def)
  next
    case (Inr items)
    have "set (?stale items) = {s. syncs w (key_of (sc_Meta s)) = Some s \<and> is_orphan policy st (sc_Meta s)}"
      using law1 Inr by (auto simp: is_orphan_def)
    note keys = orphan_sync_keys [OF this]
    have none: "(length (?stale items) = 0) = (orphan_keys sc_Meta (syncs w) policy st = {})"
      unfolding keys [symmetric] by (simp only: image_is_empty set_empty length_0_conv)
    show ?thesis
    proof (cases "prunes R policy st")
      case False
      with run l Inr have "w' = w1 \<and> r = Inr (length (?stale items), if length (?stale items) = 0 then [] else pruneWithheldReason R policy st)"
        by (auto simp: io_simps prunes_def)
      with law1 none False show ?thesis by (simp add: same_def)
    next
      case True
      obtain r2 where sweeps: "io_bind (io_iterate (\<lambda>s. prune_item ''sync resource'' (om_Name (sc_Meta s)) (delete_sync C s)) (?stale items)) (\<lambda>_.
          io_bind (io_wrap (\<lambda>err. Errorf ''listing generated certificates: %w'' [AErr err])
            (list_certificates C ?ns (MatchingLabels [(LabelPolicy, ?name)]))) (\<lambda>cs.
          io_iterate (\<lambda>c. prune_item ''certificate'' (om_Name (cm_Meta c)) (delete_certificate C c)) (?stale' cs))) w1 = (r2, w')"
        and r: "r = (case r2 of Inl e \<Rightarrow> Inl e | Inr _ \<Rightarrow> Inr (length (?stale items), []))"
        using run l Inr True by (auto simp: io_simps prunes_def split: prod.splits sum.splits)
      have views: "syncs w1 = syncs w" "certs w1 = certs w" "pruneWithheldReason R policy st = []"
        using law1 True by (simp_all add: prunes_def)
      from orphan_sweeps [OF sweeps] keys show ?thesis
        unfolding views r using none True by (cases r2) auto
    qed
  qed
qed

end

section \<open>The plan in the status\<close>

lemma int32_small: "n < 2 ^ 31 \<Longrightarrow> int32 n = int n"
  by (simp add: int32_def)

lemma length_truncate [simp]: "length (truncate_list xs n) = min (length xs) n"
  by (simp add: truncate_list_def)

lemma truncate_take: "truncate_list xs n = take n xs"
  by (simp add: truncate_list_def)

text \<open>The guidance of one certificate, and of a plan, before it is cut.\<close>

definition guidance :: "desired_certificate \<Rightarrow> listener_guidance list" where
  "guidance cert = map (\<lambda>hs. \<lparr>lg_Hostnames = hs, lg_KeyVaultSecretID = ds_SecretIdentifier cert\<rparr>) (ds_Listeners cert)"

lemma listener_loop_eq:
  "listener_loop i gs (take maxReportedListeners ls, length ls) =
     (take maxReportedListeners (ls @ map (\<lambda>hs. \<lparr>lg_Hostnames = hs, lg_KeyVaultSecretID = i\<rparr>) gs), length ls + length gs)"
proof (induction gs arbitrary: ls)
  case (Cons g gs)
  let ?l = "\<lparr>lg_Hostnames = g, lg_KeyVaultSecretID = i\<rparr>"
  have "(if length (take maxReportedListeners ls) \<ge> maxReportedListeners then take maxReportedListeners ls
         else take maxReportedListeners ls @ [?l]) = take maxReportedListeners (ls @ [?l])"
    by (cases "maxReportedListeners \<le> length ls") (auto simp: take_Cons' not_le)
  then show ?case using Cons.IH [of "ls @ [?l]"] by simp
qed simp

lemma guidance_fold:
  "fold (\<lambda>cert. listener_loop (ds_SecretIdentifier cert) (ds_Listeners cert)) cs (take maxReportedListeners ls, length ls) =
     (take maxReportedListeners (ls @ concat (map guidance cs)), length (ls @ concat (map guidance cs)))"
proof (induction cs arbitrary: ls)
  case (Cons c cs)
  have "length (ls @ guidance c) = length ls + length (ds_Listeners c)" by (simp add: guidance_def)
  then show ?case
    using Cons.IH [of "ls @ guidance c"] by (simp add: listener_loop_eq guidance_def [symmetric] ac_simps)
qed simp

lemma plan_status_eq:
  "plan_status policy st now = (wp_Status policy)
     \<lparr> pt_ObservedGeneration := om_Generation (wp_Meta policy),
       pt_DiscoveredHosts := int32 (length (st_DiscoveredHosts st)),
       pt_SkippedHostCount := int32 (length (st_Skipped st)),
       pt_LastDiscoveryTime := Some now,
       pt_RequiredCertificateCount := int32 (length (st_Certificates st)),
       pt_RequiredCertificates := map planned_of (st_Certificates st),
       pt_ApplicationGateway := Some
         \<lparr> gg_Listeners = take maxReportedListeners (concat (map guidance (st_Certificates st))),
           gg_ListenerCount = int32 (length (concat (map guidance (st_Certificates st)))) \<rparr>,
       pt_SkippedHosts := map (\<lambda>host. \<lparr>hs_Host = sk_Host host, hs_Reason = sk_Reason host\<rparr>)
         (take maxReportedSkippedHosts (st_Skipped st)) \<rparr>"
  using guidance_fold [of "st_Certificates st" "[]"]
  by (simp add: plan_status_def truncate_take)

section \<open>Properties\<close>

text \<open>
  C29. Applying a plan that has distinct names leaves, for each planned certificate, a cert-manager
  Certificate for exactly its names whose Secret will carry the label that makes it visible to
  the sync controller, and a sync resource that sends that Secret to the policy's vault under the
  same name; no other resource is touched.
\<close>
theorem policy_apply_installs:
  assumes "generated_contract C syncs certs" and "machinery_contract (lb_Machinery G)"
    and "pr_Client R = C" and "cw_Client (pr_Certificates R) = C"
    and "policy_apply G R policy st w = (Inr u, w')" and "distinct (map cr_Name (st_Certificates st))"
  shows "(\<forall>cert \<in> set (st_Certificates st). \<exists>s c. syncs w' (cert_key policy cert) = Some s \<and>
            certs w' (cert_key policy cert) = Some c \<and> sync_matches policy cert s \<and>
            cm_SecretName c = lr_Name (sx_SecretRef (cx_Source (sc_Spec s))) \<and> cm_DNSNames c = cr_DNSNames cert \<and>
            (\<exists>labels. cm_SecretTemplateLabels c = Some labels \<and> map_of labels LabelManaged = Some LabelManagedValue)) \<and>
         (\<forall>k. k \<notin> cert_key policy ` set (st_Certificates st) \<longrightarrow> syncs w' k = syncs w k \<and> certs w' k = certs w k)"
proof (intro conjI ballI)
  note all = generated_contract.apply_installs [OF assms]
  then show "\<forall>k. k \<notin> cert_key policy ` set (st_Certificates st) \<longrightarrow> syncs w' k = syncs w k \<and> certs w' k = certs w k"
    by blast
  fix cert
  assume "cert \<in> set (st_Certificates st)"
  then obtain s c where "syncs w' (cert_key policy cert) = Some s" "certs w' (cert_key policy cert) = Some c"
    "sync_matches policy cert s" "certificate_matches (certificate_request_of policy cert) c"
    using all by blast
  then show "\<exists>s c. syncs w' (cert_key policy cert) = Some s \<and>
            certs w' (cert_key policy cert) = Some c \<and> sync_matches policy cert s \<and>
            cm_SecretName c = lr_Name (sx_SecretRef (cx_Source (sc_Spec s))) \<and> cm_DNSNames c = cr_DNSNames cert \<and>
            (\<exists>labels. cm_SecretTemplateLabels c = Some labels \<and> map_of labels LabelManaged = Some LabelManagedValue)"
    by (auto simp: certificate_matches_def sync_matches_def certificate_request_of_def policy_labels_def)
qed

text \<open>
  C33. Whatever happens, only resources in the policy's namespace that carry its label and are not
  in the plan can be deleted; nothing at all is deleted unless the policy says Prune, the plan
  holds a certificate and no source the policy requires was missing at the start; and then, if no
  call fails, every orphan is gone or waits for its finalizers. The reason for withholding is
  reported exactly when there is an orphan that is kept for it.
\<close>
theorem handleOrphans_safe:
  assumes "generated_contract C syncs certs" and "pr_Client R = C" and "handleOrphans R policy st w = (r, w')"
  shows "(\<forall>k. k \<notin> orphan_keys sc_Meta (syncs w) policy st \<longrightarrow> syncs w' k = syncs w k) \<and>
    (\<forall>k. k \<notin> orphan_keys cm_Meta (certs w) policy st \<longrightarrow> certs w' k = certs w k) \<and>
    (pc_OrphanPolicy (wp_Spec policy) \<noteq> OrphanPrune \<or> st_Certificates st = [] \<or>
     \<not> pr_HTTPRoutesAvailable R \<and> explicitlyEnabled (pc_Discovery (wp_Spec policy)) dv_HTTPRoutes \<or>
     \<not> pr_GatewaysAvailable R \<and> explicitlyEnabled (pc_Discovery (wp_Spec policy)) dv_Gateways \<longrightarrow>
       syncs w' = syncs w \<and> certs w' = certs w) \<and>
    (\<forall>n reason. r = Inr (n, reason) \<longrightarrow>
       (n = 0) = (orphan_keys sc_Meta (syncs w) policy st = {}) \<and>
       reason = (if n = 0 then [] else pruneWithheldReason R policy st) \<and>
       (prunes R policy st \<longrightarrow>
          (\<forall>k \<in> orphan_keys sc_Meta (syncs w) policy st. terminating (map_option sc_Meta (syncs w' k))) \<and>
          (\<forall>k \<in> orphan_keys cm_Meta (certs w) policy st. terminating (map_option cm_Meta (certs w' k)))))"
proof -
  have "\<not> prunes R policy st \<longleftrightarrow> pc_OrphanPolicy (wp_Spec policy) \<noteq> OrphanPrune \<or> st_Certificates st = [] \<or>
     \<not> pr_HTTPRoutesAvailable R \<and> explicitlyEnabled (pc_Discovery (wp_Spec policy)) dv_HTTPRoutes \<or>
     \<not> pr_GatewaysAvailable R \<and> explicitlyEnabled (pc_Discovery (wp_Spec policy)) dv_Gateways"
    by (auto simp: prunes_def pruneWithheldReason_def Let_def)
  then show ?thesis
    using generated_contract.orphans_law [OF assms] unfolding generated_contract.same_def [OF assms(1)] by blast
qed


section \<open>Examples\<close>

definition toy_writer :: "api_server certificate_writer" where
  "toy_writer = \<lparr>cw_Client = memory_client, cw_Mapper = (\<lambda>gk v. io_return ())\<rparr>"

definition toy_policies :: "api_server policy_reconciler" where
  "toy_policies =
     \<lparr> pr_Client = memory_client, pr_Recorder = None, pr_Certificates = toy_writer, pr_Clock = (\<lambda>w. (2000, w)),
       pr_HTTPRoutesAvailable = False, pr_GatewaysAvailable = False, pr_Cloud = CloudPublic, pr_AllowedVaults = [],
       pr_Rand = (\<lambda>n w. (0, w)), pr_Metrics = (\<lambda>f w. w\<lparr>sv_Metrics := f (sv_Metrics w)\<rparr>) \<rparr>"

definition toy_policy :: wildcard_policy where
  "toy_policy =
     \<lparr> wp_Meta = named_meta [] ''main'',
       wp_Spec = \<lparr> pc_Zones = [''x.com''], pc_IssueZoneWildcards = True, pc_MaxCertificates = 10, pc_Discovery = None,
         pc_Grouping = ''PerZone'', pc_IssuerRef = \<lparr>is_Name = ''le'', is_Kind = ''ClusterIssuer'', is_Group = ''cert-manager.io''\<rparr>,
         pc_CertificateNamespace = ''certs'', pc_KeyVault = empty_vault_spec\<lparr>kv_Name := ''kv-one''\<rparr>,
         pc_OrphanPolicy = ''Prune'', pc_SyncPolicy = None \<rparr>,
       wp_Status = \<lparr> pt_Conditions = [], pt_ObservedGeneration = 0, pt_DiscoveredHosts = 0, pt_RequiredCertificates = [],
         pt_RequiredCertificateCount = 0, pt_SkippedHosts = [], pt_SkippedHostCount = 0, pt_ApplicationGateway = None,
         pt_LastDiscoveryTime = None \<rparr> \<rparr>"

definition toy_state :: desired_state where
  "toy_state =
     \<lparr> st_Certificates = [desired_of ''https://kv-one.vault.azure.net''
         \<lparr>cr_Name = ''wildcard-x-com'', cr_Zone = ''x.com'', cr_DNSNames = [''*.a.x.com'', ''*.x.com'', ''x.com'']\<rparr>],
       st_Skipped = [], st_DiscoveredHosts = [] \<rparr>"

lemma policy_apply_installs_witness:
  "\<exists>w' s c. policy_apply toy_library toy_policies toy_policy toy_state (toy_server []) = (Inr (), w') \<and>
     server_syncs w' \<lparr>ok_Namespace = ''certs'', ok_Name = ''wildcard-x-com''\<rparr> = Some s \<and>
     server_certs w' \<lparr>ok_Namespace = ''certs'', ok_Name = ''wildcard-x-com''\<rparr> = Some c \<and>
     lr_Name (sx_SecretRef (cx_Source (sc_Spec s))) = ''wildcard-x-com-tls''"
proof -
  let ?run = "policy_apply toy_library toy_policies toy_policy toy_state (toy_server [])"
  have "case fst ?run of Inl _ \<Rightarrow> False | Inr _ \<Rightarrow> True" by code_simp
  then obtain w' where r: "?run = (Inr (), w')" by (cases ?run) (auto split: sum.splits)
  have c: "pr_Client toy_policies = memory_client" "cw_Client (pr_Certificates toy_policies) = memory_client"
    "distinct (map cr_Name (st_Certificates toy_state))"
    by (simp_all add: toy_policies_def toy_writer_def toy_state_def desired_of_def)
  from policy_apply_installs [OF memory_server.generated_contract_axioms toy_machinery c(1,2) r c(3)] r show ?thesis
    by (auto simp: toy_state_def desired_of_def cert_key_def toy_policy_def sync_matches_def)
qed

lemma handleOrphans_safe_witness:
  "server_syncs (snd (handleOrphans toy_policies toy_policy (toy_state\<lparr>st_Certificates := []\<rparr>) (toy_server [toy_sync None]))) =
     server_syncs (toy_server [toy_sync None])"
proof -
  obtain r w' where h: "handleOrphans toy_policies toy_policy (toy_state\<lparr>st_Certificates := []\<rparr>) (toy_server [toy_sync None]) = (r, w')"
    by fastforce
  have c: "pr_Client toy_policies = memory_client" by (simp add: toy_policies_def)
  from handleOrphans_safe [OF memory_server.generated_contract_axioms c h] h show ?thesis by auto
qed


end
