(* ===== verification/Schema.thy ===== *)
theory Schema
  imports PolicyProps SyncCtlProps
begin

text \<open>
  The schemas of the two resources: the validation that the markers on the fields of
  \<open>api/v1alpha1\<close> ask the API server for, as predicates on the records of \<open>Api\<close>, and which writes of the
  controllers they accept. An empty field is omitted when it is marked so. The validation of
  conditions, which is that of Kubernetes, is left out.
\<close>

section \<open>Specifications\<close>

definition pkcs12_profiles :: "string list" where
  "pkcs12_profiles = [''legacy'', ''passwordless'', ''modern'']"

definition cloud_names :: "string list" where
  "cloud_names = [''AzurePublicCloud'', ''AzureUSGovernmentCloud'', ''AzureChinaCloud'']"

text \<open>\<^verbatim>\<open>^https://.+$\<close>, where the dot is no line break.\<close>

definition https_pattern :: "string \<Rightarrow> bool" where
  "https_pattern url = (case CutPrefix url ''https://'' of None \<Rightarrow> False | Some r \<Rightarrow> r \<noteq> [] \<and> char_of (10 :: nat) \<notin> set r)"

definition valid_secret_reference :: "local_secret_reference \<Rightarrow> bool" where
  "valid_secret_reference r = (lr_Name r \<noteq> [])"

definition valid_source :: "certificate_source_spec \<Rightarrow> bool" where
  "valid_source s = valid_secret_reference (sx_SecretRef s)"

definition valid_key_vault :: "key_vault_spec \<Rightarrow> bool" where
  "valid_key_vault k =
     ((kv_Name k \<noteq> []) \<noteq> (kv_VaultURL k \<noteq> []) \<and>
      (kv_Name k = [] \<or> 3 \<le> length (kv_Name k) \<and> length (kv_Name k) \<le> 24) \<and>
      (kv_VaultURL k = [] \<or> https_pattern (kv_VaultURL k)) \<and>
      (kv_Cloud k = [] \<or> kv_Cloud k \<in> set cloud_names) \<and>
      (kv_CertificateName k = [] \<or> valid_vault_name (kv_CertificateName k)))"

definition valid_sync_policy :: "sync_policy_spec \<Rightarrow> bool" where
  "valid_sync_policy p = (sp_PKCS12Profile p = [] \<or> sp_PKCS12Profile p \<in> set pkcs12_profiles)"

definition valid_sync_spec :: "cert_sync_spec \<Rightarrow> bool" where
  "valid_sync_spec s =
     (valid_source (cx_Source s) \<and> valid_key_vault (cx_KeyVault s) \<and> pred_option valid_sync_policy (cx_SyncPolicy s))"

definition valid_issuer :: "issuer_reference \<Rightarrow> bool" where
  "valid_issuer i = (is_Name i \<noteq> [] \<and> (is_Kind i = [] \<or> is_Kind i \<in> set [''Issuer'', ''ClusterIssuer'']))"

definition valid_policy_spec :: "policy_cr_spec \<Rightarrow> bool" where
  "valid_policy_spec s =
     (1 \<le> length (pc_Zones s) \<and> length (pc_Zones s) \<le> 50 \<and>
      1 \<le> pc_MaxCertificates s \<and> pc_MaxCertificates s \<le> 100 \<and>
      (pc_Grouping s = [] \<or> pc_Grouping s \<in> set [''PerZone'', ''PerWildcard'']) \<and>
      valid_issuer (pc_IssuerRef s) \<and> pc_CertificateNamespace s \<noteq> [] \<and> valid_key_vault (pc_KeyVault s) \<and>
      (pc_OrphanPolicy s = [] \<or> pc_OrphanPolicy s \<in> set [OrphanRetain, OrphanPrune]) \<and>
      pred_option valid_sync_policy (pc_SyncPolicy s))"

section \<open>Statuses\<close>

definition is_int32 :: "int \<Rightarrow> bool" where
  "is_int32 i = (- (2 ^ 31) \<le> i \<and> i < 2 ^ 31)"

definition valid_sync_status :: "cert_sync_status \<Rightarrow> bool" where
  "valid_sync_status s = (length (ct_DNSNames s) \<le> 100)"

definition valid_planned :: "planned_certificate \<Rightarrow> bool" where
  "valid_planned p = (length (pn_DNSNames p) \<le> 100)"

definition valid_listener :: "listener_guidance \<Rightarrow> bool" where
  "valid_listener l = (length (lg_Hostnames l) \<le> 5)"

definition valid_gateway :: "gateway_guidance \<Rightarrow> bool" where
  "valid_gateway g =
     (length (gg_Listeners g) \<le> 100 \<and> list_all valid_listener (gg_Listeners g) \<and> is_int32 (gg_ListenerCount g))"

definition valid_policy_status :: "policy_cr_status \<Rightarrow> bool" where
  "valid_policy_status s =
     (is_int32 (pt_DiscoveredHosts s) \<and>
      length (pt_RequiredCertificates s) \<le> 100 \<and> list_all valid_planned (pt_RequiredCertificates s) \<and>
      is_int32 (pt_RequiredCertificateCount s) \<and>
      length (pt_SkippedHosts s) \<le> 50 \<and> is_int32 (pt_SkippedHostCount s) \<and>
      pred_option valid_gateway (pt_ApplicationGateway s))"

lemmas spec_schema = valid_secret_reference_def valid_source_def valid_key_vault_def valid_sync_policy_def
  valid_sync_spec_def valid_issuer_def valid_policy_spec_def
lemmas status_schema = valid_sync_status_def valid_planned_def valid_listener_def valid_gateway_def valid_policy_status_def

section \<open>What the policy controller writes\<close>

lemma int32_is_int32: "is_int32 (int32 n)"
proof -
  have "0 \<le> (int n + 2 ^ 31) mod 2 ^ 32" "(int n + 2 ^ 31) mod 2 ^ 32 < (2 :: int) ^ 32" by simp_all
  then show ?thesis by (simp add: is_int32_def int32_def)
qed

lemma valid_vault_name_nonempty: "valid_vault_name n \<Longrightarrow> n \<noteq> []"
  by (auto simp: valid_vault_name_def)

text \<open>The certificates of a plan have valid names and at most as many names as the cap says.\<close>

lemma policy_plan_certificates:
  assumes "policy_plan G R policy existing w = (Inr st, w')" and "1 \<le> pc_MaxCertificates (wp_Spec policy)"
  shows "list_all (\<lambda>c. valid_vault_name (cr_Name c) \<and> ds_SecretName c \<noteq> [] \<and>
      list_all (\<lambda>g. length g \<le> 5) (ds_Listeners c)) (st_Certificates st) \<and>
    int (card (cr_Name ` set (st_Certificates st))) \<le> pc_MaxCertificates (wp_Spec policy)"
proof -
  obtain vaultURL sel spec w1 where p: "PlanState (lb_Platform G) (HostSource_Hosts (cl_Reader (pr_Client R)) (discovery_config R policy sel))
      spec w1 = (Inr st, w')" "ps_MaxCertificates spec = pc_MaxCertificates (wp_Spec policy)" "ps_VaultURL spec = vaultURL"
    using assms(1) by (fastforce simp: policy_plan_def io_Inr_iffs)
  obtain hosts pl where b: "BuildPlan (lb_Platform G) (input_of spec hosts) = Inr pl"
    "st_Certificates st = map (desired_of vaultURL) (pl_Certificates pl)"
    using PlanState_InrE [OF p(1)] p(3) by metis
  have "list_all (\<lambda>c. valid_vault_name (cr_Name c)) (pl_Certificates pl)"
    using BuildPlan_certificates [OF b(1)] by (auto simp: list_all_iff)
  moreover obtain certs where "pl_Certificates pl = fst (applyLimit certs (pi_MaxCertificates (input_of spec hosts)) (pi_Existing (input_of spec hosts)))"
    using BuildPlan_uncapped [OF b(1)] by blast
  then have "int (card (cr_Name ` set (pl_Certificates pl))) \<le> pc_MaxCertificates (wp_Spec policy)"
    using applyLimit_bound [OF prod.collapse [symmetric], of "pi_MaxCertificates (input_of spec hosts)" certs
      "pi_Existing (input_of spec hosts)"] assms(2) p(2)
    by (simp add: input_of_def)
  ultimately show ?thesis using listener_groups(2)
    by (auto simp: b(2) list_all_iff desired_of_def image_image)
qed

lemma plan_status_valid:
  assumes "list_all (\<lambda>c. list_all (\<lambda>g. length g \<le> 5) (ds_Listeners c)) (st_Certificates st)"
    and "length (st_Certificates st) \<le> 100"
  shows "valid_policy_status (plan_status policy st now)"
proof -
  have "list_all valid_listener (concat (map guidance (st_Certificates st)))"
    using assms(1) by (auto simp: list_all_iff guidance_def valid_listener_def)
  then have "list_all valid_listener (take maxReportedListeners (concat (map guidance (st_Certificates st))))"
    by (metis append_take_drop_id list_all_append)
  then show ?thesis using assms(2)
    by (simp add: plan_status_eq valid_policy_status_def valid_gateway_def int32_is_int32 list_all_iff valid_planned_def
      planned_of_def maxReportedDNSNames_def maxReportedListeners_def maxReportedSkippedHosts_def)
qed

lemma valid_key_vault_named:
  assumes "valid_key_vault k" and "valid_vault_name n"
  shows "valid_key_vault (k\<lparr>kv_CertificateName := n\<rparr>)"
proof -
  obtain a b c d m where k: "k = \<lparr>kv_Name = a, kv_VaultURL = b, kv_Cloud = c, kv_CertificateName = d, \<dots> = m\<rparr>" by (cases k)
  show ?thesis using assms unfolding k valid_key_vault_def key_vault_spec.select_convs key_vault_spec.update_convs by blast
qed

lemma desired_sync_valid:
  assumes "desired_sync_state M policy cert sync = Inr sync'" and "valid_policy_spec (wp_Spec policy)"
    and "valid_vault_name (cr_Name cert)" and "ds_SecretName cert \<noteq> []"
  shows "valid_sync_spec (sc_Spec sync')"
proof -
  have "sc_Spec sync' = \<lparr> cx_Source = \<lparr>sx_SecretRef = \<lparr>lr_Name = ds_SecretName cert\<rparr>\<rparr>,
      cx_KeyVault = (pc_KeyVault (wp_Spec policy))\<lparr>kv_CertificateName := cr_Name cert\<rparr>,
      cx_SyncPolicy = pc_SyncPolicy (wp_Spec policy) \<rparr>"
    using assms(1) by (auto simp: desired_sync_state_def Let_def split: sum.splits)
  moreover have "valid_key_vault ((pc_KeyVault (wp_Spec policy))\<lparr>kv_CertificateName := cr_Name cert\<rparr>)"
    using assms(2,3) by (intro valid_key_vault_named) (simp_all only: valid_policy_spec_def)
  ultimately show ?thesis
    using assms(2,4) by (simp add: valid_sync_spec_def valid_source_def valid_secret_reference_def valid_policy_spec_def)
qed

text \<open>
  C35. The policy controller writes well-typed resources: under a policy that the API server has
  admitted, each sync resource it desires has a specification that the schema accepts, and the
  status it reports is one that the schema accepts, whatever the plan, as long as the names of the
  planned certificates are distinct (which only a collision of digests can prevent).
\<close>
theorem policy_writes_valid:
  assumes "valid_policy_spec (wp_Spec policy)" and "policy_plan G R policy existing w = (Inr st, w')"
    and "distinct (map cr_Name (st_Certificates st))"
  shows "valid_policy_status (plan_status policy st now) \<and>
    (\<forall>cert \<in> set (st_Certificates st). \<forall>M sync.
       pred_option (\<lambda>sync'. valid_sync_spec (sc_Spec sync'))
         (case desired_sync_state M policy cert sync of Inl _ \<Rightarrow> None | Inr sync' \<Rightarrow> Some sync'))"
proof -
  have m: "1 \<le> pc_MaxCertificates (wp_Spec policy)" "pc_MaxCertificates (wp_Spec policy) \<le> 100"
    using assms(1) by (simp_all add: valid_policy_spec_def)
  note plan = policy_plan_certificates [OF assms(2) m(1)]
  have "length (st_Certificates st) = card (cr_Name ` set (st_Certificates st))"
    using distinct_card [OF assms(3)] by simp
  with plan m have "length (st_Certificates st) \<le> 100" by linarith
  then have "valid_policy_status (plan_status policy st now)"
    using plan by (intro plan_status_valid) (auto simp: list_all_iff)
  moreover have "valid_sync_spec (sc_Spec sync')"
    if "cert \<in> set (st_Certificates st)" "desired_sync_state M policy cert sync = Inr sync'" for cert M sync sync'
    using plan that by (intro desired_sync_valid [OF that(2) assms(1)]) (auto simp: list_all_iff)
  ultimately show ?thesis by (auto split: sum.split)
qed

section \<open>What the sync controller writes\<close>

text \<open>
  The names of the certificate go into the status uncut, though the schema takes at most a hundred.
  A certificate with more names is imported, but its status is refused by the API server, so that the
  run ends with an error, each time.
\<close>

lemma outcome_status_valid_iff:
  "valid_sync_status (outcome_status sync outcome now) \<longleftrightarrow> length (so_DNSNames outcome) \<le> 100"
  by (simp add: valid_sync_status_def outcome_status_def Let_def)

lemma applyOutcome_names:
  "applyOutcome G R sync outcome w = (r, w') \<Longrightarrow>
     (case r of Inl _ \<Rightarrow> True | Inr sync' \<Rightarrow> ct_DNSNames (sc_Status sync') = so_DNSNames outcome)"
  by (cases r) (auto simp: applyOutcome_def io_Inr_iffs Let_def outcome_status_def split: prod.splits if_splits)

text \<open>An API server that refuses invalid statuses.\<close>

lemma long_certificate_never_ready:
  assumes "\<And>s w. \<not> valid_sync_status (sc_Status s) \<Longrightarrow>
      \<exists>e w'. update_sync_status (sr_Client R) s w = (Inl e, w') \<and> \<not> IsConflict e \<and> \<not> IsNotFound e"
    and "sync_add_finalizer G R sync w = (Inr sync', w1)" and "sync_sync G R sync' w1 = (Inr outcome, w2)"
    and "100 < length (so_DNSNames outcome)"
  shows "\<exists>e w'. sync_live G R sync w = (Inl e, w')"
proof -
  obtain r w3 where a: "applyOutcome G R sync' outcome w2 = (r, w3)" by fastforce
  show ?thesis
  proof (cases r)
    case (Inl e)
    with a assms(2,3) show ?thesis by (auto simp: sync_live_def io_simps Let_def)
  next
    case (Inr sync'')
    with applyOutcome_names [OF a] assms(4) have "\<not> valid_sync_status (sc_Status sync'')" by (simp add: valid_sync_status_def)
    from assms(1) [OF this, of w3] obtain e w' where u: "update_sync_status (sr_Client R) sync'' w3 = (Inl e, w')"
      "\<not> IsConflict e" "\<not> IsNotFound e" by blast
    show ?thesis using a Inr assms(2,3) u by (auto simp: sync_live_def updateStatus_def io_simps Let_def)
  qed
qed

section \<open>Example\<close>

lemma policy_writes_valid_witness:
  "\<exists>st w'. policy_plan toy_library toy_policies toy_policy [] (toy_server []) = (Inr st, w') \<and>
     st_Certificates st \<noteq> [] \<and> valid_policy_status (plan_status toy_policy st 2000)"
proof -
  let ?run = "policy_plan toy_library toy_policies toy_policy [] (toy_server [])"
  have "case fst ?run of Inl _ \<Rightarrow> False | Inr st \<Rightarrow> distinct (map cr_Name (st_Certificates st)) \<and> st_Certificates st \<noteq> []"
    by code_simp
  then obtain st w' where r: "?run = (Inr st, w')" "distinct (map cr_Name (st_Certificates st))" "st_Certificates st \<noteq> []"
    by (cases ?run) (auto split: sum.splits)
  have "valid_policy_spec (wp_Spec toy_policy)"
    by (simp add: toy_policy_def valid_policy_spec_def valid_key_vault_def valid_issuer_def empty_vault_spec_def
      OrphanRetain_def OrphanPrune_def cloud_names_def)
  from policy_writes_valid [OF this r(1,2)] r(1,3) show ?thesis by blast
qed

end
