(* ===== verification/Memory.thy ===== *)
theory Memory
  imports Main "HOL-Library.Sublist"
begin

text \<open>
  Memory, for code that is about sharing. Elsewhere in this development values are not shared; here a
  memory is a list of cells, an address an index, and allocation appends. A pointer is an address or
  nil; a slice is nil or the address of an array that it spans. Strings are immutable and are values.
\<close>

type_synonym addr = nat

type_synonym 'c memory = "'c list"

section \<open>Reading and copying\<close>

definition deref :: "('c \<Rightarrow> 'x option) \<Rightarrow> 'c memory \<Rightarrow> addr \<Rightarrow> 'x option" where
  "deref un h a = (if a < length h then un (h ! a) else None)"

definition read_ptr ::
  "('c \<Rightarrow> 'x option) \<Rightarrow> ('c memory \<Rightarrow> 'x \<Rightarrow> 'y option) \<Rightarrow> 'c memory \<Rightarrow> addr option \<Rightarrow> 'y option option" where
  "read_ptr un rd h p =
     (case p of None \<Rightarrow> Some None
      | Some a \<Rightarrow> (case deref un h a of None \<Rightarrow> None | Some x \<Rightarrow> map_option Some (rd h x)))"

definition read_value :: "'c memory \<Rightarrow> 'x \<Rightarrow> 'x option" where
  "read_value h x = Some x"

definition read_list :: "('c memory \<Rightarrow> 'x \<Rightarrow> 'y option) \<Rightarrow> 'c memory \<Rightarrow> 'x list \<Rightarrow> 'y list option" where
  "read_list rd h xs = those (map (rd h) xs)"

definition read_both ::
  "('c memory \<Rightarrow> 'x \<Rightarrow> 'y option) \<Rightarrow> ('c memory \<Rightarrow> 'a \<Rightarrow> 'b option) \<Rightarrow> 'c memory \<Rightarrow> 'x \<times> 'a \<Rightarrow> ('y \<times> 'b) option" where
  "read_both r1 r2 h = (\<lambda>(x, y). case (r1 h x, r2 h y) of (Some u, Some v) \<Rightarrow> Some (u, v) | _ \<Rightarrow> None)"

text \<open>A nil slice is read as the empty list.\<close>

definition elements :: "'a list option \<Rightarrow> 'a list" where
  "elements s = (case s of None \<Rightarrow> [] | Some xs \<Rightarrow> xs)"

text \<open>
  \<open>*out = new(T)\<close> or \<open>*out = make([]T, n)\<close> and the copy of what \<open>in\<close> points to, for an \<open>in\<close> that is not
  nil. What was allocated is \<open>zero\<close> until it is written. A pointer of Go is never dangling.
\<close>

definition copy_ptr ::
  "'c \<Rightarrow> ('c \<Rightarrow> 'x option) \<Rightarrow> ('x \<Rightarrow> 'c) \<Rightarrow> ('x \<Rightarrow> 'c memory \<Rightarrow> 'x \<times> 'c memory) \<Rightarrow>
     addr option \<Rightarrow> 'c memory \<Rightarrow> addr option \<times> 'c memory" where
  "copy_ptr zero un wrap into p h =
     (case p of None \<Rightarrow> (None, h)
      | Some a \<Rightarrow>
          (case deref un h a of None \<Rightarrow> (None, h)
           | Some x \<Rightarrow>
               let out = length h in
               (case into x (h @ [zero]) of (y, h') \<Rightarrow> (Some out, h'[out := wrap y]))))"

definition copy_value :: "'x \<Rightarrow> 'c memory \<Rightarrow> 'x \<times> 'c memory" where
  "copy_value x h = (x, h)"

text \<open>\<open>for i := range *in { (*in)[i].DeepCopyInto(&(*out)[i]) }\<close>\<close>

fun copy_list :: "('x \<Rightarrow> 'c memory \<Rightarrow> 'x \<times> 'c memory) \<Rightarrow> 'x list \<Rightarrow> 'c memory \<Rightarrow> 'x list \<times> 'c memory" where
  "copy_list into [] h = ([], h)"
| "copy_list into (x # xs) h =
     (case into x h of (y, h1) \<Rightarrow> case copy_list into xs h1 of (ys, h2) \<Rightarrow> (y # ys, h2))"

definition copy_both ::
  "('x \<Rightarrow> 'c memory \<Rightarrow> 'x \<times> 'c memory) \<Rightarrow> ('y \<Rightarrow> 'c memory \<Rightarrow> 'y \<times> 'c memory) \<Rightarrow>
     'x \<times> 'y \<Rightarrow> 'c memory \<Rightarrow> ('x \<times> 'y) \<times> 'c memory" where
  "copy_both i1 i2 = (\<lambda>(x, y) h. case i1 x h of (x', h1) \<Rightarrow> case i2 y h1 of (y', h2) \<Rightarrow> ((x', y'), h2))"

section \<open>What a copy is\<close>

text \<open>
  \<open>g\<close> agrees with \<open>h'\<close> on the cells that were allocated after \<open>h\<close>. A copy stands for the value of its
  original in every such memory, so that it depends on no older cell.
\<close>

definition agree :: "'c memory \<Rightarrow> 'c memory \<Rightarrow> 'c memory \<Rightarrow> bool" where
  "agree h h' g \<longleftrightarrow> length h' \<le> length g \<and> (\<forall>a. length h \<le> a \<longrightarrow> a < length h' \<longrightarrow> g ! a = h' ! a)"

definition owns :: "('c memory \<Rightarrow> 'x \<Rightarrow> 'y option) \<Rightarrow> 'c memory \<Rightarrow> 'x \<times> 'c memory \<Rightarrow> 'y \<Rightarrow> bool" where
  "owns rd h = (\<lambda>(y, h') v. prefix h h' \<and> (\<forall>g. agree h h' g \<longrightarrow> rd g y = Some v))"

locale copier =
  fixes rd :: "'c memory \<Rightarrow> 'x \<Rightarrow> 'y option"
    and into :: "'x \<Rightarrow> 'c memory \<Rightarrow> 'x \<times> 'c memory"
  assumes stable: "rd h x = Some v \<Longrightarrow> prefix h g \<Longrightarrow> rd g x = Some v"
    and into: "rd h x = Some v \<Longrightarrow> owns rd h (into x h) v"

lemma prefix_nth: "prefix h g \<Longrightarrow> a < length h \<Longrightarrow> g ! a = h ! a"
  by (auto simp: prefix_def nth_append)

lemma agree_trans:
  assumes "prefix h h1" and "prefix h1 h2" and "agree h h2 g"
  shows "agree h h1 g" and "agree h1 h2 g"
proof -
  note l = prefix_length_le [OF assms(1)] prefix_length_le [OF assms(2)]
  show "agree h1 h2 g" using l assms(3) by (simp add: agree_def)
  show "agree h h1 g" unfolding agree_def
  proof (intro conjI allI impI)
    show "length h1 \<le> length g" using l assms(3) by (simp add: agree_def)
    fix a assume "length h \<le> a" "a < length h1"
    with l(2) assms(3) prefix_nth [OF assms(2)] show "g ! a = h1 ! a" by (simp add: agree_def)
  qed
qed

lemma agree_refl: "agree h h' h'"
  by (simp add: agree_def)

lemma copier_value: "copier read_value copy_value"
  by unfold_locales (auto simp: read_value_def copy_value_def owns_def)

lemma read_both_Some:
  "read_both r1 r2 h x = Some v \<longleftrightarrow> (\<exists>a b u w. x = (a, b) \<and> v = (u, w) \<and> r1 h a = Some u \<and> r2 h b = Some w)"
  by (auto simp: read_both_def split: prod.splits option.splits)

lemma copier_both:
  assumes "copier r1 i1" and "copier r2 i2"
  shows "copier (read_both r1 r2) (copy_both i1 i2)"
proof
  fix h x v g
  assume r: "read_both r1 r2 h x = Some v" and p: "prefix h g"
  obtain a b u w where x: "x = (a, b)" "v = (u, w)" "r1 h a = Some u" "r2 h b = Some w"
    using r by (auto simp: read_both_Some)
  show "read_both r1 r2 g x = Some v"
    using copier.stable [OF assms(1) x(3) p] copier.stable [OF assms(2) x(4) p] x(1,2) by (simp add: read_both_def)
next
  fix h x v
  assume r: "read_both r1 r2 h x = Some v"
  obtain a b u w where x: "x = (a, b)" "v = (u, w)" "r1 h a = Some u" "r2 h b = Some w"
    using r by (auto simp: read_both_Some)
  obtain a' h1 where a: "i1 a h = (a', h1)" by fastforce
  have o1: "prefix h h1" "\<And>g. agree h h1 g \<Longrightarrow> r1 g a' = Some u"
    using copier.into [OF assms(1) x(3)] a by (auto simp: owns_def)
  obtain b' h2 where b: "i2 b h1 = (b', h2)" by fastforce
  have o2: "prefix h1 h2" "\<And>g. agree h1 h2 g \<Longrightarrow> r2 g b' = Some w"
    using copier.into [OF assms(2) copier.stable [OF assms(2) x(4) o1(1)]] b by (auto simp: owns_def)
  have "prefix h h2" using o1(1) o2(1) by (rule prefix_order.trans)
  then show "owns (read_both r1 r2) h (copy_both i1 i2 x h) v"
    using agree_trans [OF o1(1) o2(1)] o1(2) o2(2) x(1,2) a b
    by (auto simp: owns_def copy_both_def read_both_def)
qed

text \<open>A struct is copied by its fields.\<close>

lemma copier_struct:
  assumes c: "copier r i" and "\<And>x t. get (put x t) = t" and "\<And>x t. f (put x t) = f x"
    and r': "\<And>h x. r' h x = map_option (f x) (r h (get x))"
    and i': "\<And>x h. i' x h = (case i (get x) h of (t, h') \<Rightarrow> (put x t, h'))"
  shows "copier r' i'"
proof
  fix h x v g
  assume "r' h x = Some v" and p: "prefix h g"
  then obtain u where u: "r h (get x) = Some u" "v = f x u" unfolding r' map_option_eq_Some by blast
  show "r' g x = Some v" unfolding r' copier.stable [OF c u(1) p] u(2) by simp
next
  fix h x v
  assume "r' h x = Some v"
  then obtain u where u: "r h (get x) = Some u" "v = f x u" unfolding r' map_option_eq_Some by blast
  obtain y h' where y: "i (get x) h = (y, h')" by fastforce
  have o: "prefix h h'" "\<And>g. agree h h' g \<Longrightarrow> r g y = Some u"
    using copier.into [OF c u(1)] y by (auto simp: owns_def)
  have "r' g (put x y) = Some v" if "agree h h' g" for g
    unfolding r' assms(2,3) o(2) [OF that] u(2) by simp
  with o(1) y show "owns r' h (i' x h) v" unfolding i' by (simp add: owns_def)
qed

context copier
begin

lemma items: "copier (read_list rd) (copy_list into)"
proof
  fix h xs v g
  assume "read_list rd h xs = Some v" "prefix h g"
  then show "read_list rd g xs = Some v" unfolding read_list_def
    by (induction xs arbitrary: v) (auto split: option.splits dest: stable)
next
  fix h xs vs
  assume "read_list rd h xs = Some vs"
  then show "owns (read_list rd) h (copy_list into xs h) vs"
  proof (induction xs arbitrary: h vs)
    case Nil
    then show ?case by (simp add: owns_def read_list_def)
  next
    case (Cons x xs)
    then obtain v ws where v: "rd h x = Some v" "read_list rd h xs = Some ws" "vs = v # ws"
      by (auto simp: read_list_def split: option.splits)
    obtain y h1 where y: "into x h = (y, h1)" by fastforce
    have o1: "prefix h h1" "\<And>g. agree h h1 g \<Longrightarrow> rd g y = Some v"
      using into [OF v(1)] y by (auto simp: owns_def)
    have s: "read_list rd h1 xs = Some ws"
      using v(2) o1(1) unfolding read_list_def
      by (induction xs arbitrary: ws) (auto split: option.splits dest: stable)
    obtain ys h2 where ys: "copy_list into xs h1 = (ys, h2)" by fastforce
    have o2: "prefix h1 h2" "\<And>g. agree h1 h2 g \<Longrightarrow> read_list rd g ys = Some ws"
      using Cons.IH [OF s] ys by (auto simp: owns_def)
    have "prefix h h2" using o1(1) o2(1) by (rule prefix_order.trans)
    then show ?case
      using agree_trans [OF o1(1) o2(1)] o1(2) o2(2) v(3) y ys by (auto simp: owns_def read_list_def)
  qed
qed

end

text \<open>A pointer to what can be copied can be copied.\<close>

locale ptr_copier = copier rd into
  for rd :: "'c memory \<Rightarrow> 'x \<Rightarrow> 'y option" and into +
  fixes zero :: 'c and un :: "'c \<Rightarrow> 'x option" and wrap :: "'x \<Rightarrow> 'c"
  assumes un_wrap: "un (wrap x) = Some x"

lemma deref_prefix: "deref un h a = Some x \<Longrightarrow> prefix h g \<Longrightarrow> deref un g a = Some x"
  by (auto simp: deref_def prefix_def nth_append split: if_splits)

context ptr_copier
begin

lemma ptr_stable:
  assumes "read_ptr un rd h p = Some v" and "prefix h g"
  shows "read_ptr un rd g p = Some v"
proof (cases p)
  case None
  with assms(1) show ?thesis by (simp add: read_ptr_def)
next
  case (Some a)
  then obtain x u where x: "deref un h a = Some x" "rd h x = Some u" "v = Some u"
    using assms(1) by (auto simp: read_ptr_def split: option.splits)
  show ?thesis using deref_prefix [OF x(1) assms(2)] stable [OF x(2) assms(2)] x(3) Some by (simp add: read_ptr_def)
qed

lemma ptr_into:
  assumes "read_ptr un rd h p = Some v"
  shows "owns (read_ptr un rd) h (copy_ptr zero un wrap into p h) v"
proof (cases p)
  case None
  with assms show ?thesis by (simp add: read_ptr_def copy_ptr_def owns_def)
next
  case (Some a)
  then obtain x u where x: "deref un h a = Some x" "rd h x = Some u" "v = Some u"
    using assms by (auto simp: read_ptr_def split: option.splits)
  obtain y h' where y: "into x (h @ [zero]) = (y, h')" by fastforce
  have o: "prefix (h @ [zero]) h'" "\<And>g. agree (h @ [zero]) h' g \<Longrightarrow> rd g y = Some u"
    using into [OF stable [OF x(2), of "h @ [zero]"]] y by (auto simp: owns_def)
  have p: "prefix h (h'[length h := wrap y])" using o(1) by (auto simp: prefix_def list_update_append)
  have l: "length h < length h'" using o(1) by (auto simp: prefix_def)
  have "read_ptr un rd g (Some (length h)) = Some v" if g: "agree h (h'[length h := wrap y]) g" for g
  proof -
    have "agree (h @ [zero]) h' g" using g by (auto simp: agree_def)
    moreover have "deref un g (length h) = Some y" using g l un_wrap by (auto simp: agree_def deref_def)
    ultimately show ?thesis using o(2) x(3) by (simp add: read_ptr_def)
  qed
  with p Some x(1) y show ?thesis by (simp add: owns_def copy_ptr_def Let_def)
qed

end

sublocale ptr_copier \<subseteq> ptr: copier "read_ptr un rd" "copy_ptr zero un wrap into"
  by unfold_locales (rule ptr_stable ptr_into; assumption)+

definition boxes :: "('c \<Rightarrow> 'x option) \<Rightarrow> ('x \<Rightarrow> 'c) \<Rightarrow> bool" where
  "boxes un wrap \<longleftrightarrow> (\<forall>x. un (wrap x) = Some x)"

lemma copier_ptr:
  assumes "copier rd into" and "boxes un wrap"
  shows "copier (read_ptr un rd) (copy_ptr zero un wrap into)"
proof -
  have p: "ptr_copier rd into un wrap"
    by (rule ptr_copier.intro [OF assms(1)]) (rule ptr_copier_axioms.intro, use assms(2) in \<open>simp add: boxes_def\<close>)
  show ?thesis by (rule copier.intro) (erule ptr_copier.ptr_stable [OF p], assumption, erule ptr_copier.ptr_into [OF p])
qed

section \<open>Writes by others\<close>

definition write_all :: "(addr \<times> 'c) list \<Rightarrow> 'c memory \<Rightarrow> 'c memory" where
  "write_all ws h = fold (\<lambda>(a, c) h. h[a := c]) ws h"

lemma length_write_all [simp]: "length (write_all ws h) = length h"
  unfolding write_all_def by (induction ws arbitrary: h) (auto split: prod.splits)

lemma write_all_other: "a \<notin> fst ` set ws \<Longrightarrow> write_all ws h ! a = h ! a"
  unfolding write_all_def by (induction ws arbitrary: h) (auto split: prod.splits)

context copier
begin

text \<open>
  The copy does not change when its original is written, and the original does not change when its
  copy is.
\<close>

lemma independent:
  assumes "rd h x = Some v" and "into x h = (y, h')"
  shows "fst ` set ws \<subseteq> {..<length h} \<Longrightarrow> rd (write_all ws h') y = Some v"
    and "fst ` set ws \<subseteq> {length h..} \<Longrightarrow> rd (write_all ws h') x = Some v"
proof -
  have o: "prefix h h'" "\<And>g. agree h h' g \<Longrightarrow> rd g y = Some v"
    using into [OF assms(1)] assms(2) by (auto simp: owns_def)
  show "rd (write_all ws h') y = Some v" if "fst ` set ws \<subseteq> {..<length h}"
  proof (rule o(2))
    show "agree h h' (write_all ws h')" unfolding agree_def
    proof (intro conjI allI impI)
      fix a assume "length h \<le> a" "a < length h'"
      with that have "a \<notin> fst ` set ws" by fastforce
      then show "write_all ws h' ! a = h' ! a" by (rule write_all_other)
    qed simp
  qed
  show "rd (write_all ws h') x = Some v" if "fst ` set ws \<subseteq> {length h..}"
  proof (rule stable [OF assms(1)])
    have "take (length h) (write_all ws h') = h"
    proof (rule nth_equalityI)
      show l: "length (take (length h) (write_all ws h')) = length h" using prefix_length_le [OF o(1)] by simp
      fix a assume "a < length (take (length h) (write_all ws h'))"
      then have a: "a < length h" using l by simp
      with that have "a \<notin> fst ` set ws" by fastforce
      with a show "take (length h) (write_all ws h') ! a = h ! a"
        using prefix_nth [OF o(1) a] by (simp add: write_all_other)
    qed
    then show "prefix h (write_all ws h')" by (metis take_is_prefix)
  qed
qed

end

lemma box_copy:
  assumes c: "copier (read_ptr un rd) (copy_ptr zero un wrap into)" and r: "read_ptr un rd h (Some a) = Some (Some v)"
  shows "\<exists>h'. copy_ptr zero un wrap into (Some a) h = (Some (length h), h') \<and>
     (\<forall>ws. fst ` set ws \<subseteq> {..<length h} \<longrightarrow> read_ptr un rd (write_all ws h') (Some (length h)) = Some (Some v)) \<and>
     (\<forall>ws. fst ` set ws \<subseteq> {length h..} \<longrightarrow> read_ptr un rd (write_all ws h') (Some a) = Some (Some v))"
proof -
  obtain x where x: "deref un h a = Some x" using r by (auto simp: read_ptr_def split: option.splits)
  obtain y h1 where "into x (h @ [zero]) = (y, h1)" by fastforce
  with x have h': "copy_ptr zero un wrap into (Some a) h = (Some (length h), h1[length h := wrap y])"
    by (simp add: copy_ptr_def Let_def)
  show ?thesis using copier.independent [OF c r h'] h' by blast
qed

end
