(* ===== verification/DeepCopy.thy ===== *)
theory DeepCopy
  imports Memory Api
begin

text \<open>
  The generated copies of the API types (\<open>api/v1alpha1/zz_generated.deepcopy.go\<close>). The structs that
  have pointers or slices are described as they lie in memory (\<open>Memory\<close>), and \<open>read_\<close> functions give
  the value, a record of \<open>Api\<close>, that such a struct stands for. The types of Kubernetes have copies of
  their own, which are parameters.
\<close>

section \<open>Structs in memory\<close>

record type_meta =
  ty_Kind :: string
  ty_APIVersion :: string

record list_meta =
  lm_ResourceVersion :: string
  lm_Continue :: string

record m_sync_policy =
  msp_ResyncInterval :: "addr option"
  msp_PKCS12Profile :: string

record m_discovery =
  mds_Ingress :: "addr option"
  mds_HTTPRoutes :: "addr option"
  mds_Gateways :: "addr option"
  mds_NamespaceSelector :: "addr option"

record m_sync_spec =
  mxs_Source :: certificate_source_spec
  mxs_KeyVault :: key_vault_spec
  mxs_SyncPolicy :: "addr option"

record m_sync_status =
  mss_Conditions :: "addr option"
  mss_ObservedGeneration :: int
  mss_CertificateName :: string
  mss_SecretIdentifier :: string
  mss_VaultCertificateVersion :: string
  mss_LastSyncedThumbprint :: string
  mss_ChainDigest :: string
  mss_NotAfter :: "addr option"
  mss_DNSNames :: "addr option"
  mss_LastSyncTime :: "addr option"

record 'v m_sync =
  mks_Type :: type_meta
  mks_Meta :: 'v
  mks_Spec :: m_sync_spec
  mks_Status :: m_sync_status

record 'v m_list =
  mli_Type :: type_meta
  mli_Meta :: 'v
  mli_Items :: "addr option"

record m_planned =
  mpn_Name :: string
  mpn_Zone :: string
  mpn_DNSNames :: "addr option"
  mpn_SecretName :: string
  mpn_SecretIdentifier :: string

record m_listener =
  mlg_Hostnames :: "addr option"
  mlg_KeyVaultSecretID :: string

record m_gateway =
  mgg_Listeners :: "addr option"
  mgg_ListenerCount :: int

record m_policy_spec =
  mps_Zones :: "addr option"
  mps_IssueZoneWildcards :: bool
  mps_MaxCertificates :: int
  mps_Discovery :: "addr option"
  mps_Grouping :: string
  mps_IssuerRef :: issuer_reference
  mps_CertificateNamespace :: string
  mps_KeyVault :: key_vault_spec
  mps_OrphanPolicy :: string
  mps_SyncPolicy :: "addr option"

record m_policy_status =
  mpt_Conditions :: "addr option"
  mpt_ObservedGeneration :: int
  mpt_DiscoveredHosts :: int
  mpt_RequiredCertificates :: "addr option"
  mpt_RequiredCertificateCount :: int
  mpt_SkippedHosts :: "addr option"
  mpt_SkippedHostCount :: int
  mpt_ApplicationGateway :: "addr option"
  mpt_LastDiscoveryTime :: "addr option"

record 'v m_policy =
  mwp_Type :: type_meta
  mwp_Meta :: 'v
  mwp_Spec :: m_policy_spec
  mwp_Status :: m_policy_status

text \<open>
  A cell holds what \<open>new\<close> or \<open>make\<close> allocates: a value or an array of values. \<open>ZeroCell\<close> is one that
  has been zeroed and not been written. \<open>'v\<close> are the values of library types.
\<close>

datatype 'v cell =
    ZeroCell
  | BoolCell bool
  | DurationCell duration
  | TimeCell time
  | StringsCell "string list"
  | ConditionsCell "condition list"
  | SkippedHostsCell "skipped_host_status list"
  | SelectorCell 'v
  | KeyVaultCell key_vault_spec
  | IssuerCell issuer_reference
  | SecretReferenceCell local_secret_reference
  | SourceCell certificate_source_spec
  | SkippedHostCell skipped_host_status
  | SyncPolicyCell m_sync_policy
  | DiscoveryCell m_discovery
  | SyncSpecCell m_sync_spec
  | SyncStatusCell m_sync_status
  | SyncCell "'v m_sync"
  | SyncsCell "'v m_sync list"
  | SyncListCell "'v m_list"
  | PlannedCell m_planned
  | PlannedArrayCell "m_planned list"
  | ListenerCell m_listener
  | ListenersCell "m_listener list"
  | GatewayCell m_gateway
  | PolicySpecCell m_policy_spec
  | PolicyStatusCell m_policy_status
  | PolicyCell "'v m_policy"
  | PoliciesCell "'v m_policy list"
  | PolicyListCell "'v m_list"



section \<open>The cells by their types\<close>

definition the_bool :: "'v cell \<Rightarrow> (bool) option" where
  "the_bool c = (case c of BoolCell x \<Rightarrow> Some x | _ \<Rightarrow> None)"

definition the_duration :: "'v cell \<Rightarrow> (duration) option" where
  "the_duration c = (case c of DurationCell x \<Rightarrow> Some x | _ \<Rightarrow> None)"

definition the_time :: "'v cell \<Rightarrow> (time) option" where
  "the_time c = (case c of TimeCell x \<Rightarrow> Some x | _ \<Rightarrow> None)"

definition the_strings :: "'v cell \<Rightarrow> (string list) option" where
  "the_strings c = (case c of StringsCell x \<Rightarrow> Some x | _ \<Rightarrow> None)"

definition the_conditions :: "'v cell \<Rightarrow> (condition list) option" where
  "the_conditions c = (case c of ConditionsCell x \<Rightarrow> Some x | _ \<Rightarrow> None)"

definition the_skipped_hosts :: "'v cell \<Rightarrow> (skipped_host_status list) option" where
  "the_skipped_hosts c = (case c of SkippedHostsCell x \<Rightarrow> Some x | _ \<Rightarrow> None)"

definition the_selector :: "'v cell \<Rightarrow> ('v) option" where
  "the_selector c = (case c of SelectorCell x \<Rightarrow> Some x | _ \<Rightarrow> None)"

definition the_key_vault :: "'v cell \<Rightarrow> (key_vault_spec) option" where
  "the_key_vault c = (case c of KeyVaultCell x \<Rightarrow> Some x | _ \<Rightarrow> None)"

definition the_issuer :: "'v cell \<Rightarrow> (issuer_reference) option" where
  "the_issuer c = (case c of IssuerCell x \<Rightarrow> Some x | _ \<Rightarrow> None)"

definition the_secret_reference :: "'v cell \<Rightarrow> (local_secret_reference) option" where
  "the_secret_reference c = (case c of SecretReferenceCell x \<Rightarrow> Some x | _ \<Rightarrow> None)"

definition the_source :: "'v cell \<Rightarrow> (certificate_source_spec) option" where
  "the_source c = (case c of SourceCell x \<Rightarrow> Some x | _ \<Rightarrow> None)"

definition the_skipped_host :: "'v cell \<Rightarrow> (skipped_host_status) option" where
  "the_skipped_host c = (case c of SkippedHostCell x \<Rightarrow> Some x | _ \<Rightarrow> None)"

definition the_sync_policy :: "'v cell \<Rightarrow> (m_sync_policy) option" where
  "the_sync_policy c = (case c of SyncPolicyCell x \<Rightarrow> Some x | _ \<Rightarrow> None)"

definition the_discovery :: "'v cell \<Rightarrow> (m_discovery) option" where
  "the_discovery c = (case c of DiscoveryCell x \<Rightarrow> Some x | _ \<Rightarrow> None)"

definition the_sync_spec :: "'v cell \<Rightarrow> (m_sync_spec) option" where
  "the_sync_spec c = (case c of SyncSpecCell x \<Rightarrow> Some x | _ \<Rightarrow> None)"

definition the_sync_status :: "'v cell \<Rightarrow> (m_sync_status) option" where
  "the_sync_status c = (case c of SyncStatusCell x \<Rightarrow> Some x | _ \<Rightarrow> None)"

definition the_sync :: "'v cell \<Rightarrow> ('v m_sync) option" where
  "the_sync c = (case c of SyncCell x \<Rightarrow> Some x | _ \<Rightarrow> None)"

definition the_syncs :: "'v cell \<Rightarrow> ('v m_sync list) option" where
  "the_syncs c = (case c of SyncsCell x \<Rightarrow> Some x | _ \<Rightarrow> None)"

definition the_sync_list :: "'v cell \<Rightarrow> ('v m_list) option" where
  "the_sync_list c = (case c of SyncListCell x \<Rightarrow> Some x | _ \<Rightarrow> None)"

definition the_planned :: "'v cell \<Rightarrow> (m_planned) option" where
  "the_planned c = (case c of PlannedCell x \<Rightarrow> Some x | _ \<Rightarrow> None)"

definition the_planned_array :: "'v cell \<Rightarrow> (m_planned list) option" where
  "the_planned_array c = (case c of PlannedArrayCell x \<Rightarrow> Some x | _ \<Rightarrow> None)"

definition the_listener :: "'v cell \<Rightarrow> (m_listener) option" where
  "the_listener c = (case c of ListenerCell x \<Rightarrow> Some x | _ \<Rightarrow> None)"

definition the_listeners :: "'v cell \<Rightarrow> (m_listener list) option" where
  "the_listeners c = (case c of ListenersCell x \<Rightarrow> Some x | _ \<Rightarrow> None)"

definition the_gateway :: "'v cell \<Rightarrow> (m_gateway) option" where
  "the_gateway c = (case c of GatewayCell x \<Rightarrow> Some x | _ \<Rightarrow> None)"

definition the_policy_spec :: "'v cell \<Rightarrow> (m_policy_spec) option" where
  "the_policy_spec c = (case c of PolicySpecCell x \<Rightarrow> Some x | _ \<Rightarrow> None)"

definition the_policy_status :: "'v cell \<Rightarrow> (m_policy_status) option" where
  "the_policy_status c = (case c of PolicyStatusCell x \<Rightarrow> Some x | _ \<Rightarrow> None)"

definition the_policy :: "'v cell \<Rightarrow> ('v m_policy) option" where
  "the_policy c = (case c of PolicyCell x \<Rightarrow> Some x | _ \<Rightarrow> None)"

definition the_policies :: "'v cell \<Rightarrow> ('v m_policy list) option" where
  "the_policies c = (case c of PoliciesCell x \<Rightarrow> Some x | _ \<Rightarrow> None)"

definition the_policy_list :: "'v cell \<Rightarrow> ('v m_list) option" where
  "the_policy_list c = (case c of PolicyListCell x \<Rightarrow> Some x | _ \<Rightarrow> None)"

lemmas the_cell_defs =
  the_bool_def the_duration_def the_time_def the_strings_def the_conditions_def
  the_skipped_hosts_def the_selector_def the_key_vault_def the_issuer_def the_secret_reference_def
  the_source_def the_skipped_host_def the_sync_policy_def the_discovery_def the_sync_spec_def
  the_sync_status_def the_sync_def the_syncs_def the_sync_list_def the_planned_def
  the_planned_array_def the_listener_def the_listeners_def the_gateway_def the_policy_spec_def
  the_policy_status_def the_policy_def the_policies_def the_policy_list_def

text \<open>The copies that the types of Kubernetes bring along, and what their values stand for.\<close>

record 'v copy_lib =
  cy_ObjectMeta :: "'v \<Rightarrow> 'v cell memory \<Rightarrow> 'v \<times> 'v cell memory"
  cy_ListMeta :: "'v \<Rightarrow> 'v cell memory \<Rightarrow> 'v \<times> 'v cell memory"
  cy_LabelSelector :: "'v \<Rightarrow> 'v cell memory \<Rightarrow> 'v \<times> 'v cell memory"

record 'v lib_view =
  lv_ObjectMeta :: "'v cell memory \<Rightarrow> 'v \<Rightarrow> object_meta option"
  lv_ListMeta :: "'v cell memory \<Rightarrow> 'v \<Rightarrow> list_meta option"
  lv_LabelSelector :: "'v cell memory \<Rightarrow> 'v \<Rightarrow> label_selector option"

section \<open>The generated functions\<close>

text \<open>
  \<open>DeepCopyInto\<close> gives what is written to \<open>out\<close>: it is \<open>in\<close>, with the fields replaced that the code
  copies further.
\<close>

definition DeepCopyInto_IssuerReference :: "issuer_reference \<Rightarrow> 'v cell memory \<Rightarrow> issuer_reference \<times> 'v cell memory" where
  "DeepCopyInto_IssuerReference x h = (x, h)"

definition DeepCopyInto_KeyVaultSpec :: "key_vault_spec \<Rightarrow> 'v cell memory \<Rightarrow> key_vault_spec \<times> 'v cell memory" where
  "DeepCopyInto_KeyVaultSpec x h = (x, h)"

definition DeepCopyInto_LocalSecretReference :: "local_secret_reference \<Rightarrow> 'v cell memory \<Rightarrow> local_secret_reference \<times> 'v cell memory" where
  "DeepCopyInto_LocalSecretReference x h = (x, h)"

definition DeepCopyInto_SkippedHost :: "skipped_host_status \<Rightarrow> 'v cell memory \<Rightarrow> skipped_host_status \<times> 'v cell memory" where
  "DeepCopyInto_SkippedHost x h = (x, h)"

definition DeepCopyInto_CertificateSourceSpec ::
  "certificate_source_spec \<Rightarrow> 'v cell memory \<Rightarrow> certificate_source_spec \<times> 'v cell memory" where
  "DeepCopyInto_CertificateSourceSpec x h = (x\<lparr>sx_SecretRef := sx_SecretRef x\<rparr>, h)"

definition DeepCopyInto_SyncPolicySpec :: "m_sync_policy \<Rightarrow> 'v cell memory \<Rightarrow> m_sync_policy \<times> 'v cell memory" where
  "DeepCopyInto_SyncPolicySpec x h =
     (case copy_ptr ZeroCell the_duration DurationCell copy_value (msp_ResyncInterval x) h of (a, h') \<Rightarrow>
      (x\<lparr>msp_ResyncInterval := a\<rparr>, h'))"

definition DeepCopyInto_DiscoverySpec :: "'v copy_lib \<Rightarrow> m_discovery \<Rightarrow> 'v cell memory \<Rightarrow> m_discovery \<times> 'v cell memory" where
  "DeepCopyInto_DiscoverySpec C x h =
     (case copy_ptr ZeroCell the_bool BoolCell copy_value (mds_Ingress x) h of (a, h1) \<Rightarrow>
      case copy_ptr ZeroCell the_bool BoolCell copy_value (mds_HTTPRoutes x) h1 of (b, h2) \<Rightarrow>
      case copy_ptr ZeroCell the_bool BoolCell copy_value (mds_Gateways x) h2 of (c, h3) \<Rightarrow>
      case copy_ptr ZeroCell the_selector SelectorCell (cy_LabelSelector C) (mds_NamespaceSelector x) h3 of (d, h') \<Rightarrow>
      (x\<lparr>mds_Ingress := a, mds_HTTPRoutes := b, mds_Gateways := c, mds_NamespaceSelector := d\<rparr>, h'))"

definition DeepCopyInto_KeyVaultCertificateSyncSpec :: "m_sync_spec \<Rightarrow> 'v cell memory \<Rightarrow> m_sync_spec \<times> 'v cell memory" where
  "DeepCopyInto_KeyVaultCertificateSyncSpec x h =
     (case copy_ptr ZeroCell the_sync_policy SyncPolicyCell DeepCopyInto_SyncPolicySpec (mxs_SyncPolicy x) h of (a, h') \<Rightarrow>
      (x\<lparr>mxs_Source := mxs_Source x, mxs_KeyVault := mxs_KeyVault x, mxs_SyncPolicy := a\<rparr>, h'))"

definition DeepCopyInto_KeyVaultCertificateSyncStatus :: "m_sync_status \<Rightarrow> 'v cell memory \<Rightarrow> m_sync_status \<times> 'v cell memory" where
  "DeepCopyInto_KeyVaultCertificateSyncStatus x h =
     (case copy_ptr ZeroCell the_conditions ConditionsCell (copy_list copy_value) (mss_Conditions x) h of (a, h1) \<Rightarrow>
      case copy_ptr ZeroCell the_time TimeCell copy_value (mss_NotAfter x) h1 of (b, h2) \<Rightarrow>
      case copy_ptr ZeroCell the_strings StringsCell copy_value (mss_DNSNames x) h2 of (c, h3) \<Rightarrow>
      case copy_ptr ZeroCell the_time TimeCell copy_value (mss_LastSyncTime x) h3 of (d, h') \<Rightarrow>
      (x\<lparr>mss_Conditions := a, mss_NotAfter := b, mss_DNSNames := c, mss_LastSyncTime := d\<rparr>, h'))"

definition DeepCopyInto_KeyVaultCertificateSync :: "'v copy_lib \<Rightarrow> 'v m_sync \<Rightarrow> 'v cell memory \<Rightarrow> 'v m_sync \<times> 'v cell memory" where
  "DeepCopyInto_KeyVaultCertificateSync C x h =
     (case cy_ObjectMeta C (mks_Meta x) h of (a, h1) \<Rightarrow>
      case DeepCopyInto_KeyVaultCertificateSyncSpec (mks_Spec x) h1 of (b, h2) \<Rightarrow>
      case DeepCopyInto_KeyVaultCertificateSyncStatus (mks_Status x) h2 of (c, h') \<Rightarrow>
      (x\<lparr>mks_Type := mks_Type x, mks_Meta := a, mks_Spec := b, mks_Status := c\<rparr>, h'))"

definition DeepCopyInto_KeyVaultCertificateSyncList :: "'v copy_lib \<Rightarrow> 'v m_list \<Rightarrow> 'v cell memory \<Rightarrow> 'v m_list \<times> 'v cell memory" where
  "DeepCopyInto_KeyVaultCertificateSyncList C x h =
     (case cy_ListMeta C (mli_Meta x) h of (a, h1) \<Rightarrow>
      case copy_ptr ZeroCell the_syncs SyncsCell (copy_list (DeepCopyInto_KeyVaultCertificateSync C)) (mli_Items x) h1 of (b, h') \<Rightarrow>
      (x\<lparr>mli_Type := mli_Type x, mli_Meta := a, mli_Items := b\<rparr>, h'))"

definition DeepCopyInto_PlannedCertificate :: "m_planned \<Rightarrow> 'v cell memory \<Rightarrow> m_planned \<times> 'v cell memory" where
  "DeepCopyInto_PlannedCertificate x h =
     (case copy_ptr ZeroCell the_strings StringsCell copy_value (mpn_DNSNames x) h of (a, h') \<Rightarrow>
      (x\<lparr>mpn_DNSNames := a\<rparr>, h'))"

definition DeepCopyInto_ListenerGuidance :: "m_listener \<Rightarrow> 'v cell memory \<Rightarrow> m_listener \<times> 'v cell memory" where
  "DeepCopyInto_ListenerGuidance x h =
     (case copy_ptr ZeroCell the_strings StringsCell copy_value (mlg_Hostnames x) h of (a, h') \<Rightarrow>
      (x\<lparr>mlg_Hostnames := a\<rparr>, h'))"

definition DeepCopyInto_ApplicationGatewayGuidance :: "m_gateway \<Rightarrow> 'v cell memory \<Rightarrow> m_gateway \<times> 'v cell memory" where
  "DeepCopyInto_ApplicationGatewayGuidance x h =
     (case copy_ptr ZeroCell the_listeners ListenersCell (copy_list DeepCopyInto_ListenerGuidance) (mgg_Listeners x) h of (a, h') \<Rightarrow>
      (x\<lparr>mgg_Listeners := a\<rparr>, h'))"

definition DeepCopyInto_WildcardCertificatePolicySpec :: "'v copy_lib \<Rightarrow> m_policy_spec \<Rightarrow> 'v cell memory \<Rightarrow> m_policy_spec \<times> 'v cell memory" where
  "DeepCopyInto_WildcardCertificatePolicySpec C x h =
     (case copy_ptr ZeroCell the_strings StringsCell copy_value (mps_Zones x) h of (a, h1) \<Rightarrow>
      case copy_ptr ZeroCell the_discovery DiscoveryCell (DeepCopyInto_DiscoverySpec C) (mps_Discovery x) h1 of (b, h2) \<Rightarrow>
      case copy_ptr ZeroCell the_sync_policy SyncPolicyCell DeepCopyInto_SyncPolicySpec (mps_SyncPolicy x) h2 of (c, h') \<Rightarrow>
      (x\<lparr>mps_IssuerRef := mps_IssuerRef x, mps_KeyVault := mps_KeyVault x, mps_Zones := a, mps_Discovery := b, mps_SyncPolicy := c\<rparr>, h'))"

definition DeepCopyInto_WildcardCertificatePolicyStatus :: "m_policy_status \<Rightarrow> 'v cell memory \<Rightarrow> m_policy_status \<times> 'v cell memory" where
  "DeepCopyInto_WildcardCertificatePolicyStatus x h =
     (case copy_ptr ZeroCell the_conditions ConditionsCell (copy_list copy_value) (mpt_Conditions x) h of (a, h1) \<Rightarrow>
      case copy_ptr ZeroCell the_planned_array PlannedArrayCell (copy_list DeepCopyInto_PlannedCertificate) (mpt_RequiredCertificates x) h1 of (b, h2) \<Rightarrow>
      case copy_ptr ZeroCell the_skipped_hosts SkippedHostsCell copy_value (mpt_SkippedHosts x) h2 of (c, h3) \<Rightarrow>
      case copy_ptr ZeroCell the_gateway GatewayCell DeepCopyInto_ApplicationGatewayGuidance (mpt_ApplicationGateway x) h3 of (d, h4) \<Rightarrow>
      case copy_ptr ZeroCell the_time TimeCell copy_value (mpt_LastDiscoveryTime x) h4 of (e, h') \<Rightarrow>
      (x\<lparr>mpt_Conditions := a, mpt_RequiredCertificates := b, mpt_SkippedHosts := c, mpt_ApplicationGateway := d, mpt_LastDiscoveryTime := e\<rparr>, h'))"

definition DeepCopyInto_WildcardCertificatePolicy :: "'v copy_lib \<Rightarrow> 'v m_policy \<Rightarrow> 'v cell memory \<Rightarrow> 'v m_policy \<times> 'v cell memory" where
  "DeepCopyInto_WildcardCertificatePolicy C x h =
     (case cy_ObjectMeta C (mwp_Meta x) h of (a, h1) \<Rightarrow>
      case DeepCopyInto_WildcardCertificatePolicySpec C (mwp_Spec x) h1 of (b, h2) \<Rightarrow>
      case DeepCopyInto_WildcardCertificatePolicyStatus (mwp_Status x) h2 of (c, h') \<Rightarrow>
      (x\<lparr>mwp_Type := mwp_Type x, mwp_Meta := a, mwp_Spec := b, mwp_Status := c\<rparr>, h'))"

definition DeepCopyInto_WildcardCertificatePolicyList :: "'v copy_lib \<Rightarrow> 'v m_list \<Rightarrow> 'v cell memory \<Rightarrow> 'v m_list \<times> 'v cell memory" where
  "DeepCopyInto_WildcardCertificatePolicyList C x h =
     (case cy_ListMeta C (mli_Meta x) h of (a, h1) \<Rightarrow>
      case copy_ptr ZeroCell the_policies PoliciesCell (copy_list (DeepCopyInto_WildcardCertificatePolicy C)) (mli_Items x) h1 of (b, h') \<Rightarrow>
      (x\<lparr>mli_Type := mli_Type x, mli_Meta := a, mli_Items := b\<rparr>, h'))"

text \<open>\<open>DeepCopy\<close> is nil for nil, and a new struct that \<open>DeepCopyInto\<close> fills otherwise.\<close>

definition DeepCopy_ApplicationGatewayGuidance :: "addr option \<Rightarrow> 'v cell memory \<Rightarrow> addr option \<times> 'v cell memory" where
  "DeepCopy_ApplicationGatewayGuidance = copy_ptr ZeroCell the_gateway GatewayCell DeepCopyInto_ApplicationGatewayGuidance"

definition DeepCopy_CertificateSourceSpec :: "addr option \<Rightarrow> 'v cell memory \<Rightarrow> addr option \<times> 'v cell memory" where
  "DeepCopy_CertificateSourceSpec = copy_ptr ZeroCell the_source SourceCell DeepCopyInto_CertificateSourceSpec"

definition DeepCopy_DiscoverySpec :: "'v copy_lib \<Rightarrow> addr option \<Rightarrow> 'v cell memory \<Rightarrow> addr option \<times> 'v cell memory" where
  "DeepCopy_DiscoverySpec C = copy_ptr ZeroCell the_discovery DiscoveryCell (DeepCopyInto_DiscoverySpec C)"

definition DeepCopy_IssuerReference :: "addr option \<Rightarrow> 'v cell memory \<Rightarrow> addr option \<times> 'v cell memory" where
  "DeepCopy_IssuerReference = copy_ptr ZeroCell the_issuer IssuerCell DeepCopyInto_IssuerReference"

definition DeepCopy_KeyVaultCertificateSync :: "'v copy_lib \<Rightarrow> addr option \<Rightarrow> 'v cell memory \<Rightarrow> addr option \<times> 'v cell memory" where
  "DeepCopy_KeyVaultCertificateSync C = copy_ptr ZeroCell the_sync SyncCell (DeepCopyInto_KeyVaultCertificateSync C)"

definition DeepCopy_KeyVaultCertificateSyncList :: "'v copy_lib \<Rightarrow> addr option \<Rightarrow> 'v cell memory \<Rightarrow> addr option \<times> 'v cell memory" where
  "DeepCopy_KeyVaultCertificateSyncList C = copy_ptr ZeroCell the_sync_list SyncListCell (DeepCopyInto_KeyVaultCertificateSyncList C)"

definition DeepCopy_KeyVaultCertificateSyncSpec :: "addr option \<Rightarrow> 'v cell memory \<Rightarrow> addr option \<times> 'v cell memory" where
  "DeepCopy_KeyVaultCertificateSyncSpec = copy_ptr ZeroCell the_sync_spec SyncSpecCell DeepCopyInto_KeyVaultCertificateSyncSpec"

definition DeepCopy_KeyVaultCertificateSyncStatus :: "addr option \<Rightarrow> 'v cell memory \<Rightarrow> addr option \<times> 'v cell memory" where
  "DeepCopy_KeyVaultCertificateSyncStatus = copy_ptr ZeroCell the_sync_status SyncStatusCell DeepCopyInto_KeyVaultCertificateSyncStatus"

definition DeepCopy_KeyVaultSpec :: "addr option \<Rightarrow> 'v cell memory \<Rightarrow> addr option \<times> 'v cell memory" where
  "DeepCopy_KeyVaultSpec = copy_ptr ZeroCell the_key_vault KeyVaultCell DeepCopyInto_KeyVaultSpec"

definition DeepCopy_ListenerGuidance :: "addr option \<Rightarrow> 'v cell memory \<Rightarrow> addr option \<times> 'v cell memory" where
  "DeepCopy_ListenerGuidance = copy_ptr ZeroCell the_listener ListenerCell DeepCopyInto_ListenerGuidance"

definition DeepCopy_LocalSecretReference :: "addr option \<Rightarrow> 'v cell memory \<Rightarrow> addr option \<times> 'v cell memory" where
  "DeepCopy_LocalSecretReference = copy_ptr ZeroCell the_secret_reference SecretReferenceCell DeepCopyInto_LocalSecretReference"

definition DeepCopy_PlannedCertificate :: "addr option \<Rightarrow> 'v cell memory \<Rightarrow> addr option \<times> 'v cell memory" where
  "DeepCopy_PlannedCertificate = copy_ptr ZeroCell the_planned PlannedCell DeepCopyInto_PlannedCertificate"

definition DeepCopy_SkippedHost :: "addr option \<Rightarrow> 'v cell memory \<Rightarrow> addr option \<times> 'v cell memory" where
  "DeepCopy_SkippedHost = copy_ptr ZeroCell the_skipped_host SkippedHostCell DeepCopyInto_SkippedHost"

definition DeepCopy_SyncPolicySpec :: "addr option \<Rightarrow> 'v cell memory \<Rightarrow> addr option \<times> 'v cell memory" where
  "DeepCopy_SyncPolicySpec = copy_ptr ZeroCell the_sync_policy SyncPolicyCell DeepCopyInto_SyncPolicySpec"

definition DeepCopy_WildcardCertificatePolicy :: "'v copy_lib \<Rightarrow> addr option \<Rightarrow> 'v cell memory \<Rightarrow> addr option \<times> 'v cell memory" where
  "DeepCopy_WildcardCertificatePolicy C = copy_ptr ZeroCell the_policy PolicyCell (DeepCopyInto_WildcardCertificatePolicy C)"

definition DeepCopy_WildcardCertificatePolicyList :: "'v copy_lib \<Rightarrow> addr option \<Rightarrow> 'v cell memory \<Rightarrow> addr option \<times> 'v cell memory" where
  "DeepCopy_WildcardCertificatePolicyList C = copy_ptr ZeroCell the_policy_list PolicyListCell (DeepCopyInto_WildcardCertificatePolicyList C)"

definition DeepCopy_WildcardCertificatePolicySpec :: "'v copy_lib \<Rightarrow> addr option \<Rightarrow> 'v cell memory \<Rightarrow> addr option \<times> 'v cell memory" where
  "DeepCopy_WildcardCertificatePolicySpec C = copy_ptr ZeroCell the_policy_spec PolicySpecCell (DeepCopyInto_WildcardCertificatePolicySpec C)"

definition DeepCopy_WildcardCertificatePolicyStatus :: "addr option \<Rightarrow> 'v cell memory \<Rightarrow> addr option \<times> 'v cell memory" where
  "DeepCopy_WildcardCertificatePolicyStatus = copy_ptr ZeroCell the_policy_status PolicyStatusCell DeepCopyInto_WildcardCertificatePolicyStatus"

text \<open>\<open>runtime.Object\<close>: a pointer to one of the types that are registered, or nil.\<close>

datatype runtime_object =
    SyncObject addr
  | SyncListObject addr
  | PolicyObject addr
  | PolicyListObject addr

definition DeepCopyObject_KeyVaultCertificateSync :: "'v copy_lib \<Rightarrow> addr option \<Rightarrow> 'v cell memory \<Rightarrow> runtime_object option \<times> 'v cell memory" where
  "DeepCopyObject_KeyVaultCertificateSync C p h =
     (case DeepCopy_KeyVaultCertificateSync C p h of
        (Some c, h') \<Rightarrow> (Some (SyncObject c), h')
      | (None, h') \<Rightarrow> (None, h'))"

definition DeepCopyObject_KeyVaultCertificateSyncList :: "'v copy_lib \<Rightarrow> addr option \<Rightarrow> 'v cell memory \<Rightarrow> runtime_object option \<times> 'v cell memory" where
  "DeepCopyObject_KeyVaultCertificateSyncList C p h =
     (case DeepCopy_KeyVaultCertificateSyncList C p h of
        (Some c, h') \<Rightarrow> (Some (SyncListObject c), h')
      | (None, h') \<Rightarrow> (None, h'))"

definition DeepCopyObject_WildcardCertificatePolicy :: "'v copy_lib \<Rightarrow> addr option \<Rightarrow> 'v cell memory \<Rightarrow> runtime_object option \<times> 'v cell memory" where
  "DeepCopyObject_WildcardCertificatePolicy C p h =
     (case DeepCopy_WildcardCertificatePolicy C p h of
        (Some c, h') \<Rightarrow> (Some (PolicyObject c), h')
      | (None, h') \<Rightarrow> (None, h'))"

definition DeepCopyObject_WildcardCertificatePolicyList :: "'v copy_lib \<Rightarrow> addr option \<Rightarrow> 'v cell memory \<Rightarrow> runtime_object option \<times> 'v cell memory" where
  "DeepCopyObject_WildcardCertificatePolicyList C p h =
     (case DeepCopy_WildcardCertificatePolicyList C p h of
        (Some c, h') \<Rightarrow> (Some (PolicyListObject c), h')
      | (None, h') \<Rightarrow> (None, h'))"

text \<open>The call of the method on an object.\<close>

fun DeepCopyObject :: "'v copy_lib \<Rightarrow> runtime_object \<Rightarrow> 'v cell memory \<Rightarrow> runtime_object option \<times> 'v cell memory" where
  "DeepCopyObject C (SyncObject a) = DeepCopyObject_KeyVaultCertificateSync C (Some a)"
| "DeepCopyObject C (SyncListObject a) = DeepCopyObject_KeyVaultCertificateSyncList C (Some a)"
| "DeepCopyObject C (PolicyObject a) = DeepCopyObject_WildcardCertificatePolicy C (Some a)"
| "DeepCopyObject C (PolicyListObject a) = DeepCopyObject_WildcardCertificatePolicyList C (Some a)"

section \<open>What the structs stand for\<close>

definition read_sync_policy :: "'v cell memory \<Rightarrow> m_sync_policy \<Rightarrow> sync_policy_spec option" where
  "read_sync_policy h x =
     map_option (\<lambda>d. \<lparr>sp_ResyncInterval = d, sp_PKCS12Profile = msp_PKCS12Profile x\<rparr>)
       (read_ptr the_duration read_value h (msp_ResyncInterval x))"

definition read_discovery :: "'v lib_view \<Rightarrow> 'v cell memory \<Rightarrow> m_discovery \<Rightarrow> discovery_spec option" where
  "read_discovery R h x =
     map_option (\<lambda>(i, r, g, s). \<lparr>dv_Ingress = i, dv_HTTPRoutes = r, dv_Gateways = g, dv_NamespaceSelector = s\<rparr>)
       (read_both (read_ptr the_bool read_value) (read_both (read_ptr the_bool read_value)
         (read_both (read_ptr the_bool read_value) (read_ptr the_selector (lv_LabelSelector R)))) h
         (mds_Ingress x, mds_HTTPRoutes x, mds_Gateways x, mds_NamespaceSelector x))"

definition read_sync_spec :: "'v cell memory \<Rightarrow> m_sync_spec \<Rightarrow> cert_sync_spec option" where
  "read_sync_spec h x =
     map_option (\<lambda>p. \<lparr>cx_Source = mxs_Source x, cx_KeyVault = mxs_KeyVault x, cx_SyncPolicy = p\<rparr>)
       (read_ptr the_sync_policy read_sync_policy h (mxs_SyncPolicy x))"

definition read_sync_status :: "'v cell memory \<Rightarrow> m_sync_status \<Rightarrow> cert_sync_status option" where
  "read_sync_status h x =
     map_option (\<lambda>(cs, na, ns, ls).
       \<lparr> ct_Conditions = elements cs, ct_ObservedGeneration = mss_ObservedGeneration x, ct_CertificateName = mss_CertificateName x,
         ct_SecretIdentifier = mss_SecretIdentifier x, ct_VaultCertificateVersion = mss_VaultCertificateVersion x,
         ct_LastSyncedThumbprint = mss_LastSyncedThumbprint x, ct_ChainDigest = mss_ChainDigest x, ct_NotAfter = na,
         ct_DNSNames = elements ns, ct_LastSyncTime = ls \<rparr>)
       (read_both (read_ptr the_conditions (read_list read_value)) (read_both (read_ptr the_time read_value)
         (read_both (read_ptr the_strings read_value) (read_ptr the_time read_value))) h
         (mss_Conditions x, mss_NotAfter x, mss_DNSNames x, mss_LastSyncTime x))"

definition read_sync :: "'v lib_view \<Rightarrow> 'v cell memory \<Rightarrow> 'v m_sync \<Rightarrow> (type_meta \<times> cert_sync) option" where
  "read_sync R h x =
     map_option (\<lambda>(m, s, t). (mks_Type x, \<lparr>sc_Meta = m, sc_Spec = s, sc_Status = t\<rparr>))
       (read_both (lv_ObjectMeta R) (read_both read_sync_spec read_sync_status) h (mks_Meta x, mks_Spec x, mks_Status x))"

definition read_sync_list ::
  "'v lib_view \<Rightarrow> 'v cell memory \<Rightarrow> 'v m_list \<Rightarrow> (type_meta \<times> list_meta \<times> (type_meta \<times> cert_sync) list) option" where
  "read_sync_list R h x =
     map_option (\<lambda>(m, is). (mli_Type x, m, elements is))
       (read_both (lv_ListMeta R) (read_ptr the_syncs (read_list (read_sync R))) h (mli_Meta x, mli_Items x))"

definition read_planned :: "'v cell memory \<Rightarrow> m_planned \<Rightarrow> planned_certificate option" where
  "read_planned h x =
     map_option (\<lambda>ns. \<lparr> pn_Name = mpn_Name x, pn_Zone = mpn_Zone x, pn_DNSNames = elements ns,
         pn_SecretName = mpn_SecretName x, pn_SecretIdentifier = mpn_SecretIdentifier x \<rparr>)
       (read_ptr the_strings read_value h (mpn_DNSNames x))"

definition read_listener :: "'v cell memory \<Rightarrow> m_listener \<Rightarrow> listener_guidance option" where
  "read_listener h x =
     map_option (\<lambda>ns. \<lparr>lg_Hostnames = elements ns, lg_KeyVaultSecretID = mlg_KeyVaultSecretID x\<rparr>)
       (read_ptr the_strings read_value h (mlg_Hostnames x))"

definition read_gateway :: "'v cell memory \<Rightarrow> m_gateway \<Rightarrow> gateway_guidance option" where
  "read_gateway h x =
     map_option (\<lambda>ls. \<lparr>gg_Listeners = elements ls, gg_ListenerCount = mgg_ListenerCount x\<rparr>)
       (read_ptr the_listeners (read_list read_listener) h (mgg_Listeners x))"

definition read_policy_spec :: "'v lib_view \<Rightarrow> 'v cell memory \<Rightarrow> m_policy_spec \<Rightarrow> policy_cr_spec option" where
  "read_policy_spec R h x =
     map_option (\<lambda>(zs, d, p).
       \<lparr> pc_Zones = elements zs, pc_IssueZoneWildcards = mps_IssueZoneWildcards x, pc_MaxCertificates = mps_MaxCertificates x,
         pc_Discovery = d, pc_Grouping = mps_Grouping x, pc_IssuerRef = mps_IssuerRef x,
         pc_CertificateNamespace = mps_CertificateNamespace x, pc_KeyVault = mps_KeyVault x,
         pc_OrphanPolicy = mps_OrphanPolicy x, pc_SyncPolicy = p \<rparr>)
       (read_both (read_ptr the_strings read_value) (read_both (read_ptr the_discovery (read_discovery R))
         (read_ptr the_sync_policy read_sync_policy)) h (mps_Zones x, mps_Discovery x, mps_SyncPolicy x))"

definition read_policy_status :: "'v cell memory \<Rightarrow> m_policy_status \<Rightarrow> policy_cr_status option" where
  "read_policy_status h x =
     map_option (\<lambda>(cs, rs, ss, g, l).
       \<lparr> pt_Conditions = elements cs, pt_ObservedGeneration = mpt_ObservedGeneration x,
         pt_DiscoveredHosts = mpt_DiscoveredHosts x, pt_RequiredCertificates = elements rs,
         pt_RequiredCertificateCount = mpt_RequiredCertificateCount x, pt_SkippedHosts = elements ss,
         pt_SkippedHostCount = mpt_SkippedHostCount x, pt_ApplicationGateway = g, pt_LastDiscoveryTime = l \<rparr>)
       (read_both (read_ptr the_conditions (read_list read_value)) (read_both (read_ptr the_planned_array (read_list read_planned))
         (read_both (read_ptr the_skipped_hosts read_value) (read_both (read_ptr the_gateway read_gateway)
           (read_ptr the_time read_value)))) h
         (mpt_Conditions x, mpt_RequiredCertificates x, mpt_SkippedHosts x, mpt_ApplicationGateway x, mpt_LastDiscoveryTime x))"

definition read_policy :: "'v lib_view \<Rightarrow> 'v cell memory \<Rightarrow> 'v m_policy \<Rightarrow> (type_meta \<times> wildcard_policy) option" where
  "read_policy R h x =
     map_option (\<lambda>(m, s, t). (mwp_Type x, \<lparr>wp_Meta = m, wp_Spec = s, wp_Status = t\<rparr>))
       (read_both (lv_ObjectMeta R) (read_both (read_policy_spec R) read_policy_status) h (mwp_Meta x, mwp_Spec x, mwp_Status x))"

definition read_policy_list ::
  "'v lib_view \<Rightarrow> 'v cell memory \<Rightarrow> 'v m_list \<Rightarrow> (type_meta \<times> list_meta \<times> (type_meta \<times> wildcard_policy) list) option" where
  "read_policy_list R h x =
     map_option (\<lambda>(m, is). (mli_Type x, m, elements is))
       (read_both (lv_ListMeta R) (read_ptr the_policies (read_list (read_policy R))) h (mli_Meta x, mli_Items x))"

section \<open>Every type is copied\<close>


lemmas cell_copier = copier_ptr [where zero = ZeroCell]

lemma the_bool: "boxes the_bool BoolCell"
  by (simp add: boxes_def the_bool_def)

lemma the_duration: "boxes the_duration DurationCell"
  by (simp add: boxes_def the_duration_def)

lemma the_time: "boxes the_time TimeCell"
  by (simp add: boxes_def the_time_def)

lemma the_strings: "boxes the_strings StringsCell"
  by (simp add: boxes_def the_strings_def)

lemma the_conditions: "boxes the_conditions ConditionsCell"
  by (simp add: boxes_def the_conditions_def)

lemma the_skipped_hosts: "boxes the_skipped_hosts SkippedHostsCell"
  by (simp add: boxes_def the_skipped_hosts_def)

lemma the_selector: "boxes the_selector SelectorCell"
  by (simp add: boxes_def the_selector_def)

lemma the_key_vault: "boxes the_key_vault KeyVaultCell"
  by (simp add: boxes_def the_key_vault_def)

lemma the_issuer: "boxes the_issuer IssuerCell"
  by (simp add: boxes_def the_issuer_def)

lemma the_secret_reference: "boxes the_secret_reference SecretReferenceCell"
  by (simp add: boxes_def the_secret_reference_def)

lemma the_source: "boxes the_source SourceCell"
  by (simp add: boxes_def the_source_def)

lemma the_skipped_host: "boxes the_skipped_host SkippedHostCell"
  by (simp add: boxes_def the_skipped_host_def)

lemma the_sync_policy: "boxes the_sync_policy SyncPolicyCell"
  by (simp add: boxes_def the_sync_policy_def)

lemma the_discovery: "boxes the_discovery DiscoveryCell"
  by (simp add: boxes_def the_discovery_def)

lemma the_sync_spec: "boxes the_sync_spec SyncSpecCell"
  by (simp add: boxes_def the_sync_spec_def)

lemma the_sync_status: "boxes the_sync_status SyncStatusCell"
  by (simp add: boxes_def the_sync_status_def)

lemma the_sync: "boxes the_sync SyncCell"
  by (simp add: boxes_def the_sync_def)

lemma the_syncs: "boxes the_syncs SyncsCell"
  by (simp add: boxes_def the_syncs_def)

lemma the_sync_list: "boxes the_sync_list SyncListCell"
  by (simp add: boxes_def the_sync_list_def)

lemma the_planned: "boxes the_planned PlannedCell"
  by (simp add: boxes_def the_planned_def)

lemma the_planned_array: "boxes the_planned_array PlannedArrayCell"
  by (simp add: boxes_def the_planned_array_def)

lemma the_listener: "boxes the_listener ListenerCell"
  by (simp add: boxes_def the_listener_def)

lemma the_listeners: "boxes the_listeners ListenersCell"
  by (simp add: boxes_def the_listeners_def)

lemma the_gateway: "boxes the_gateway GatewayCell"
  by (simp add: boxes_def the_gateway_def)

lemma the_policy_spec: "boxes the_policy_spec PolicySpecCell"
  by (simp add: boxes_def the_policy_spec_def)

lemma the_policy_status: "boxes the_policy_status PolicyStatusCell"
  by (simp add: boxes_def the_policy_status_def)

lemma the_policy: "boxes the_policy PolicyCell"
  by (simp add: boxes_def the_policy_def)

lemma the_policies: "boxes the_policies PoliciesCell"
  by (simp add: boxes_def the_policies_def)

lemma the_policy_list: "boxes the_policy_list PolicyListCell"
  by (simp add: boxes_def the_policy_list_def)

interpretation sync_policy: copier read_sync_policy DeepCopyInto_SyncPolicySpec
  by (rule copier_struct [where put = "\<lambda>x a. x\<lparr>msp_ResyncInterval := a\<rparr>",
      OF cell_copier [OF copier_value the_duration] _ _ read_sync_policy_def])
    (auto simp: DeepCopyInto_SyncPolicySpec_def copy_both_def split: prod.splits)

interpretation sync_spec: copier read_sync_spec DeepCopyInto_KeyVaultCertificateSyncSpec
  by (rule copier_struct [where put = "\<lambda>x a. x\<lparr>mxs_SyncPolicy := a\<rparr>",
      OF cell_copier [OF sync_policy.copier_axioms the_sync_policy] _ _ read_sync_spec_def])
    (auto simp: DeepCopyInto_KeyVaultCertificateSyncSpec_def copy_both_def split: prod.splits)

interpretation sync_status: copier read_sync_status DeepCopyInto_KeyVaultCertificateSyncStatus
  by (rule copier_struct [where put = "\<lambda>x (a, b, c, d). x\<lparr>mss_Conditions := a, mss_NotAfter := b, mss_DNSNames := c, mss_LastSyncTime := d\<rparr>",
      OF copier_both [OF cell_copier [OF copier.items [OF copier_value] the_conditions] copier_both [OF cell_copier [OF copier_value the_time] copier_both [OF cell_copier [OF copier_value the_strings] cell_copier [OF copier_value the_time]]]] _ _ read_sync_status_def])
    (auto simp: DeepCopyInto_KeyVaultCertificateSyncStatus_def copy_both_def split: prod.splits)

interpretation planned: copier read_planned DeepCopyInto_PlannedCertificate
  by (rule copier_struct [where put = "\<lambda>x a. x\<lparr>mpn_DNSNames := a\<rparr>",
      OF cell_copier [OF copier_value the_strings] _ _ read_planned_def])
    (auto simp: DeepCopyInto_PlannedCertificate_def copy_both_def split: prod.splits)

interpretation listener: copier read_listener DeepCopyInto_ListenerGuidance
  by (rule copier_struct [where put = "\<lambda>x a. x\<lparr>mlg_Hostnames := a\<rparr>",
      OF cell_copier [OF copier_value the_strings] _ _ read_listener_def])
    (auto simp: DeepCopyInto_ListenerGuidance_def copy_both_def split: prod.splits)

interpretation gateway: copier read_gateway DeepCopyInto_ApplicationGatewayGuidance
  by (rule copier_struct [where put = "\<lambda>x a. x\<lparr>mgg_Listeners := a\<rparr>",
      OF cell_copier [OF listener.items the_listeners] _ _ read_gateway_def])
    (auto simp: DeepCopyInto_ApplicationGatewayGuidance_def copy_both_def split: prod.splits)

interpretation policy_status: copier read_policy_status DeepCopyInto_WildcardCertificatePolicyStatus
  by (rule copier_struct [where put = "\<lambda>x (a, b, c, d, e). x\<lparr>mpt_Conditions := a, mpt_RequiredCertificates := b, mpt_SkippedHosts := c, mpt_ApplicationGateway := d, mpt_LastDiscoveryTime := e\<rparr>",
      OF copier_both [OF cell_copier [OF copier.items [OF copier_value] the_conditions] copier_both [OF cell_copier [OF planned.items the_planned_array] copier_both [OF cell_copier [OF copier_value the_skipped_hosts] copier_both [OF cell_copier [OF gateway.copier_axioms the_gateway] cell_copier [OF copier_value the_time]]]]] _ _ read_policy_status_def])
    (auto simp: DeepCopyInto_WildcardCertificatePolicyStatus_def copy_both_def split: prod.splits)

text \<open>The types that contain types of Kubernetes, when those can be copied.\<close>

locale api_copiers =
  object_meta: copier "lv_ObjectMeta R" "cy_ObjectMeta C" +
  list_meta: copier "lv_ListMeta R" "cy_ListMeta C" +
  label_selector: copier "lv_LabelSelector R" "cy_LabelSelector C"
  for R :: "'v lib_view" and C :: "'v copy_lib"

sublocale api_copiers \<subseteq> discovery: copier "read_discovery R" "DeepCopyInto_DiscoverySpec C"
  by (rule copier_struct [where put = "\<lambda>x (a, b, c, d). x\<lparr>mds_Ingress := a, mds_HTTPRoutes := b, mds_Gateways := c, mds_NamespaceSelector := d\<rparr>",
      OF copier_both [OF cell_copier [OF copier_value the_bool] copier_both [OF cell_copier [OF copier_value the_bool] copier_both [OF cell_copier [OF copier_value the_bool] cell_copier [OF label_selector.copier_axioms the_selector]]]] _ _ read_discovery_def])
    (auto simp: DeepCopyInto_DiscoverySpec_def copy_both_def split: prod.splits)

sublocale api_copiers \<subseteq> sync: copier "read_sync R" "DeepCopyInto_KeyVaultCertificateSync C"
  by (rule copier_struct [where put = "\<lambda>x (a, b, c). x\<lparr>mks_Meta := a, mks_Spec := b, mks_Status := c\<rparr>",
      OF copier_both [OF object_meta.copier_axioms copier_both [OF sync_spec.copier_axioms sync_status.copier_axioms]] _ _ read_sync_def])
    (auto simp: DeepCopyInto_KeyVaultCertificateSync_def copy_both_def split: prod.splits)

sublocale api_copiers \<subseteq> sync_list: copier "read_sync_list R" "DeepCopyInto_KeyVaultCertificateSyncList C"
  by (rule copier_struct [where put = "\<lambda>x (a, b). x\<lparr>mli_Meta := a, mli_Items := b\<rparr>",
      OF copier_both [OF list_meta.copier_axioms cell_copier [OF sync.items the_syncs]] _ _ read_sync_list_def])
    (auto simp: DeepCopyInto_KeyVaultCertificateSyncList_def copy_both_def split: prod.splits)

sublocale api_copiers \<subseteq> policy_spec: copier "read_policy_spec R" "DeepCopyInto_WildcardCertificatePolicySpec C"
  by (rule copier_struct [where put = "\<lambda>x (a, b, c). x\<lparr>mps_Zones := a, mps_Discovery := b, mps_SyncPolicy := c\<rparr>",
      OF copier_both [OF cell_copier [OF copier_value the_strings] copier_both [OF cell_copier [OF discovery.copier_axioms the_discovery] cell_copier [OF sync_policy.copier_axioms the_sync_policy]]] _ _ read_policy_spec_def])
    (auto simp: DeepCopyInto_WildcardCertificatePolicySpec_def copy_both_def split: prod.splits)

sublocale api_copiers \<subseteq> policy: copier "read_policy R" "DeepCopyInto_WildcardCertificatePolicy C"
  by (rule copier_struct [where put = "\<lambda>x (a, b, c). x\<lparr>mwp_Meta := a, mwp_Spec := b, mwp_Status := c\<rparr>",
      OF copier_both [OF object_meta.copier_axioms copier_both [OF policy_spec.copier_axioms policy_status.copier_axioms]] _ _ read_policy_def])
    (auto simp: DeepCopyInto_WildcardCertificatePolicy_def copy_both_def split: prod.splits)

sublocale api_copiers \<subseteq> policy_list: copier "read_policy_list R" "DeepCopyInto_WildcardCertificatePolicyList C"
  by (rule copier_struct [where put = "\<lambda>x (a, b). x\<lparr>mli_Meta := a, mli_Items := b\<rparr>",
      OF copier_both [OF list_meta.copier_axioms cell_copier [OF policy.items the_policies]] _ _ read_policy_list_def])
    (auto simp: DeepCopyInto_WildcardCertificatePolicyList_def copy_both_def split: prod.splits)

context api_copiers
begin

lemmas discovery_copier = discovery.copier_axioms
lemmas policy_spec_copier = policy_spec.copier_axioms

end

text \<open>And so do the methods \<open>DeepCopy\<close>, which copy pointers.\<close>

lemma copier_same: "(\<And>x h. into x h = (x, h)) \<Longrightarrow> copier read_value into"
  by unfold_locales (auto simp: read_value_def owns_def)

lemma DeepCopy_copies:
  "copier (read_ptr the_source read_value) DeepCopy_CertificateSourceSpec"
  "copier (read_ptr the_issuer read_value) DeepCopy_IssuerReference"
  "copier (read_ptr the_key_vault read_value) DeepCopy_KeyVaultSpec"
  "copier (read_ptr the_secret_reference read_value) DeepCopy_LocalSecretReference"
  "copier (read_ptr the_skipped_host read_value) DeepCopy_SkippedHost"
  "copier (read_ptr the_sync_policy read_sync_policy) DeepCopy_SyncPolicySpec"
  "copier (read_ptr the_sync_spec read_sync_spec) DeepCopy_KeyVaultCertificateSyncSpec"
  "copier (read_ptr the_sync_status read_sync_status) DeepCopy_KeyVaultCertificateSyncStatus"
  "copier (read_ptr the_planned read_planned) DeepCopy_PlannedCertificate"
  "copier (read_ptr the_listener read_listener) DeepCopy_ListenerGuidance"
  "copier (read_ptr the_gateway read_gateway) DeepCopy_ApplicationGatewayGuidance"
  "copier (read_ptr the_policy_status read_policy_status) DeepCopy_WildcardCertificatePolicyStatus"
  unfolding DeepCopy_CertificateSourceSpec_def DeepCopy_IssuerReference_def DeepCopy_KeyVaultSpec_def
    DeepCopy_LocalSecretReference_def DeepCopy_SkippedHost_def DeepCopy_SyncPolicySpec_def
    DeepCopy_KeyVaultCertificateSyncSpec_def DeepCopy_KeyVaultCertificateSyncStatus_def DeepCopy_PlannedCertificate_def
    DeepCopy_ListenerGuidance_def DeepCopy_ApplicationGatewayGuidance_def DeepCopy_WildcardCertificatePolicyStatus_def
  by (rule cell_copier, (rule copier_same, simp add: DeepCopyInto_CertificateSourceSpec_def DeepCopyInto_IssuerReference_def
      DeepCopyInto_KeyVaultSpec_def DeepCopyInto_LocalSecretReference_def DeepCopyInto_SkippedHost_def |
      rule sync_policy.copier_axioms sync_spec.copier_axioms sync_status.copier_axioms planned.copier_axioms
        listener.copier_axioms gateway.copier_axioms policy_status.copier_axioms),
    simp add: boxes_def the_cell_defs)+

lemma DeepCopy_copies_lib:
  assumes "api_copiers R C"
  shows "copier (read_ptr the_discovery (read_discovery R)) (DeepCopy_DiscoverySpec C)"
    and "copier (read_ptr the_policy_spec (read_policy_spec R)) (DeepCopy_WildcardCertificatePolicySpec C)"
  unfolding DeepCopy_DiscoverySpec_def DeepCopy_WildcardCertificatePolicySpec_def
  by (rule cell_copier, rule api_copiers.discovery_copier [OF assms] api_copiers.policy_spec_copier [OF assms],
    simp add: boxes_def the_cell_defs)+

section \<open>Property\<close>

text \<open>The value of an object.\<close>

datatype api_object =
    SyncValue "type_meta \<times> cert_sync"
  | SyncListValue "type_meta \<times> list_meta \<times> (type_meta \<times> cert_sync) list"
  | PolicyValue "type_meta \<times> wildcard_policy"
  | PolicyListValue "type_meta \<times> list_meta \<times> (type_meta \<times> wildcard_policy) list"

definition boxed_value :: "('y \<Rightarrow> api_object) \<Rightarrow> 'y option option \<Rightarrow> api_object option" where
  "boxed_value f r = (case r of Some (Some v) \<Rightarrow> Some (f v) | _ \<Rightarrow> None)"

lemma boxed_value_Some: "boxed_value f r = Some u \<longleftrightarrow> (\<exists>v. r = Some (Some v) \<and> u = f v)"
  by (auto simp: boxed_value_def split: option.splits)

fun read_object :: "'v lib_view \<Rightarrow> 'v cell memory \<Rightarrow> runtime_object \<Rightarrow> api_object option" where
  "read_object R h (SyncObject a) = boxed_value SyncValue (read_ptr the_sync (read_sync R) h (Some a))"
| "read_object R h (SyncListObject a) = boxed_value SyncListValue (read_ptr the_sync_list (read_sync_list R) h (Some a))"
| "read_object R h (PolicyObject a) = boxed_value PolicyValue (read_ptr the_policy (read_policy R) h (Some a))"
| "read_object R h (PolicyListObject a) = boxed_value PolicyListValue (read_ptr the_policy_list (read_policy_list R) h (Some a))"

lemmas DeepCopyObject_defs =
  DeepCopyObject_KeyVaultCertificateSync_def DeepCopyObject_KeyVaultCertificateSyncList_def
  DeepCopyObject_WildcardCertificatePolicy_def DeepCopyObject_WildcardCertificatePolicyList_def
  DeepCopy_KeyVaultCertificateSync_def DeepCopy_KeyVaultCertificateSyncList_def
  DeepCopy_WildcardCertificatePolicy_def DeepCopy_WildcardCertificatePolicyList_def

context api_copiers
begin

lemmas boxes_of_objects =
  box_copy [OF cell_copier [OF sync.copier_axioms the_sync]]
  box_copy [OF cell_copier [OF sync_list.copier_axioms the_sync_list]]
  box_copy [OF cell_copier [OF policy.copier_axioms the_policy]]
  box_copy [OF cell_copier [OF policy_list.copier_axioms the_policy_list]]

lemma object_copy:
  assumes "read_object R h ob = Some v"
  shows "\<exists>c h'. DeepCopyObject C ob h = (Some c, h') \<and>
     (\<forall>ws. fst ` set ws \<subseteq> {..<length h} \<longrightarrow> read_object R (write_all ws h') c = Some v) \<and>
     (\<forall>ws. fst ` set ws \<subseteq> {length h..} \<longrightarrow> read_object R (write_all ws h') ob = Some v)"
proof (cases ob)
  case (SyncObject a)
  with assms obtain u where "read_ptr the_sync (read_sync R) h (Some a) = Some (Some u)" "v = SyncValue u"
    by (auto simp: boxed_value_Some)
  with boxes_of_objects(1) [OF this(1)] SyncObject show ?thesis
    by (auto simp: DeepCopyObject_defs boxed_value_def intro!: exI [of _ "SyncObject (length h)"])
next
  case (SyncListObject a)
  with assms obtain u where "read_ptr the_sync_list (read_sync_list R) h (Some a) = Some (Some u)" "v = SyncListValue u"
    by (auto simp: boxed_value_Some)
  with boxes_of_objects(2) [OF this(1)] SyncListObject show ?thesis
    by (auto simp: DeepCopyObject_defs boxed_value_def intro!: exI [of _ "SyncListObject (length h)"])
next
  case (PolicyObject a)
  with assms obtain u where "read_ptr the_policy (read_policy R) h (Some a) = Some (Some u)" "v = PolicyValue u"
    by (auto simp: boxed_value_Some)
  with boxes_of_objects(3) [OF this(1)] PolicyObject show ?thesis
    by (auto simp: DeepCopyObject_defs boxed_value_def intro!: exI [of _ "PolicyObject (length h)"])
next
  case (PolicyListObject a)
  with assms obtain u where "read_ptr the_policy_list (read_policy_list R) h (Some a) = Some (Some u)" "v = PolicyListValue u"
    by (auto simp: boxed_value_Some)
  with boxes_of_objects(4) [OF this(1)] PolicyListObject show ?thesis
    by (auto simp: DeepCopyObject_defs boxed_value_def intro!: exI [of _ "PolicyListObject (length h)"])
qed

end

text \<open>
  C36. A deep copy shares nothing with its original. Copying an object of the API, which a controller
  got from the cache, succeeds with an object of the same value; and whatever is written afterwards
  to the memory that existed before, the copy keeps its value, as the original does whatever is
  written to the memory that the copy allocated.
\<close>
theorem DeepCopyObject_independent:
  assumes "api_copiers R C" and "read_object R h ob = Some v"
  shows "\<exists>c h'. DeepCopyObject C ob h = (Some c, h') \<and> read_object R h' c = Some v \<and>
     (\<forall>ws. fst ` set ws \<subseteq> {..<length h} \<longrightarrow> read_object R (write_all ws h') c = Some v) \<and>
     (\<forall>ws. fst ` set ws \<subseteq> {length h..} \<longrightarrow> read_object R (write_all ws h') ob = Some v)"
proof -
  obtain c h' where c: "DeepCopyObject C ob h = (Some c, h')"
    "\<forall>ws. fst ` set ws \<subseteq> {..<length h} \<longrightarrow> read_object R (write_all ws h') c = Some v"
    "\<forall>ws. fst ` set ws \<subseteq> {length h..} \<longrightarrow> read_object R (write_all ws h') ob = Some v"
    using api_copiers.object_copy [OF assms] by blast
  have "read_object R h' c = Some v" using c(2) [rule_format, of "[]"] by (simp add: write_all_def)
  with c show ?thesis by blast
qed

section \<open>Types of Kubernetes that share\<close>

text \<open>Metadata whose finalizers are a slice in memory.\<close>

record std_value =
  sd_Meta :: object_meta
  sd_Finalizers :: "addr option"
  sd_List :: list_meta
  sd_Selector :: label_selector

definition std_read_meta :: "std_value cell memory \<Rightarrow> std_value \<Rightarrow> object_meta option" where
  "std_read_meta h x =
     map_option (\<lambda>fs. (sd_Meta x)\<lparr>om_Finalizers := elements fs\<rparr>) (read_ptr the_strings read_value h (sd_Finalizers x))"

definition std_copy_meta :: "std_value \<Rightarrow> std_value cell memory \<Rightarrow> std_value \<times> std_value cell memory" where
  "std_copy_meta x h =
     (case copy_ptr ZeroCell the_strings StringsCell copy_value (sd_Finalizers x) h of (p, h') \<Rightarrow> (x\<lparr>sd_Finalizers := p\<rparr>, h'))"

definition std_view :: "std_value lib_view" where
  "std_view = \<lparr>lv_ObjectMeta = std_read_meta, lv_ListMeta = (\<lambda>h x. Some (sd_List x)), lv_LabelSelector = (\<lambda>h x. Some (sd_Selector x))\<rparr>"

definition std_copies :: "std_value copy_lib" where
  "std_copies = \<lparr>cy_ObjectMeta = std_copy_meta, cy_ListMeta = copy_value, cy_LabelSelector = copy_value\<rparr>"

lemma std_meta: "copier std_read_meta std_copy_meta"
  by (rule copier_struct [where put = "\<lambda>x p. x\<lparr>sd_Finalizers := p\<rparr>",
      OF cell_copier [OF copier_value the_strings] _ _ std_read_meta_def])
    (auto simp: std_copy_meta_def split: prod.splits)

interpretation std: api_copiers std_view std_copies
proof (rule api_copiers.intro)
  show "copier (lv_ObjectMeta std_view) (cy_ObjectMeta std_copies)"
    using std_meta by (simp add: std_view_def std_copies_def)
qed (unfold_locales, auto simp: std_view_def std_copies_def copy_value_def owns_def)

definition std_memory :: "std_value cell memory" where
  "std_memory =
     [StringsCell [''certsync.vileend.io/finalizer''], TimeCell 5000, StringsCell [''*.x.com''],
      SyncCell \<lparr> mks_Type = \<lparr>ty_Kind = ''KeyVaultCertificateSync'', ty_APIVersion = ''certsync.vileend.io/v1alpha1''\<rparr>,
        mks_Meta = \<lparr> sd_Meta = named_meta ''web'' ''tls'', sd_Finalizers = Some 0,
          sd_List = \<lparr>lm_ResourceVersion = [], lm_Continue = []\<rparr>, sd_Selector = \<lparr>ls_MatchLabels = [], ls_MatchExpressions = []\<rparr> \<rparr>,
        mks_Spec = \<lparr> mxs_Source = \<lparr>sx_SecretRef = \<lparr>lr_Name = ''tls''\<rparr>\<rparr>, mxs_KeyVault = empty_vault_spec, mxs_SyncPolicy = None \<rparr>,
        mks_Status = \<lparr> mss_Conditions = None, mss_ObservedGeneration = 1, mss_CertificateName = ''x-com'', mss_SecretIdentifier = [],
          mss_VaultCertificateVersion = [], mss_LastSyncedThumbprint = [], mss_ChainDigest = [], mss_NotAfter = Some 1,
          mss_DNSNames = Some 2, mss_LastSyncTime = None \<rparr> \<rparr>]"

lemma DeepCopyObject_independent_witness:
  "\<exists>c h' v. DeepCopyObject std_copies (SyncObject 3) std_memory = (Some c, h') \<and>
     read_object std_view (write_all [(2, StringsCell [''evil.com'']), (0, StringsCell [])] h') c = Some (SyncValue v) \<and>
     ct_DNSNames (sc_Status (snd v)) = [''*.x.com'']"
proof -
  let ?v = "case read_object std_view std_memory (SyncObject 3) of Some (SyncValue v) \<Rightarrow> v"
  have r: "read_object std_view std_memory (SyncObject 3) = Some (SyncValue ?v)" "ct_DNSNames (sc_Status (snd ?v)) = [''*.x.com'']"
    by (simp_all add: std_memory_def std_view_def std_read_meta_def read_ptr_def deref_def the_cell_defs read_value_def boxed_value_def
      read_sync_def read_both_def read_sync_spec_def read_sync_status_def elements_def)
  obtain c h' where c: "DeepCopyObject std_copies (SyncObject 3) std_memory = (Some c, h')"
    "\<forall>ws. fst ` set ws \<subseteq> {..<length std_memory} \<longrightarrow> read_object std_view (write_all ws h') c = Some (SyncValue ?v)"
    using DeepCopyObject_independent [OF std.api_copiers_axioms r(1)] by blast
  have "fst ` set [(2, StringsCell [''evil.com'']), (0, StringsCell [])] \<subseteq> {..<length std_memory}"
    by (simp add: std_memory_def)
  with c(2) have "read_object std_view (write_all [(2, StringsCell [''evil.com'']), (0, StringsCell [])] h') c = Some (SyncValue ?v)"
    by blast
  with c(1) r(2) show ?thesis by blast
qed

end
