(* ===== verification/GoFlag.thy ===== *)
theory GoFlag
  imports Errors
begin

text \<open>
  What the commands use of the package \<open>flag\<close> of Go: string and boolean flags, and the parsing of the
  arguments, which stops at the first one that is no flag. \<open>'o\<close> are the variables that are set.
\<close>

record 'o flag =
  fg_Name :: string
  fg_IsBool :: bool
  fg_Set :: "string \<Rightarrow> 'o \<Rightarrow> 'o go_result"

text \<open>\<open>strconv.ParseBool\<close>\<close>

definition ParseBool :: "string \<Rightarrow> bool go_result" where
  "ParseBool s =
     (if List.member [''1'', ''t'', ''T'', ''TRUE'', ''true'', ''True''] s then Inr True
      else if List.member [''0'', ''f'', ''F'', ''FALSE'', ''false'', ''False''] s then Inr False
      else Inl (EText ''parse error''))"

definition StringVar :: "string \<Rightarrow> (string \<Rightarrow> 'o \<Rightarrow> 'o) \<Rightarrow> 'o flag" where
  "StringVar name upd = \<lparr>fg_Name = name, fg_IsBool = False, fg_Set = (\<lambda>v s. Inr (upd v s))\<rparr>"

definition BoolVar :: "string \<Rightarrow> (bool \<Rightarrow> 'o \<Rightarrow> 'o) \<Rightarrow> 'o flag" where
  "BoolVar name upd =
     \<lparr> fg_Name = name, fg_IsBool = True,
       fg_Set = (\<lambda>v s. case ParseBool v of Inl err \<Rightarrow> Inl err | Inr b \<Rightarrow> Inr (upd b s)) \<rparr>"

text \<open>Flags of other packages, which set variables of their own.\<close>

definition on_fst :: "'a flag \<Rightarrow> ('a \<times> 'b) flag" where
  "on_fst f =
     \<lparr> fg_Name = fg_Name f, fg_IsBool = fg_IsBool f,
       fg_Set = (\<lambda>v s. case fg_Set f v (fst s) of Inl err \<Rightarrow> Inl err | Inr x \<Rightarrow> Inr (x, snd s)) \<rparr>"

definition on_snd :: "'b flag \<Rightarrow> ('a \<times> 'b) flag" where
  "on_snd f =
     \<lparr> fg_Name = fg_Name f, fg_IsBool = fg_IsBool f,
       fg_Set = (\<lambda>v s. case fg_Set f v (snd s) of Inl err \<Rightarrow> Inl err | Inr x \<Rightarrow> Inr (fst s, x)) \<rparr>"

definition ErrHelp :: go_error where "ErrHelp = EText ''flag: help requested''"

definition lookup_flag :: "'o flag list \<Rightarrow> string \<Rightarrow> 'o flag option" where
  "lookup_flag fs name = find (\<lambda>f. fg_Name f = name) fs"

text \<open>The name after the dashes, if the argument is a flag.\<close>

definition flag_text :: "string \<Rightarrow> string option" where
  "flag_text s =
     (case s of
        c # d # r \<Rightarrow> if c = CHR ''-'' then Some (if d = CHR ''-'' then r else d # r) else None
      | _ \<Rightarrow> None)"

definition flag_value :: "string \<Rightarrow> string \<times> string option" where
  "flag_value text = (case Cut text ''='' of None \<Rightarrow> (text, None) | Some (name, v) \<Rightarrow> (name, Some v))"

fun parse_flags :: "'o flag list \<Rightarrow> string list \<Rightarrow> 'o \<Rightarrow> ('o \<times> string list) go_result" where
  "parse_flags fs [] s = Inr (s, [])"
| "parse_flags fs (arg # args) s =
     (case flag_text arg of
        None \<Rightarrow> Inr (s, arg # args)
      | Some text \<Rightarrow>
          if arg = ''--'' then Inr (s, args)
          else if text = [] \<or> hd text = CHR ''-'' \<or> hd text = CHR ''='' then Inl (Errorf ''bad flag syntax: %s'' [AStr arg])
          else let (name, value) = flag_value text in
            (case lookup_flag fs name of
               None \<Rightarrow>
                 if name = ''help'' \<or> name = ''h'' then Inl ErrHelp
                 else Inl (Errorf ''flag provided but not defined: -%s'' [AStr name])
             | Some f \<Rightarrow>
                 if fg_IsBool f then
                   (case fg_Set f (case value of None \<Rightarrow> ''true'' | Some v \<Rightarrow> v) s of
                      Inl err \<Rightarrow> Inl (Errorf ''invalid boolean value %q for -%s: %v''
                        [AStr (case value of None \<Rightarrow> ''true'' | Some v \<Rightarrow> v), AStr name, AErr err])
                    | Inr s' \<Rightarrow> parse_flags fs args s')
                 else
                   (case value of
                      Some v \<Rightarrow>
                        (case fg_Set f v s of
                           Inl err \<Rightarrow> Inl (Errorf ''invalid value %q for flag -%s: %v'' [AStr v, AStr name, AErr err])
                         | Inr s' \<Rightarrow> parse_flags fs args s')
                    | None \<Rightarrow>
                        (case args of
                           [] \<Rightarrow> Inl (Errorf ''flag needs an argument: -%s'' [AStr name])
                         | v # args' \<Rightarrow>
                             (case fg_Set f v s of
                                Inl err \<Rightarrow> Inl (Errorf ''invalid value %q for flag -%s: %v'' [AStr v, AStr name, AErr err])
                              | Inr s' \<Rightarrow> parse_flags fs args' s')))))"

declare parse_flags.simps(2) [simp del]

section \<open>Lemmas\<close>

text \<open>The argument that sets a flag.\<close>

definition flag_arg :: "string \<Rightarrow> string \<Rightarrow> string" where
  "flag_arg name v = ''--'' @ name @ CHR ''='' # v"

definition bool_text :: "bool \<Rightarrow> string" where
  "bool_text b = (if b then ''true'' else ''false'')"

lemma ParseBool_text [simp]: "ParseBool (bool_text b) = Inr b"
  by (simp add: bool_text_def ParseBool_def)

lemma parse_flag_arg:
  assumes "name \<noteq> []" and "hd name \<noteq> CHR ''-''" and "CHR ''='' \<notin> set name"
    and "lookup_flag fs name = Some f" and "fg_Set f v s = Inr s'"
  shows "parse_flags fs (flag_arg name v # args) s = parse_flags fs args s'"
proof -
  have "hd name \<noteq> CHR ''=''" using assms(1,3) by (metis hd_in_set)
  moreover have "flag_text (flag_arg name v) = Some (name @ CHR ''='' # v)" by (simp add: flag_text_def flag_arg_def)
  moreover have "flag_arg name v \<noteq> ''--''" by (simp add: flag_arg_def)
  moreover have "flag_value (name @ CHR ''='' # v) = (name, Some v)"
    using assms(3) by (simp add: flag_value_def Cut_char_first)
  ultimately show ?thesis using assms by (simp add: parse_flags.simps(2))
qed

text \<open>An argument for a name that no flag has is refused, wherever it stands among the flags.\<close>

lemma parse_unknown_flag:
  assumes "name \<noteq> []" and "hd name \<noteq> CHR ''-''" and "CHR ''='' \<notin> set name" and "name \<noteq> ''help''" and "name \<noteq> ''h''"
    and "lookup_flag fs name = None"
  shows "parse_flags fs (flag_arg name v # args) s = Inl (Errorf ''flag provided but not defined: -%s'' [AStr name])"
proof -
  have "hd name \<noteq> CHR ''=''" using assms(1,3) by (metis hd_in_set)
  moreover have "flag_text (flag_arg name v) = Some (name @ CHR ''='' # v)" by (simp add: flag_text_def flag_arg_def)
  moreover have "flag_arg name v \<noteq> ''--''" by (simp add: flag_arg_def)
  moreover have "flag_value (name @ CHR ''='' # v) = (name, Some v)"
    using assms(3) by (simp add: flag_value_def Cut_char_first)
  ultimately show ?thesis using assms by (simp add: parse_flags.simps(2))
qed

end
