(* ===== verification/Watches.thy ===== *)
theory Watches
  imports PolicyController SyncCtlProps
begin

text \<open>
  What wakes the controllers: the registrations of \<open>SetupWithManager\<close> in
  \<open>internal/controller/certificatesync_controller.go\<close> and
  \<open>internal/controller/wildcardpolicy_controller.go\<close>. The builder, the predicates and the event
  handlers of controller-runtime are a parameter with their documented behaviour as a contract.
\<close>

section \<open>Watches and registrations\<close>

datatype watched_kind = WatchSecret | WatchIngress | WatchHTTPRoute | WatchGateway

text \<open>What a predicate and a mapping function see of an object.\<close>

record watched_object =
  wo_Meta :: object_meta
  wo_ResourceVersion :: string

datatype watch_event =
    CreateEvent watched_object
  | UpdateEvent watched_object watched_object
  | DeleteEvent watched_object
  | GenericEvent watched_object

type_synonym event_predicate = "watch_event \<Rightarrow> bool"
type_synonym 'w map_func = "watched_object \<Rightarrow> ('w, object_key list) io"

text \<open>An update is seen by its new object, and handled for both.\<close>

fun event_object :: "watch_event \<Rightarrow> watched_object" where
  "event_object (CreateEvent ob) = ob"
| "event_object (UpdateEvent old new) = new"
| "event_object (DeleteEvent ob) = ob"
| "event_object (GenericEvent ob) = ob"

fun event_objects :: "watch_event \<Rightarrow> watched_object list" where
  "event_objects (UpdateEvent old new) = [old, new]"
| "event_objects e = [event_object e]"

record 'w watch =
  wt_Kind :: watched_kind
  wt_Handler :: "watch_event \<Rightarrow> ('w, object_key list) io"
  wt_Predicate :: event_predicate

record 'w registration =
  rg_Name :: string
  rg_Owns_syncs :: bool
  rg_Watches :: "'w watch list"
  rg_Reconcile :: "object_key \<Rightarrow> ('w, ctrl_result) io"

record 'w ctrl_manager =
  mg_IndexField :: "string \<Rightarrow> (cert_sync \<Rightarrow> string list) \<Rightarrow> ('w, unit) io"
  mg_LabelSelectorPredicate :: "(string \<times> string) list \<Rightarrow> event_predicate go_result"
  mg_ResourceVersionChanged :: event_predicate
  mg_And :: "event_predicate list \<Rightarrow> event_predicate"
  mg_EnqueueRequestsFromMapFunc :: "'w map_func \<Rightarrow> watch_event \<Rightarrow> ('w, object_key list) io"
  mg_Complete :: "'w registration \<Rightarrow> ('w, unit) io"

section \<open>The sync controller\<close>

definition sync_registration ::
  "library \<Rightarrow> 'w ctrl_manager \<Rightarrow> 'w sync_reconciler \<Rightarrow> event_predicate \<Rightarrow> 'w registration" where
  "sync_registration G M R managed =
     \<lparr> rg_Name = ''keyvaultcertificatesync'', rg_Owns_syncs = False,
       rg_Watches = [\<lparr> wt_Kind = WatchSecret,
         wt_Handler = mg_EnqueueRequestsFromMapFunc M (\<lambda>ob. syncsForSecret R (key_of (wo_Meta ob))),
         wt_Predicate = mg_And M [managed, mg_ResourceVersionChanged M] \<rparr>],
       rg_Reconcile = sync_Reconcile G R \<rparr>"

definition sync_SetupWithManager :: "library \<Rightarrow> 'w ctrl_manager \<Rightarrow> 'w sync_reconciler \<Rightarrow> ('w, unit) io" where
  "sync_SetupWithManager G M R =
     io_bind (io_wrap (\<lambda>err. Errorf ''indexing %s: %w'' [AStr SecretRefIndexKey, AErr err])
                (mg_IndexField M SecretRefIndexKey secret_ref_index)) (\<lambda>_.
     io_bind (io_wrap (\<lambda>err. Errorf ''building the managed-secret predicate: %w'' [AErr err])
                (io_lift (mg_LabelSelectorPredicate M [(LabelManaged, LabelManagedValue)]))) (\<lambda>managed.
     mg_Complete M (sync_registration G M R managed)))"

section \<open>The policy controller\<close>

definition policy_registration ::
  "library \<Rightarrow> 'w ctrl_manager \<Rightarrow> 'w policy_reconciler \<Rightarrow> watched_kind list \<Rightarrow> 'w registration" where
  "policy_registration G M R watches =
     \<lparr> rg_Name = ''wildcardcertificatepolicy'', rg_Owns_syncs = True,
       rg_Watches = map (\<lambda>kind. \<lparr> wt_Kind = kind,
         wt_Handler = mg_EnqueueRequestsFromMapFunc M (\<lambda>_. enqueueAllPolicies R),
         wt_Predicate = (\<lambda>_. True) \<rparr>) watches,
       rg_Reconcile = policy_Reconcile G R \<rparr>"

definition policy_SetupWithManager ::
  "library \<Rightarrow> 'w ctrl_manager \<Rightarrow> 'w policy_reconciler \<Rightarrow> watched_kind list \<Rightarrow> ('w, unit) io" where
  "policy_SetupWithManager G M R watches = mg_Complete M (policy_registration G M R watches)"

section \<open>The contracts\<close>

text \<open>
  The documented behaviour of the predicates and of the handler, and the index: a list by the
  indexed field returns the objects whose index function yields the value.
\<close>

locale watch_contract =
  fixes M :: "'w ctrl_manager"
  assumes label_predicate:
      "mg_LabelSelectorPredicate M ls = Inr p \<Longrightarrow>
         p e \<longleftrightarrow> (\<forall>(l, v) \<in> set ls. map_of (om_Labels (wo_Meta (event_object e))) l = Some v)"
    and version_predicate:
      "mg_ResourceVersionChanged M e \<longleftrightarrow>
         (case e of UpdateEvent old new \<Rightarrow> wo_ResourceVersion old \<noteq> wo_ResourceVersion new | _ \<Rightarrow> True)"
    and and_predicate: "mg_And M ps e \<longleftrightarrow> (\<forall>p \<in> set ps. p e)"
    and enqueue:
      "(\<And>ob. ob \<in> set (event_objects e) \<Longrightarrow> f ob w = (Inr (keys ob), w)) \<Longrightarrow>
         \<exists>ks. mg_EnqueueRequestsFromMapFunc M f e w = (Inr ks, w) \<and>
           set ks = (\<Union>ob \<in> set (event_objects e). set (keys ob))"

text \<open>The resources in the namespace of a Secret that name it.\<close>

definition referencing_syncs :: "('w \<Rightarrow> object_key \<Rightarrow> cert_sync option) \<Rightarrow> 'w \<Rightarrow> object_key \<Rightarrow> object_key set" where
  "referencing_syncs syncs w secret =
     {k. \<exists>s. syncs w k = Some s \<and> ok_Namespace k = ok_Namespace secret \<and> ok_Name secret \<noteq> [] \<and>
        lr_Name (sx_SecretRef (cx_Source (sc_Spec s))) = ok_Name secret}"

locale index_contract =
  fixes C :: "'w kube_client"
    and syncs :: "'w \<Rightarrow> object_key \<Rightarrow> cert_sync option"
  assumes indexed_key: "syncs w k = Some s \<Longrightarrow> key_of (sc_Meta s) = k"
    and list_indexed:
      "\<exists>items. list_syncs C ns (MatchingFields [(SecretRefIndexKey, v)]) w = (Inr items, w) \<and>
         set items = {s. syncs w (key_of (sc_Meta s)) = Some s \<and> om_Namespace (sc_Meta s) = ns \<and> v \<in> set (secret_ref_index s)}"
begin

lemma index_image:
  "(\<lambda>s. key_of (sc_Meta s)) ` {s. syncs w (key_of (sc_Meta s)) = Some s \<and> om_Namespace (sc_Meta s) = ok_Namespace secret \<and>
       ok_Name secret \<in> set (secret_ref_index s)} = referencing_syncs syncs w secret" (is "?f ` ?S = _")
proof (rule set_eqI)
  fix k
  show "k \<in> ?f ` ?S \<longleftrightarrow> k \<in> referencing_syncs syncs w secret"
  proof (cases "syncs w k")
    case None
    then show ?thesis by (auto simp: referencing_syncs_def)
  next
    case (Some s)
    note k = indexed_key [OF Some]
    have ns: "om_Namespace (sc_Meta s) = ok_Namespace k" using k by (auto simp: key_of_def)
    have "ok_Name secret \<in> set (secret_ref_index s) \<longleftrightarrow>
        ok_Name secret \<noteq> [] \<and> lr_Name (sx_SecretRef (cx_Source (sc_Spec s))) = ok_Name secret"
      by (auto simp: secret_ref_index_def Let_def)
    moreover have "k \<in> ?f ` ?S \<longleftrightarrow> s \<in> ?S"
    proof -
      have u: "s' = s" if "s' \<in> ?S" "k = ?f s'" for s'
        using that(1) Some unfolding that(2) by simp
      show ?thesis
      proof
        assume "k \<in> ?f ` ?S"
        then obtain s' where s': "k = ?f s'" "s' \<in> ?S" by (rule imageE)
        then show "s \<in> ?S" using u [OF s'(2,1)] by (simp only:)
      next
        assume "s \<in> ?S"
        then have "?f s \<in> ?f ` ?S" by (rule imageI)
        then show "k \<in> ?f ` ?S" unfolding k .
      qed
    qed
    moreover have "s \<in> ?S \<longleftrightarrow> ok_Namespace k = ok_Namespace secret \<and> ok_Name secret \<in> set (secret_ref_index s)"
      unfolding mem_Collect_eq k ns Some by simp
    moreover have "k \<in> referencing_syncs syncs w secret \<longleftrightarrow> ok_Namespace k = ok_Namespace secret \<and>
        ok_Name secret \<noteq> [] \<and> lr_Name (sx_SecretRef (cx_Source (sc_Spec s))) = ok_Name secret"
      by (simp add: referencing_syncs_def Some)
    ultimately show ?thesis by argo
  qed
qed

lemma syncsForSecret_keys:
  assumes "sr_Client R = C"
  shows "\<exists>keys. syncsForSecret R secret w = (Inr keys, w) \<and> set keys = referencing_syncs syncs w secret"
proof -
  obtain items where i: "list_syncs C (ok_Namespace secret) (MatchingFields [(SecretRefIndexKey, ok_Name secret)]) w = (Inr items, w)"
    "set items = {s. syncs w (key_of (sc_Meta s)) = Some s \<and> om_Namespace (sc_Meta s) = ok_Namespace secret \<and>
       ok_Name secret \<in> set (secret_ref_index s)}"
    using list_indexed by blast
  then show ?thesis
    using index_image [of w secret] by (simp add: syncsForSecret_def assms io_simps)
qed

end

text \<open>The server in memory keeps the index.\<close>

interpretation memory_index: index_contract memory_client server_syncs
proof (unfold_locales, goal_cases)
  case (1 w k s)
  then show ?case by (rule memory_server.sync_key)
next
  case (2 ns v w)
  have "sync_field s SecretRefIndexKey v \<longleftrightarrow> v \<in> set (secret_ref_index s)" for s
    by (auto simp: sync_field_def SecretRefIndexKey_def secret_ref_index_def Let_def)
  then show ?case
    by (auto simp: memory_client_def server_syncs_def set_visible matches_def)
qed

section \<open>An implementation of the manager\<close>

definition std_manager :: "'w ctrl_manager" where
  "std_manager =
     \<lparr> mg_IndexField = (\<lambda>_ _. io_return ()),
       mg_LabelSelectorPredicate = (\<lambda>ls. Inr (\<lambda>e.
         list_all (\<lambda>(l, v). map_of (om_Labels (wo_Meta (event_object e))) l = Some v) ls)),
       mg_ResourceVersionChanged = (\<lambda>e. case e of
         UpdateEvent old new \<Rightarrow> wo_ResourceVersion old \<noteq> wo_ResourceVersion new | _ \<Rightarrow> True),
       mg_And = (\<lambda>ps e. list_all (\<lambda>p. p e) ps),
       mg_EnqueueRequestsFromMapFunc = (\<lambda>f e. case event_objects e of
           [old, new] \<Rightarrow> io_bind (f old) (\<lambda>ks. io_bind (f new) (\<lambda>ks'. io_return (remdups (ks @ ks'))))
         | _ \<Rightarrow> f (event_object e)),
       mg_Complete = (\<lambda>_. io_return ()) \<rparr>"

interpretation std_manager: watch_contract std_manager
proof (unfold_locales, goal_cases)
  case (4 e f w keys)
  then show ?case by (cases e) (auto simp: std_manager_def io_simps)
qed (auto simp: std_manager_def list_all_iff split: watch_event.splits)

section \<open>Renewals wake the resources\<close>


section \<open>Routing changes wake the policies\<close>

locale policies_contract =
  fixes C :: "'w kube_client"
    and policies :: "'w \<Rightarrow> object_key \<Rightarrow> wildcard_policy option"
  assumes policy_key: "policies w k = Some p \<Longrightarrow> key_of (wp_Meta p) = k"
    and list_all_policies:
      "\<exists>items. list_policies C w = (Inr items, w) \<and> set items = {p. policies w (key_of (wp_Meta p)) = Some p}"
begin

lemma enqueueAllPolicies_keys:
  assumes "pr_Client R = C"
  shows "\<exists>keys. enqueueAllPolicies R w = (Inr keys, w) \<and> set keys = dom (policies w)"
proof -
  obtain items where i: "list_policies C w = (Inr items, w)"
    "set items = {p. policies w (key_of (wp_Meta p)) = Some p}"
    using list_all_policies by blast
  have "(\<lambda>p. key_of (wp_Meta p)) ` set items = dom (policies w)"
    unfolding i(2)
  proof (intro equalityI subsetI)
    fix k assume "k \<in> dom (policies w)"
    then obtain p where p: "policies w k = Some p" by blast
    have "key_of (wp_Meta p) = k" using p by (rule policy_key)
    with p show "k \<in> (\<lambda>p. key_of (wp_Meta p)) ` {p. policies w (key_of (wp_Meta p)) = Some p}"
      by (intro image_eqI [of _ _ p]) simp_all
  qed auto
  with i(1) show ?thesis by (simp add: enqueueAllPolicies_def assms io_simps)
qed

end

definition server_policies :: "api_server \<Rightarrow> object_key \<Rightarrow> wildcard_policy option" where
  "server_policies w = lookup_obj policy_key_of (sv_Policies w)"

interpretation memory_policies: policies_contract memory_client server_policies
  by unfold_locales (auto simp: memory_client_def server_policies_def set_visible dest: lookup_key)

text \<open>
  Every kind that is watched, and nothing else, wakes all policies on every event; the sync
  resources that a policy owns wake it as well.
\<close>

lemma routing_wakes_policies:
  assumes "watch_contract M" and "policies_contract (pr_Client R) policies"
  shows "policy_SetupWithManager G M R watches = mg_Complete M (policy_registration G M R watches)"
    and "map wt_Kind (rg_Watches (policy_registration G M R watches)) = watches"
    and "wt \<in> set (rg_Watches (policy_registration G M R watches)) \<Longrightarrow>
      wt_Predicate wt e \<and> (\<exists>keys. wt_Handler wt e w = (Inr keys, w) \<and> set keys = dom (policies w))"
proof -
  obtain keys where k: "enqueueAllPolicies R w = (Inr keys, w)" "set keys = dom (policies w)"
    using policies_contract.enqueueAllPolicies_keys [OF assms(2) refl] by blast
  have ne: "event_objects e \<noteq> []" by (cases e) auto
  obtain ks where ks: "mg_EnqueueRequestsFromMapFunc M (\<lambda>_. enqueueAllPolicies R) e w = (Inr ks, w)"
    "set ks = (\<Union>ob \<in> set (event_objects e). set keys)"
    using watch_contract.enqueue [OF assms(1), of e "\<lambda>_. enqueueAllPolicies R" w "\<lambda>_. keys"] k(1) by blast
  show "wt \<in> set (rg_Watches (policy_registration G M R watches)) \<Longrightarrow>
      wt_Predicate wt e \<and> (\<exists>keys. wt_Handler wt e w = (Inr keys, w) \<and> set keys = dom (policies w))"
    using ks k(2) ne by (auto simp: policy_registration_def)
qed (simp_all add: policy_SetupWithManager_def policy_registration_def comp_def)

section \<open>Examples\<close>

definition renewed_secret :: "string \<Rightarrow> watched_object" where
  "renewed_secret version =
     \<lparr> wo_Meta = (named_meta ''web'' ''shop-tls'')\<lparr>om_Labels := [(LabelManaged, LabelManagedValue)]\<rparr>,
       wo_ResourceVersion = version \<rparr>"

definition shop_sync :: cert_sync where
  "shop_sync = (toy_sync None)\<lparr>sc_Spec := (sc_Spec (toy_sync None))
     \<lparr>cx_Source := \<lparr>sx_SecretRef = \<lparr>lr_Name = ''shop-tls''\<rparr>\<rparr>\<rparr>\<rparr>"


end
