(* ===== verification/Manager.thy ===== *)
theory Manager
  imports Watches AzureRepository
begin

text \<open>
  The composition root (\<open>cmd/manager/main.go\<close>) and the choice of the Azure credential
  (\<open>internal/infra/azure/credential.go\<close>): flags to options, the restrictions of the cache and of
  the vaults, and the order of the start. Logging is left out; the command line is that of \<open>CommandLine\<close>.
  controller-runtime and azidentity are parameters.
\<close>

section \<open>Options\<close>

record options =
  op_metricsAddr :: string
  op_probeAddr :: string
  op_secureMetrics :: bool
  op_enableHTTP2 :: bool
  op_leaderElection :: bool
  op_watchNamespaces :: string
  op_credentialMode :: string
  op_allowedVaults :: string
  op_azureCloud :: string

fun split_loop :: "platform \<Rightarrow> string list \<Rightarrow> string list \<Rightarrow> string list" where
  "split_loop P [] out = out"
| "split_loop P (item # items) out =
     split_loop P items (let trimmed = TrimSpace P item in if trimmed \<noteq> [] then out @ [trimmed] else out)"

definition splitNamespaces :: "platform \<Rightarrow> string \<Rightarrow> string list" where
  "splitNamespaces P value = split_loop P (SplitChar value (CHR '','')) []"

text \<open>The cache: the label that Secrets must carry, and the namespaces it is restricted to, if any.\<close>

record cache_options =
  co_SecretLabel :: "(string \<times> string) list"
  co_DefaultNamespaces :: "string set option"

definition cacheOptions :: "platform \<Rightarrow> options \<Rightarrow> cache_options" where
  "cacheOptions P opts =
     (let namespaces = splitNamespaces P (op_watchNamespaces opts) in
      \<lparr> co_SecretLabel = ManagedSecretSelector,
        co_DefaultNamespaces = (if length namespaces > 0 then Some (set namespaces) else None) \<rparr>)"

record manager_options =
  mo_MetricsBindAddress :: string
  mo_SecureServing :: bool
  mo_NextProtos :: "string list option"
  mo_AuthFilter :: bool
  mo_HealthProbeBindAddress :: string
  mo_LeaderElection :: bool
  mo_LeaderElectionID :: string
  mo_Cache :: cache_options

definition managerOptions :: "platform \<Rightarrow> options \<Rightarrow> manager_options" where
  "managerOptions P opts =
     \<lparr> mo_MetricsBindAddress = op_metricsAddr opts, mo_SecureServing = op_secureMetrics opts,
       mo_NextProtos = (if \<not> op_enableHTTP2 opts then Some [''http/1.1''] else None),
       mo_AuthFilter = op_secureMetrics opts, mo_HealthProbeBindAddress = op_probeAddr opts,
       mo_LeaderElection = op_leaderElection opts,
       mo_LeaderElectionID = ''keyvault-certoperator.certsync.vileend.io'',
       mo_Cache = cacheOptions P opts \<rparr>"

section \<open>The vault allowlist\<close>

fun allowed_loop :: "platform \<Rightarrow> parse_addr \<Rightarrow> cloud \<Rightarrow> string list \<Rightarrow> vault_allowlist \<Rightarrow> vault_allowlist go_result" where
  "allowed_loop P ip cloud [] allowed = Inr allowed"
| "allowed_loop P ip cloud (entry # entries) allowed =
     (let entry = TrimSpace P entry in
      if entry = [] then allowed_loop P ip cloud entries allowed
      else (case VaultURL P ip entry cloud of
              Inl err \<Rightarrow> Inl (Errorf ''%q: %w'' [AStr entry, AErr err])
            | Inr url \<Rightarrow> allowed_loop P ip cloud entries (allowed @ [url])))"

definition parseAllowedVaults :: "platform \<Rightarrow> parse_addr \<Rightarrow> string \<Rightarrow> cloud \<Rightarrow> vault_allowlist go_result" where
  "parseAllowedVaults P ip value cloud = allowed_loop P ip cloud (SplitChar value (CHR '','')) []"

section \<open>The credential\<close>

definition CredentialWorkloadIdentity :: string where "CredentialWorkloadIdentity = ''workload-identity''"
definition CredentialDefault :: string where "CredentialDefault = ''default''"

text \<open>The constructors of azidentity.\<close>

record ('c, 'w) azidentity =
  NewWorkloadIdentityCredential :: "('w, 'c) io"
  NewDefaultAzureCredential :: "('w, 'c) io"

definition NewCredential :: "('c, 'w) azidentity \<Rightarrow> string \<Rightarrow> ('w, 'c) io" where
  "NewCredential A mode =
     (if mode = [] \<or> mode = CredentialWorkloadIdentity
      then io_wrap (\<lambda>err. Errorf (''configuring Azure workload identity '' @
             ''(check the ServiceAccount's azure.workload.identity/client-id annotation and '' @
             ''the pod's azure.workload.identity/use label): %w'') [AErr err])
             (NewWorkloadIdentityCredential A)
      else if mode = CredentialDefault
      then io_wrap (\<lambda>err. Errorf ''configuring the default Azure credential chain: %w'' [AErr err])
             (NewDefaultAzureCredential A)
      else io_fail (Errorf ''unknown Azure credential mode %q'' [AStr mode]))"

section \<open>The start\<close>

definition crdInstalled :: "'w rest_mapper \<Rightarrow> group_kind \<Rightarrow> string \<Rightarrow> ('w, bool) io" where
  "crdInstalled mapper gk version =
     io_case (mapper gk version) (\<lambda>_. io_return False) (\<lambda>_. io_return True)"

text \<open>
  What controller-runtime offers: a manager for given options, the client and mapper it has, the
  registration of the controllers, the probes, and the run. \<open>azcertificates.NewClient\<close> and the
  calls of a client are those of the SDK. The cache of the repository is beside the world in which
  the calls of the SDK take place.
\<close>

record ('a, 'c, 'w) controller_runtime =
  cr_NewManager :: "manager_options \<Rightarrow> (('c, 'w) repo_world, unit) io"
  cr_Client :: "('c, 'w) repo_world kube_client"
  cr_Mapper :: "('c, 'w) repo_world rest_mapper"
  cr_EventRecorder :: "string \<Rightarrow> ('c, 'w) repo_world recorder"
  cr_NewClient :: "string \<Rightarrow> 'a \<Rightarrow> ('w, 'c) io"
  cr_Certificates :: "('c, 'w) azure_sdk"
  cr_RealClock :: "('c, 'w) repo_world clock"
  cr_Pkcs12 :: "('c, 'w) repo_world pkcs12_lib"
  cr_Rand :: "int \<Rightarrow> ('c, 'w) repo_world \<Rightarrow> int \<times> ('c, 'w) repo_world"
  cr_Metrics :: "(metrics \<Rightarrow> metrics) \<Rightarrow> ('c, 'w) repo_world \<Rightarrow> ('c, 'w) repo_world"
  cr_Manager :: "('c, 'w) repo_world ctrl_manager"
  cr_AddHealthzCheck :: "string \<Rightarrow> (('c, 'w) repo_world, unit) io"
  cr_AddReadyzCheck :: "string \<Rightarrow> (('c, 'w) repo_world, unit) io"
  cr_Start :: "(('c, 'w) repo_world, unit) io"

definition gateway_kind :: "string \<Rightarrow> group_kind" where
  "gateway_kind kind = \<lparr>gk_Group = ''gateway.networking.k8s.io'', gk_Kind = kind\<rparr>"

definition watches_of :: "bool \<Rightarrow> bool \<Rightarrow> watched_kind list" where
  "watches_of httpRoutes gateways =
     [WatchIngress] @ (if httpRoutes then [WatchHTTPRoute] else []) @ (if gateways then [WatchGateway] else [])"

definition run_operator ::
  "library \<Rightarrow> x509_lib \<Rightarrow> ('a, ('c, 'w) repo_world) azidentity \<Rightarrow> ('a, 'c, 'w) controller_runtime \<Rightarrow> options \<Rightarrow>
     (('c, 'w) repo_world, unit) io" where
  "run_operator G L A K opts =
     (let P = lb_Platform G in
      io_bind (io_wrap (\<lambda>err. Errorf ''creating the manager: %w'' [AErr err]) (cr_NewManager K (managerOptions P opts))) (\<lambda>_.
      io_bind (io_wrap (\<lambda>err. Errorf ''parsing --azure-cloud: %w'' [AErr err]) (io_lift (ParseCloud P (op_azureCloud opts)))) (\<lambda>cloud.
      io_bind (NewCredential A (op_credentialMode opts)) (\<lambda>credential.
      io_bind (NewRepository (cr_Certificates K) (NewClientFactory (cr_NewClient K) credential)) (\<lambda>vault.
      io_bind (io_wrap (\<lambda>err. Errorf ''parsing --allowed-vaults: %w'' [AErr err])
                 (io_lift (parseAllowedVaults P (lb_ParseAddr G) (op_allowedVaults opts) cloud))) (\<lambda>allowedVaults.
      io_bind (io_wrap (\<lambda>err. Errorf ''setting up the certificate sync controller: %w'' [AErr err])
                 (sync_SetupWithManager G (cr_Manager K)
                    \<lparr> sr_Client = cr_Client K, sr_Recorder = Some (cr_EventRecorder K ''keyvaultcertificatesync''),
                      sr_Source = NewSecretSource L (cl_Reader (cr_Client K)), sr_Vault = vault, sr_Clock = cr_RealClock K,
                      sr_Cloud = cloud, sr_AllowedVaults = allowedVaults,
                      sr_Pkcs12 = cr_Pkcs12 K, sr_Rand = cr_Rand K, sr_Metrics = cr_Metrics K \<rparr>)) (\<lambda>_.
      io_bind (crdInstalled (cr_Mapper K) (gateway_kind ''HTTPRoute'') ''v1'') (\<lambda>httpRoutes.
      io_bind (crdInstalled (cr_Mapper K) (gateway_kind ''Gateway'') ''v1'') (\<lambda>gateways.
      io_bind (io_wrap (\<lambda>err. Errorf ''setting up the wildcard policy controller: %w'' [AErr err])
                 (policy_SetupWithManager G (cr_Manager K)
                    \<lparr> pr_Client = cr_Client K, pr_Recorder = Some (cr_EventRecorder K ''wildcardcertificatepolicy''),
                      pr_Certificates = NewCertificateWriter (cr_Client K) (cr_Mapper K), pr_Clock = cr_RealClock K,
                      pr_HTTPRoutesAvailable = httpRoutes, pr_GatewaysAvailable = gateways,
                      pr_Cloud = cloud, pr_AllowedVaults = allowedVaults,
                      pr_Rand = cr_Rand K, pr_Metrics = cr_Metrics K \<rparr>
                    (watches_of httpRoutes gateways))) (\<lambda>_.
      io_bind (io_wrap (\<lambda>err. Errorf ''adding the health check: %w'' [AErr err]) (cr_AddHealthzCheck K ''healthz'')) (\<lambda>_.
      io_bind (io_wrap (\<lambda>err. Errorf ''adding the readiness check: %w'' [AErr err]) (cr_AddReadyzCheck K ''readyz'')) (\<lambda>_.
      io_wrap (\<lambda>err. Errorf ''running the manager: %w'' [AErr err]) (cr_Start K)))))))))))))"

section \<open>Lemmas\<close>

lemma split_loop_eq: "split_loop P items out = out @ filter (\<lambda>t. t \<noteq> []) (map (TrimSpace P) items)"
  by (induction P items out rule: split_loop.induct) (simp_all add: Let_def)

lemma allowed_loop_Inr:
  "allowed_loop P ip cloud entries allowed = Inr all \<longleftrightarrow>
     (\<exists>urls. res_map (\<lambda>entry. VaultURL P ip entry cloud) (filter (\<lambda>t. t \<noteq> []) (map (TrimSpace P) entries)) = Inr urls \<and>
        all = allowed @ urls)"
proof (induction P ip cloud entries allowed rule: allowed_loop.induct)
  case (2 P ip cloud entry entries allowed)
  then show ?case by (auto simp: Let_def res_bind_Inr_iff split: sum.split)
qed auto

text \<open>The entries of the flag: what is between the commas, trimmed, blanks left out.\<close>

definition vault_entries :: "platform \<Rightarrow> string \<Rightarrow> string list" where
  "vault_entries P value = filter (\<lambda>t. t \<noteq> []) (map (TrimSpace P) (SplitChar value (CHR '','')))"

lemma parseAllowedVaults_Inr:
  "parseAllowedVaults P ip value cloud = Inr allowed \<longleftrightarrow>
     res_map (\<lambda>entry. VaultURL P ip entry cloud) (vault_entries P value) = Inr allowed"
  by (simp add: parseAllowedVaults_def allowed_loop_Inr vault_entries_def)

section \<open>Property\<close>

text \<open>
  C37. The allowlist flag means what it says: if it parses, then each entry, a name or a URL, is a
  vault, and a URL is permitted exactly when nothing is listed or it is the vault of one of the
  entries, up to case and a trailing slash; in particular, the vaults of the entries themselves are permitted.
\<close>
theorem parseAllowedVaults_exact:
  assumes "parseAllowedVaults P ip value cloud = Inr allowed"
  shows "Permits P allowed url = (vault_entries P value = [] \<or>
      (\<exists>entry \<in> set (vault_entries P value). \<exists>u. VaultURL P ip entry cloud = Inr u \<and>
         normaliseVaultURL P u = normaliseVaultURL P url)) \<and>
    Enforced allowed = (vault_entries P value \<noteq> []) \<and>
    list_all (\<lambda>entry. \<exists>u. VaultURL P ip entry cloud = Inr u \<and> Permits P allowed u) (vault_entries P value)"
proof -
  have r: "res_map (\<lambda>entry. VaultURL P ip entry cloud) (vault_entries P value) = Inr allowed"
    using assms by (simp add: parseAllowedVaults_Inr)
  have "length allowed = length (vault_entries P value)"
    using r by (simp add: res_map_Inr_iff list_all2_lengthD)
  then have e: "Enforced allowed \<longleftrightarrow> vault_entries P value \<noteq> []" by (auto simp: Enforced_def)
  have p: "Permits P allowed u \<longleftrightarrow> vault_entries P value = [] \<or>
      (\<exists>v \<in> set allowed. normaliseVaultURL P v = normaliseVaultURL P u)" for u
    using e by (simp add: Permits_entry)
  have "(\<exists>v \<in> set allowed. normaliseVaultURL P v = normaliseVaultURL P url) \<longleftrightarrow>
      (\<exists>entry \<in> set (vault_entries P value). \<exists>u. VaultURL P ip entry cloud = Inr u \<and>
         normaliseVaultURL P u = normaliseVaultURL P url)" (is "?l \<longleftrightarrow> ?r")
  proof
    show "?l \<Longrightarrow> ?r" using res_map_set [OF r] by blast
    show "?r \<Longrightarrow> ?l" using res_map_set_conv [OF r] by fastforce
  qed
  moreover have "\<exists>u. VaultURL P ip entry cloud = Inr u \<and> Permits P allowed u"
    if "entry \<in> set (vault_entries P value)" for entry
    using res_map_set_conv [OF r that] p by blast
  then have "list_all (\<lambda>entry. \<exists>u. VaultURL P ip entry cloud = Inr u \<and> Permits P allowed u) (vault_entries P value)"
    by (simp add: list_all_iff)
  ultimately show ?thesis using e p [of url] by simp
qed

lemma parseAllowedVaults_exact_witness:
  "Permits sample_platform [''https://kv-one.vault.azure.net'', ''https://kv-two.vault.azure.net''] ''https://KV-two.vault.azure.net/''"
proof -
  have a: "parseAllowedVaults sample_platform (\<lambda>_. False) '' kv-one,, kv-two'' CloudPublic =
      Inr [''https://kv-one.vault.azure.net'', ''https://kv-two.vault.azure.net'']" by code_simp
  have v: "vault_entries sample_platform '' kv-one,, kv-two'' = [''kv-one'', ''kv-two'']"
    "VaultURL sample_platform (\<lambda>_. False) ''kv-two'' CloudPublic = Inr ''https://kv-two.vault.azure.net''"
    "normaliseVaultURL sample_platform ''https://kv-two.vault.azure.net'' =
       normaliseVaultURL sample_platform ''https://KV-two.vault.azure.net/''"
    by code_simp+
  show ?thesis unfolding parseAllowedVaults_exact [OF a, THEN conjunct1] using v by auto
qed

end
