(* ===== verification/HelmGen.thy ===== *)
theory HelmGen
  imports Platform GoIO
begin

text \<open>
  The generator of the Helm chart (\<open>hack/helmgen/main.go\<close>): it renders the RBAC rules and the
  CRDs of \<open>config/\<close> into templates, and checks that a rendered chart grants the operator its
  rules. Files and YAML are a parameter; the command line is that of \<open>CommandLine\<close>.
\<close>

section \<open>Text\<close>

definition newline :: string where "newline = [CHR 0x0A]"

definition text_lines :: "string list \<Rightarrow> string" where
  "text_lines ls = concat (map (\<lambda>l. l @ newline) ls)"

text \<open>\<open>strings.Count\<close>, for a substring that is not empty, and \<open>strings.Replace\<close> of the first occurrence.\<close>

lemma Cut_Some: "Cut s sep = Some (a, b) \<Longrightarrow> s = a @ sep @ b"
  using Index_Some_split by (auto simp: Cut_def)

function Count :: "string \<Rightarrow> string \<Rightarrow> nat" where
  "Count s sep = (if sep = [] then length s + 1 else case Cut s sep of None \<Rightarrow> 0 | Some (a, b) \<Rightarrow> Suc (Count b sep))"
  by pat_completeness auto
termination
  by (relation "measure (\<lambda>(s, sep). length s)") (auto dest!: Cut_Some)

declare Count.simps [simp del]

definition ReplaceFirst :: "string \<Rightarrow> string \<Rightarrow> string \<Rightarrow> string" where
  "ReplaceFirst s old new = (case Cut s old of None \<Rightarrow> s | Some (a, b) \<Rightarrow> a @ new @ b)"

section \<open>Sources\<close>

record helm_source =
  hs_template :: string
  hs_file :: string
  hs_kind :: string
  hs_name :: string
  hs_note :: string

definition sources :: "helm_source list" where
  "sources =
     [ \<lparr> hs_template = ''keyvault-certoperator.managerRules'', hs_file = ''config/rbac/role.yaml'',
         hs_kind = ''ClusterRole'', hs_name = ''manager-role'',
         hs_note = ''The operator's own permissions, from the +kubebuilder:rbac markers.'' \<rparr>,
       \<lparr> hs_template = ''keyvault-certoperator.metricsAuthRules'', hs_file = ''config/rbac/metrics_auth_role.yaml'',
         hs_kind = ''ClusterRole'', hs_name = ''metrics-auth-role'',
         hs_note = ''What the metrics endpoint needs to authenticate and authorize a scraper.'' \<rparr>,
       \<lparr> hs_template = ''keyvault-certoperator.leaderElectionRules'', hs_file = ''config/rbac/leader_election_role.yaml'',
         hs_kind = ''Role'', hs_name = ''leader-election-role'',
         hs_note = ''Namespaced, and only granted when leader election is turned on.'' \<rparr> ]"

definition helm_header :: string where
  \<open>helm_header = text_lines
     [''{{/*'',
      ''Generated by "make helm-rbac" from config/rbac. Do not edit.'',
      '''',
      ''Editing these rules here rather than at the +kubebuilder:rbac markers they come'',
      ''from is what let the chart fall behind the operator once already.'',
      ''*/}}'']\<close>

definition crdHeader :: string where
  \<open>crdHeader = text_lines
     [''{{/*'',
      ''Generated by "make helm-crds" from config/crd/bases. Do not edit.'',
      '''',
      ''These live in templates/ rather than crds/ on purpose. Helm installs a chart's'',
      ''crds/ directory exactly once and never updates it again -- there is no flag for'',
      ''it -- so an upgrade would ship a new operator against the old schema. Removing a'',
      ''CRD default, which this project has now done twice for correctness, would then'',
      ''never take effect on an upgraded install.'',
      ''*/}}'',
      ''{{- if .Values.crds.enabled }}'']\<close>

definition crdSources :: "string list" where
  "crdSources =
     [''config/crd/bases/certsync.vileend.io_keyvaultcertificatesyncs.yaml'',
      ''config/crd/bases/certsync.vileend.io_wildcardcertificatepolicies.yaml'']"

definition crdAnnotationAnchor :: string where
  "crdAnnotationAnchor = ''  annotations:'' @ newline"

definition keepAnnotation :: string where
  \<open>keepAnnotation = text_lines
     [''    {{- if .Values.crds.keep }}'',
      ''    "helm.sh/resource-policy": keep'',
      ''    {{- end }}'']\<close>

section \<open>Files and documents\<close>

text \<open>
  The rules of \<open>rbac/v1\<close>; a slice may be nil, which \<open>reflect.DeepEqual\<close> tells from an empty one.
\<close>

record policy_rule =
  ru_Verbs :: "string list option"
  ru_APIGroups :: "string list option"
  ru_Resources :: "string list option"
  ru_ResourceNames :: "string list option"
  ru_NonResourceURLs :: "string list option"

record helm_document =
  hd_Kind :: string
  hd_Name :: string
  hd_Rules :: "policy_rule list option"

text \<open>What the successive reads of a YAML reader return, up to \<open>io.EOF\<close>.\<close>

type_synonym yaml_reader = "string go_result list"

record 'w helm_lib =
  hl_Open :: "string \<Rightarrow> ('w, yaml_reader) io"
  hl_ReadFile :: "string \<Rightarrow> ('w, string) io"
  hl_WriteFile :: "string \<Rightarrow> string \<Rightarrow> ('w, unit) io"
  hl_Unmarshal :: "string \<Rightarrow> helm_document go_result"
  hl_Marshal :: "policy_rule list \<Rightarrow> string go_result"

text \<open>The loop over the documents, with the variables that the visitor assigns as a state.\<close>

fun document_loop ::
  "platform \<Rightarrow> (string \<Rightarrow> helm_document go_result) \<Rightarrow> string \<Rightarrow> (helm_document \<Rightarrow> 's \<Rightarrow> 's \<times> bool) \<Rightarrow>
     yaml_reader \<Rightarrow> 's \<Rightarrow> 's go_result" where
  "document_loop P unmarshal path visit [] s = Inr s"
| "document_loop P unmarshal path visit (Inl err # reads) s = Inl (Errorf ''reading %s: %w'' [AStr path, AErr err])"
| "document_loop P unmarshal path visit (Inr raw # reads) s =
     (if length (TrimSpace P raw) = 0 then document_loop P unmarshal path visit reads s
      else (case unmarshal raw of
              Inl err \<Rightarrow> Inl (Errorf ''decoding a document in %s: %w'' [AStr path, AErr err])
            | Inr doc \<Rightarrow>
                (case visit doc s of (s', stop) \<Rightarrow>
                   if stop then Inr s' else document_loop P unmarshal path visit reads s')))"

definition eachDocument ::
  "platform \<Rightarrow> 'w helm_lib \<Rightarrow> string \<Rightarrow> (helm_document \<Rightarrow> 's \<Rightarrow> 's \<times> bool) \<Rightarrow> 's \<Rightarrow> ('w, 's) io" where
  "eachDocument P L path visit s =
     io_bind (io_wrap (\<lambda>err. Errorf ''opening %s: %w'' [AStr path, AErr err]) (hl_Open L path)) (\<lambda>reader.
     io_lift (document_loop P (hl_Unmarshal L) path visit reader s))"

definition rulesFrom :: "platform \<Rightarrow> 'w helm_lib \<Rightarrow> helm_source \<Rightarrow> ('w, policy_rule list) io" where
  "rulesFrom P L src =
     io_bind (eachDocument P L (hs_file src)
                (\<lambda>doc found. if hd_Kind doc \<noteq> hs_kind src \<or> hd_Name doc \<noteq> hs_name src then (found, False)
                             else (hd_Rules doc, True)) None) (\<lambda>found.
     case found of
       None \<Rightarrow> io_fail (Errorf ''no %s named %q in %s'' [AStr (hs_kind src), AStr (hs_name src), AStr (hs_file src)])
     | Some rules \<Rightarrow>
         if length rules = 0
         then io_fail (Errorf ''%s %s in %s has no rules'' [AStr (hs_kind src), AStr (hs_name src), AStr (hs_file src)])
         else io_return rules)"

definition allRules :: "platform \<Rightarrow> 'w helm_lib \<Rightarrow> string \<Rightarrow> ('w, policy_rule list) io" where
  "allRules P L manifest =
     io_bind (eachDocument P L manifest
                (\<lambda>doc out. (if hd_Kind doc = ''ClusterRole'' \<or> hd_Kind doc = ''Role''
                            then out @ (case hd_Rules doc of None \<Rightarrow> [] | Some rules \<Rightarrow> rules) else out, False)) []) (\<lambda>out.
     if length out = 0 then io_fail (Errorf ''%s contains no Role or ClusterRole at all'' [AStr manifest])
     else io_return out)"

section \<open>Generation\<close>

fun generate_loop :: "platform \<Rightarrow> 'w helm_lib \<Rightarrow> helm_source list \<Rightarrow> string \<Rightarrow> ('w, string) io" where
  "generate_loop P L [] buf = io_return buf"
| "generate_loop P L (src # srcs) buf =
     io_bind (rulesFrom P L src) (\<lambda>rules.
     io_bind (io_wrap (\<lambda>err. Errorf ''encoding %s: %w'' [AStr (hs_template src), AErr err])
                (io_lift (hl_Marshal L rules))) (\<lambda>encoded.
     generate_loop P L srcs
       (buf @ newline @ ''{{/* '' @ hs_note src @ '' */}}'' @ newline @
        ''{{- define '' @ Quote P (hs_template src) @ '' -}}'' @ newline @
        TrimRight encoded newline @ newline @ ''{{- end }}'' @ newline)))"

definition write_output :: "'w helm_lib \<Rightarrow> string \<Rightarrow> string \<Rightarrow> ('w, unit) io" where
  "write_output L out buf =
     io_wrap (\<lambda>err. Errorf ''writing %s: %w'' [AStr out, AErr err]) (hl_WriteFile L out buf)"

definition generate :: "platform \<Rightarrow> 'w helm_lib \<Rightarrow> string \<Rightarrow> ('w, unit) io" where
  "generate P L out =
     (if out = [] then io_fail (EText ''-o is required'')
      else io_bind (generate_loop P L sources helm_header) (write_output L out))"

definition crd_text :: "platform \<Rightarrow> string \<Rightarrow> string \<Rightarrow> string go_result" where
  "crd_text P path body =
     (let text = TrimPrefix body (''---'' @ newline);
          n = Count text crdAnnotationAnchor in
      if n \<noteq> 1
      then Inl (Errorf (''%s has %d %q blocks, want exactly 1; the resource-policy annotation has nowhere '' @
                        ''unambiguous to go, so refusing to generate a chart that would delete CRDs on uninstall'')
             [AStr path, AInt (int n), AStr (TrimSpace P crdAnnotationAnchor)])
      else Inr (ReplaceFirst text crdAnnotationAnchor (crdAnnotationAnchor @ keepAnnotation)))"

fun crd_loop :: "platform \<Rightarrow> 'w helm_lib \<Rightarrow> string list \<Rightarrow> string \<Rightarrow> ('w, string) io" where
  "crd_loop P L [] buf = io_return buf"
| "crd_loop P L (path # paths) buf =
     io_bind (io_wrap (\<lambda>err. Errorf ''reading %s: %w'' [AStr path, AErr err]) (hl_ReadFile L path)) (\<lambda>body.
     io_bind (io_lift (crd_text P path body)) (\<lambda>text.
     crd_loop P L paths
       (buf @ ''---'' @ newline @ text @ (if \<not> HasSuffix text newline then newline else []))))"

definition generateCRDs :: "platform \<Rightarrow> 'w helm_lib \<Rightarrow> string \<Rightarrow> ('w, unit) io" where
  "generateCRDs P L out =
     (if out = [] then io_fail (EText ''-o is required'')
      else io_bind (crd_loop P L crdSources crdHeader) (\<lambda>buf.
           write_output L out (buf @ ''{{- end }}'' @ newline)))"

section \<open>The check of a rendered chart\<close>

fun check_loop :: "platform \<Rightarrow> 'w helm_lib \<Rightarrow> string \<Rightarrow> policy_rule list \<Rightarrow> helm_source list \<Rightarrow> ('w, unit) io" where
  "check_loop P L manifest rendered [] = io_return ()"
| "check_loop P L manifest rendered (src # srcs) =
     (if hs_template src \<noteq> ''keyvault-certoperator.managerRules'' then check_loop P L manifest rendered srcs
      else io_bind (rulesFrom P L src) (\<lambda>want.
        case find (\<lambda>rule. \<not> list_ex (\<lambda>got. got = rule) rendered) want of
          Some rule \<Rightarrow>
            io_fail (Errorf (''the rendered chart in %s does not grant this rule from %s:'' @ newline @ ''%s'' @
                             ''run 'make helm-rbac', and check that rbac.yaml still includes %q'')
              [AStr manifest, AStr (hs_file src),
               AStr (case hl_Marshal L [rule] of Inr encoded \<Rightarrow> encoded | Inl _ \<Rightarrow> []), AStr (hs_template src)])
        | None \<Rightarrow> check_loop P L manifest rendered srcs))"

definition helm_check :: "platform \<Rightarrow> 'w helm_lib \<Rightarrow> string \<Rightarrow> ('w, unit) io" where
  "helm_check P L manifest =
     io_bind (allRules P L manifest) (\<lambda>rendered. check_loop P L manifest rendered sources)"

text \<open>The dispatch of \<open>main\<close> on the flags \<open>-o\<close>, \<open>-crds\<close> and \<open>-verify\<close>.\<close>

definition helm_main :: "platform \<Rightarrow> 'w helm_lib \<Rightarrow> string \<Rightarrow> bool \<Rightarrow> string \<Rightarrow> ('w, unit) io" where
  "helm_main P L out crds verify =
     (if verify \<noteq> [] then helm_check P L verify
      else if crds then generateCRDs P L out
      else generate P L out)"

section \<open>Lemmas\<close>

lemma HasPrefix_append_left: "HasPrefix a p \<Longrightarrow> HasPrefix (a @ b) p"
  by (auto simp: HasPrefix_iff)

lemma Index_first: "Index s sep = Some i \<Longrightarrow> sep \<noteq> [] \<Longrightarrow> \<not> Contains (take i s) sep"
proof (induction s arbitrary: i)
  case Nil
  then show ?case by simp
next
  case (Cons c s)
  show ?case
  proof (cases "HasPrefix (c # s) sep")
    case True
    with Cons.prems show ?thesis by (simp add: Contains_def)
  next
    case False
    with Cons.prems obtain j where j: "i = Suc j" "Index s sep = Some j" by auto
    have "\<not> HasPrefix (c # take j s) sep"
      using False HasPrefix_append_left [of "c # take j s" sep "drop j s"] by auto
    with Cons.IH [OF j(2) Cons.prems(2)] j(1) show ?thesis by (simp add: Contains_def)
  qed
qed

lemma Cut_first: "Cut s sep = Some (a, b) \<Longrightarrow> sep \<noteq> [] \<Longrightarrow> \<not> Contains a sep"
  using Index_first by (auto simp: Cut_def)

lemma Count_zero: "sep \<noteq> [] \<Longrightarrow> Count s sep = 0 \<longleftrightarrow> \<not> Contains s sep"
  by (subst Count.simps) (auto simp: Cut_def Contains_def split: option.split)

lemma Count_one:
  assumes "sep \<noteq> []" and "Count s sep = 1"
  obtains a b where "Cut s sep = Some (a, b)" and "s = a @ sep @ b" and "\<not> Contains a sep" and "\<not> Contains b sep"
proof -
  obtain a b where c: "Cut s sep = Some (a, b)" "Count b sep = 0"
    using assms by (subst (asm) Count.simps) (auto split: option.splits)
  with that Cut_Some [OF c(1)] Cut_first [OF c(1) assms(1)] assms(1) show ?thesis by (simp add: Count_zero)
qed

text \<open>The one place where the annotation goes.\<close>

definition anchored :: "string \<Rightarrow> string \<times> string \<Rightarrow> bool" where
  "anchored body parts \<longleftrightarrow>
     (case parts of (pre, post) \<Rightarrow>
        TrimPrefix body (''---'' @ newline) = pre @ crdAnnotationAnchor @ post \<and>
        \<not> Contains pre crdAnnotationAnchor \<and> \<not> Contains post crdAnnotationAnchor)"

definition kept_crd :: "string \<times> string \<Rightarrow> string" where
  "kept_crd parts = (case parts of (pre, post) \<Rightarrow> pre @ crdAnnotationAnchor @ keepAnnotation @ post)"

definition crd_document :: "string \<Rightarrow> string" where
  "crd_document text = ''---'' @ newline @ text @ (if \<not> HasSuffix text newline then newline else [])"

text \<open>A file that cannot be read, or does not have exactly one place for it.\<close>

definition unusable :: "'w helm_lib \<Rightarrow> string \<Rightarrow> 'w \<Rightarrow> bool" where
  "unusable L path w \<longleftrightarrow>
     (\<forall>body. fst (hl_ReadFile L path w) = Inr body \<longrightarrow>
        Count (TrimPrefix body (''---'' @ newline)) crdAnnotationAnchor \<noteq> 1)"

lemma crd_text_Inr:
  assumes "crd_text P path body = Inr text"
  obtains parts where "anchored body parts" and "text = kept_crd parts"
proof -
  let ?text = "TrimPrefix body (''---'' @ newline)"
  have n: "crdAnnotationAnchor \<noteq> []" by (simp add: crdAnnotationAnchor_def)
  have c: "Count ?text crdAnnotationAnchor = 1" and t: "text = ReplaceFirst ?text crdAnnotationAnchor (crdAnnotationAnchor @ keepAnnotation)"
    using assms by (auto simp: crd_text_def Let_def split: if_splits)
  from Count_one [OF n c] obtain pre post where
    p: "Cut ?text crdAnnotationAnchor = Some (pre, post)" "?text = pre @ crdAnnotationAnchor @ post"
      "\<not> Contains pre crdAnnotationAnchor" "\<not> Contains post crdAnnotationAnchor" .
  have "anchored body (pre, post)" unfolding anchored_def prod.case using p(2-4) by (intro conjI)
  moreover have "text = kept_crd (pre, post)" unfolding t ReplaceFirst_def p(1) kept_crd_def by simp
  ultimately show ?thesis by (rule that)
qed

lemma crd_loop_run:
  assumes "\<And>path w. snd (hl_ReadFile L path w) = w"
  shows "crd_loop P L paths buf w = (r, w') \<Longrightarrow> w' = w \<and>
     (\<forall>out. r = Inr out \<longrightarrow> (\<exists>parts. out = buf @ concat (map (\<lambda>p. crd_document (kept_crd p)) parts) \<and>
        list_all2 (\<lambda>path p. \<exists>body. hl_ReadFile L path w = (Inr body, w) \<and> anchored body p) paths parts)) \<and>
     (\<forall>err. r = Inl err \<longrightarrow> (\<exists>path \<in> set paths. unusable L path w))"
proof (induction paths arbitrary: buf r)
  case Nil
  then show ?case by (auto simp: io_simps)
next
  case (Cons path paths)
  obtain d where d: "hl_ReadFile L path w = (d, w)" using assms by (metis prod.collapse)
  show ?case
  proof (cases d)
    case (Inl e)
    with d have "unusable L path w" by (simp add: unusable_def)
    with Inl Cons.prems d show ?thesis by (auto simp: io_simps)
  next
    case (Inr body)
    show ?thesis
    proof (cases "crd_text P path body")
      case (Inl e)
      with Inr d have "unusable L path w"
        by (simp add: unusable_def crd_text_def Let_def split: if_splits)
      with Inl Inr Cons.prems d show ?thesis by (auto simp: io_simps)
    next
      case t: (Inr crd)
      from crd_text_Inr [OF t] obtain p where p: "anchored body p" "crd = kept_crd p" .
      have run: "crd_loop P L paths (buf @ crd_document crd) w = (r, w')"
        using Cons.prems d t Inr by (simp add: io_simps crd_document_def)
      have "\<exists>parts. out = buf @ concat (map (\<lambda>p. crd_document (kept_crd p)) parts) \<and>
          list_all2 (\<lambda>path p. \<exists>body. hl_ReadFile L path w = (Inr body, w) \<and> anchored body p) (path # paths) parts"
        if "r = Inr out" for out
      proof -
        from Cons.IH [OF run] that obtain parts where
          parts: "out = (buf @ crd_document crd) @ concat (map (\<lambda>p. crd_document (kept_crd p)) parts)"
          "list_all2 (\<lambda>path p. \<exists>body. hl_ReadFile L path w = (Inr body, w) \<and> anchored body p) paths parts"
          by auto
        have "hl_ReadFile L path w = (Inr body, w)" using d Inr by simp
        with p(1) parts(2) have "list_all2 (\<lambda>path p. \<exists>body. hl_ReadFile L path w = (Inr body, w) \<and> anchored body p)
            (path # paths) (p # parts)" by auto
        then show ?thesis by (intro exI [of _ "p # parts"] conjI) (simp_all add: parts(1) p(2))
      qed
      with Cons.IH [OF run] show ?thesis unfolding list.set by blast
    qed
  qed
qed

section \<open>The template of the CRDs\<close>

text \<open>
  Generating the CRDs either writes, in one write, the header and every CRD with the
  resource-policy annotation at the only place there is for it and otherwise verbatim, in the
  fixed order; or, if no file is named or a source is unusable, it fails and writes nothing.
\<close>
theorem generateCRDs_keeps:
  assumes "\<And>path w. snd (hl_ReadFile L path w) = w" and "generateCRDs P L out w = (r, w')"
  shows "out \<noteq> [] \<and> (\<exists>parts.
       list_all2 (\<lambda>path p. \<exists>body. hl_ReadFile L path w = (Inr body, w) \<and> anchored body p) crdSources parts \<and>
       write_output L out (crdHeader @ concat (map (\<lambda>p. crd_document (kept_crd p)) parts) @ ''{{- end }}'' @ newline) w = (r, w')) \<or>
     (out = [] \<or> (\<exists>path \<in> set crdSources. unusable L path w)) \<and> w' = w \<and> (\<exists>err. r = Inl err)"
proof (cases "out = []")
  case True
  with assms(2) show ?thesis by (auto simp: generateCRDs_def io_simps)
next
  case False
  obtain buf where l: "crd_loop P L crdSources crdHeader w = (buf, w)"
    using crd_loop_run [OF assms(1), of P crdSources crdHeader w] by (metis prod.collapse)
  show ?thesis
  proof (cases buf)
    case (Inl err)
    with assms(2) False l have "r = Inl err" "w' = w" by (simp_all add: generateCRDs_def io_simps)
    moreover have "\<exists>path \<in> set crdSources. unusable L path w"
      using crd_loop_run [OF assms(1) l] Inl by blast
    ultimately show ?thesis by blast
  next
    case (Inr b)
    with assms(2) False l have "write_output L out (b @ ''{{- end }}'' @ newline) w = (r, w')"
      by (simp add: generateCRDs_def io_simps)
    with crd_loop_run [OF assms(1) l] Inr False show ?thesis by auto
  qed
qed

section \<open>What the check accepts\<close>

text \<open>The documents up to the first that cannot be read or decoded, and whether these are all.\<close>

fun decoded :: "platform \<Rightarrow> (string \<Rightarrow> helm_document go_result) \<Rightarrow> yaml_reader \<Rightarrow> helm_document list \<times> bool" where
  "decoded P unmarshal [] = ([], True)"
| "decoded P unmarshal (Inl err # reads) = ([], False)"
| "decoded P unmarshal (Inr raw # reads) =
     (if TrimSpace P raw = [] then decoded P unmarshal reads
      else (case unmarshal raw of
              Inl err \<Rightarrow> ([], False)
            | Inr doc \<Rightarrow> (case decoded P unmarshal reads of (docs, complete) \<Rightarrow> (doc # docs, complete))))"

lemma document_loop_all:
  "document_loop P u path (\<lambda>d s. (f d s, False)) reads s = Inr t \<longleftrightarrow>
     snd (decoded P u reads) \<and> t = fold f (fst (decoded P u reads)) s"
  by (induction P u path "\<lambda>d s. (f d s, False)" reads s rule: document_loop.induct)
    (auto split: sum.splits prod.splits)

lemma document_loop_find:
  "document_loop P u path (\<lambda>d s. if \<not> sel d then (s, False) else (g d, True)) reads s = Inr t \<longleftrightarrow>
     (case find sel (fst (decoded P u reads)) of Some d \<Rightarrow> t = g d | None \<Rightarrow> snd (decoded P u reads) \<and> t = s)"
  by (induction P u path "\<lambda>d s. if \<not> sel d then (s, False) else (g d, True)" reads s rule: document_loop.induct)
    (auto split: sum.splits prod.splits option.splits)

definition role_rules :: "platform \<Rightarrow> 'w helm_lib \<Rightarrow> (string \<Rightarrow> yaml_reader go_result) \<Rightarrow> helm_source \<Rightarrow> policy_rule list option" where
  "role_rules P L read src =
     (case read (hs_file src) of
        Inl _ \<Rightarrow> None
      | Inr reads \<Rightarrow>
          (case find (\<lambda>d. hd_Kind d = hs_kind src \<and> hd_Name d = hs_name src) (fst (decoded P (hl_Unmarshal L) reads)) of
             None \<Rightarrow> None
           | Some d \<Rightarrow> if hd_Rules d = Some [] then None else hd_Rules d))"

definition rendered_rules :: "platform \<Rightarrow> 'w helm_lib \<Rightarrow> (string \<Rightarrow> yaml_reader go_result) \<Rightarrow> string \<Rightarrow> policy_rule list option" where
  "rendered_rules P L read manifest =
     (case read manifest of
        Inl _ \<Rightarrow> None
      | Inr reads \<Rightarrow>
          (case decoded P (hl_Unmarshal L) reads of (docs, complete) \<Rightarrow>
             let rules = concat (map (\<lambda>d. case hd_Rules d of None \<Rightarrow> [] | Some rules \<Rightarrow> rules)
                   (filter (\<lambda>d. hd_Kind d = ''ClusterRole'' \<or> hd_Kind d = ''Role'') docs)) in
             if complete \<and> rules \<noteq> [] then Some rules else None))"

text \<open>The rules that the walk over the documents finds, and what becomes of them.\<close>

definition wanted_rules :: "platform \<Rightarrow> 'w helm_lib \<Rightarrow> helm_source \<Rightarrow> yaml_reader \<Rightarrow> policy_rule list option go_result" where
  "wanted_rules P L src reads = document_loop P (hl_Unmarshal L) (hs_file src)
     (\<lambda>d s. if \<not> (hd_Kind d = hs_kind src \<and> hd_Name d = hs_name src) then (s, False) else (hd_Rules d, True)) reads None"

lemma rulesFrom_run:
  assumes "\<And>path w. hl_Open L path w = (read path, w)"
  shows "rulesFrom P L src w = (Inr rules, w') \<longleftrightarrow>
     w' = w \<and> rules \<noteq> [] \<and> (\<exists>reads. read (hs_file src) = Inr reads \<and> wanted_rules P L src reads = Inr (Some rules))"
proof -
  have "(\<lambda>doc found. if hd_Kind doc \<noteq> hs_kind src \<or> hd_Name doc \<noteq> hs_name src then (found, False) else (hd_Rules doc, True)) =
      (\<lambda>d s. if \<not> (hd_Kind d = hs_kind src \<and> hd_Name d = hs_name src) then (s, False) else (hd_Rules d, True))"
    by (intro ext) simp
  then show ?thesis
    by (auto simp: rulesFrom_def eachDocument_def wanted_rules_def assms io_simps split: sum.splits option.splits if_splits)
qed

lemma rulesFrom_Inr:
  assumes "\<And>path w. hl_Open L path w = (read path, w)"
  shows "rulesFrom P L src w = (Inr rules, w') \<longleftrightarrow> w' = w \<and> role_rules P L read src = Some rules"
proof (cases "read (hs_file src)")
  case (Inl e)
  then show ?thesis by (simp add: rulesFrom_run [OF assms] role_rules_def)
next
  case (Inr reads)
  define F where "F = find (\<lambda>d. hd_Kind d = hs_kind src \<and> hd_Name d = hs_name src) (fst (decoded P (hl_Unmarshal L) reads))"
  have "wanted_rules P L src reads = Inr (Some rules) \<longleftrightarrow> (\<exists>d. F = Some d \<and> hd_Rules d = Some rules)"
    unfolding wanted_rules_def F_def document_loop_find by (auto split: option.split)
  moreover have "role_rules P L read src = Some rules \<longleftrightarrow> rules \<noteq> [] \<and> (\<exists>d. F = Some d \<and> hd_Rules d = Some rules)"
    using Inr by (auto simp: role_rules_def F_def split: option.split)
  ultimately show ?thesis using Inr by (auto simp: rulesFrom_run [OF assms])
qed

lemma allRules_Inr:
  assumes "\<And>path w. hl_Open L path w = (read path, w)"
  shows "allRules P L manifest w = (Inr rules, w') \<longleftrightarrow> w' = w \<and> rendered_rules P L read manifest = Some rules"
proof (cases "read manifest")
  case (Inl e)
  then show ?thesis by (simp add: allRules_def eachDocument_def assms io_simps rendered_rules_def)
next
  case (Inr reads)
  let ?role = "\<lambda>d. hd_Kind d = ''ClusterRole'' \<or> hd_Kind d = ''Role''"
  let ?rules = "\<lambda>d. case hd_Rules d of None \<Rightarrow> [] | Some rules \<Rightarrow> rules"
  let ?f = "\<lambda>d out. if ?role d then out @ ?rules d else out"
  have f: "fold ?f docs out = out @ concat (map ?rules (filter ?role docs))" for docs out
    by (induction docs arbitrary: out) simp_all
  define D where "D = document_loop P (hl_Unmarshal L) manifest (\<lambda>d out. (?f d out, False)) reads []"
  obtain docs complete where d: "decoded P (hl_Unmarshal L) reads = (docs, complete)" by fastforce
  have t: "D = Inr t \<longleftrightarrow> complete \<and> t = concat (map ?rules (filter ?role docs))" for t
    unfolding D_def document_loop_all d by (simp add: f)
  have run: "allRules P L manifest w = (case D of Inl e \<Rightarrow> (Inl e, w) | Inr out \<Rightarrow>
      if out = [] then io_fail (Errorf ''%s contains no Role or ClusterRole at all'' [AStr manifest]) w else (Inr out, w))"
    unfolding D_def by (simp add: allRules_def eachDocument_def assms Inr io_simps split: sum.split)
  have r: "rendered_rules P L read manifest =
      (let rules = concat (map ?rules (filter ?role docs)) in if complete \<and> rules \<noteq> [] then Some rules else None)"
    using Inr d by (simp add: rendered_rules_def)
  show ?thesis
  proof (cases D)
    case (Inl e)
    with t have "\<not> complete" by auto
    with Inl show ?thesis unfolding run r by simp
  next
    case (Inr out)
    with t have "complete" "out = concat (map ?rules (filter ?role docs))" by auto
    with Inr show ?thesis unfolding run r by (auto simp: io_fail_def Let_def)
  qed
qed

text \<open>
  C40. The check accepts a rendered chart exactly when all of it can be read, and every rule of the
  manager role of \<open>config/rbac/role.yaml\<close>, of which there is at least one, is a rule of some
  Role or ClusterRole in it. The check only reads.
\<close>
theorem helm_check_exact:
  assumes "\<And>path w. hl_Open L path w = (read path, w)"
  shows "helm_check P L manifest w = (Inr (), w') \<longleftrightarrow> w' = w \<and>
    (\<exists>rendered want. rendered_rules P L read manifest = Some rendered \<and>
       role_rules P L read (hd sources) = Some want \<and> set want \<subseteq> set rendered)"
proof -
  have loop: "check_loop P L manifest rendered sources w1 = (Inr (), w') \<longleftrightarrow>
      w' = w1 \<and> (\<exists>want. role_rules P L read (hd sources) = Some want \<and> set want \<subseteq> set rendered)" for rendered w1
  proof -
    have "check_loop P L manifest rendered sources w1 =
        check_loop P L manifest rendered [hd sources] w1"
      by (simp add: sources_def io_simps split: prod.split sum.split option.split)
    also have "\<dots> = (Inr (), w') \<longleftrightarrow> (\<exists>want w2. rulesFrom P L (hd sources) w1 = (Inr want, w2) \<and>
        set want \<subseteq> set rendered \<and> w' = w2)"
      by (auto simp: sources_def io_Inr_iffs io_fail_def find_None_iff list_ex_iff subset_iff split: option.splits)
    finally show ?thesis by (auto simp: rulesFrom_Inr [OF assms])
  qed
  show ?thesis
    unfolding helm_check_def io_bind_Inr_iff loop allRules_Inr [OF assms] by blast
qed

text \<open>The rules are likewise written at once, after all of them have been read and encoded, or not at all.\<close>

lemma generate_loop_keeps:
  assumes "\<And>path w. hl_Open L path w = (read path, w)"
  shows "snd (generate_loop P L srcs buf w) = w"
proof (induction srcs arbitrary: buf)
  case Nil
  then show ?case by (simp add: io_simps)
next
  case (Cons src srcs)
  have "snd (rulesFrom P L src w) = w"
    by (simp add: rulesFrom_def eachDocument_def assms io_simps split: sum.split option.split)
  then obtain r where "rulesFrom P L src w = (r, w)" by (metis prod.collapse)
  with Cons.IH show ?case by (auto simp: io_simps split: sum.split)
qed

lemma generate_atomic:
  assumes "\<And>path w. hl_Open L path w = (read path, w)" and "generate P L out w = (r, w')"
  shows "(\<exists>buf. write_output L out buf w = (r, w')) \<or> w' = w \<and> (\<exists>err. r = Inl err)"
proof (cases "out = []")
  case True
  with assms(2) show ?thesis by (auto simp: generate_def io_simps)
next
  case False
  obtain buf where "generate_loop P L sources helm_header w = (buf, w)"
    using generate_loop_keeps [OF assms(1)] by (metis prod.collapse)
  with assms(2) False show ?thesis by (cases buf) (auto simp: generate_def io_simps)
qed

section \<open>Examples\<close>

definition toy_rule :: policy_rule where
  "toy_rule = \<lparr> ru_Verbs = Some [''get'', ''list''], ru_APIGroups = Some [''''], ru_Resources = Some [''secrets''],
     ru_ResourceNames = None, ru_NonResourceURLs = None \<rparr>"

definition toy_read :: "string \<Rightarrow> yaml_reader go_result" where
  "toy_read path =
     (if path = ''config/rbac/role.yaml'' then Inr [Inr ''role'']
      else if path = ''chart.yaml'' then Inr [Inr newline, Inr ''service'', Inr ''role'']
      else Inl (EText ''no such file''))"

definition toy_helm :: "(string \<times> string) list helm_lib" where
  "toy_helm =
     \<lparr> hl_Open = (\<lambda>path w. (toy_read path, w)),
       hl_ReadFile = (\<lambda>path w. (Inr (text_lines [''---'', ''metadata:'', ''  annotations:'', ''    version: 1'']), w)),
       hl_WriteFile = (\<lambda>path content w. (Inr (), (path, content) # w)),
       hl_Unmarshal = (\<lambda>raw. Inr (if raw = ''role''
         then \<lparr>hd_Kind = ''ClusterRole'', hd_Name = ''manager-role'', hd_Rules = Some [toy_rule]\<rparr>
         else \<lparr>hd_Kind = ''Service'', hd_Name = ''metrics'', hd_Rules = None\<rparr>)),
       hl_Marshal = (\<lambda>rules. Inr ''rules'') \<rparr>"

lemma generateCRDs_keeps_witness:
  "\<exists>content. generateCRDs sample_platform toy_helm ''crds.yaml'' [] = (Inr (), [(''crds.yaml'', content)])"
proof -
  obtain r w' where g: "generateCRDs sample_platform toy_helm ''crds.yaml'' [] = (r, w')" by fastforce
  have ro: "snd (hl_ReadFile toy_helm path w) = w" for path w by (simp add: toy_helm_def)
  have "Count (TrimPrefix (text_lines [''---'', ''metadata:'', ''  annotations:'', ''    version: 1'']) (''---'' @ newline))
      crdAnnotationAnchor = 1"
    by code_simp
  then have "\<not> unusable toy_helm path []" for path by (simp add: unusable_def toy_helm_def)
  with generateCRDs_keeps [OF ro g] obtain content where "write_output toy_helm ''crds.yaml'' content [] = (r, w')" by blast
  with g show ?thesis by (auto simp: write_output_def toy_helm_def io_simps)
qed

lemma helm_check_exact_witness:
  "helm_check sample_platform toy_helm ''chart.yaml'' [] = (Inr (), [])"
proof -
  have o: "hl_Open toy_helm path w = (toy_read path, w)" for path w by (simp add: toy_helm_def)
  have "rendered_rules sample_platform toy_helm toy_read ''chart.yaml'' = Some [toy_rule]"
    "role_rules sample_platform toy_helm toy_read (hd sources) = Some [toy_rule]"
    by code_simp+
  with helm_check_exact [where L = toy_helm and read = toy_read, OF o] show ?thesis by fastforce
qed

end
