(* ===== verification/CommandLine.thy ===== *)
theory CommandLine
  imports GoFlag Manager HelmGen SyncCtlProps
begin

text \<open>
  The commands as processes: the flags of \<open>cmd/manager/main.go\<close> and \<open>hack/helmgen/main.go\<close>, the scheme
  that is filled before (\<open>api/v1alpha1/groupversion_info.go\<close> and the \<open>init\<close> functions), and the exit
  codes. The flags of zap and of controller-runtime, which the operator binds too, are a parameter,
  as are the schemes of other packages. A panic ends a process with the code 2.
\<close>

section \<open>The scheme\<close>

record group_version =
  gv_Group :: string
  gv_Version :: string

text \<open>A scheme maps a group and version to the kinds that are known in it.\<close>

type_synonym scheme = "(group_version \<times> string) list"

type_synonym scheme_builder = "(scheme \<Rightarrow> scheme go_result) list"

definition SchemeGroupVersion :: group_version where
  "SchemeGroupVersion = \<lparr>gv_Group = ''certsync.vileend.io'', gv_Version = ''v1alpha1''\<rparr>"

text \<open>\<open>metav1.AddToGroupVersion\<close>, by the options that it registers.\<close>

definition AddToGroupVersion :: "group_version \<Rightarrow> scheme \<Rightarrow> scheme" where
  "AddToGroupVersion gv s = s @ map (Pair gv) [''WatchEvent'', ''ListOptions'', ''GetOptions'', ''DeleteOptions'',
     ''CreateOptions'', ''UpdateOptions'', ''PatchOptions'']"

definition AddKnownTypes :: "group_version \<Rightarrow> string list \<Rightarrow> scheme \<Rightarrow> scheme" where
  "AddKnownTypes gv kinds s = s @ map (Pair gv) kinds"

definition first_builder :: scheme_builder where
  "first_builder = [\<lambda>s. Inr (AddToGroupVersion SchemeGroupVersion s)]"

text \<open>\<open>SchemeBuilder.Register\<close> in the \<open>init\<close> functions of the types, in the order of their files.\<close>

definition register_sync :: "scheme_builder \<Rightarrow> scheme_builder" where
  "register_sync b = b @
     [\<lambda>s. Inr (AddKnownTypes SchemeGroupVersion [''KeyVaultCertificateSync'', ''KeyVaultCertificateSyncList''] s)]"

definition register_policy :: "scheme_builder \<Rightarrow> scheme_builder" where
  "register_policy b = b @
     [\<lambda>s. Inr (AddKnownTypes SchemeGroupVersion [''WildcardCertificatePolicy'', ''WildcardCertificatePolicyList''] s)]"

definition SchemeBuilder :: scheme_builder where
  "SchemeBuilder = register_policy (register_sync first_builder)"

fun AddToScheme :: "scheme_builder \<Rightarrow> scheme \<Rightarrow> scheme go_result" where
  "AddToScheme [] s = Inr s"
| "AddToScheme (f # b) s = (case f s of Inl err \<Rightarrow> Inl err | Inr s' \<Rightarrow> AddToScheme b s')"

text \<open>\<open>Resource\<close>: the group of the API with the name of a resource.\<close>

definition Resource :: "string \<Rightarrow> string \<times> string" where
  "Resource resource = (gv_Group SchemeGroupVersion, resource)"

text \<open>\<open>utilRuntimeMust\<close> panics on an error; \<open>init\<close> fills the scheme of the manager.\<close>

record other_schemes =
  os_clientgo :: "scheme \<Rightarrow> scheme go_result"
  os_certmanager :: "scheme \<Rightarrow> scheme go_result"
  os_gateway :: "scheme \<Rightarrow> scheme go_result"

definition scheme_init :: "other_schemes \<Rightarrow> scheme go_result" where
  "scheme_init X =
     res_bind (os_clientgo X []) (\<lambda>s.
     res_bind (AddToScheme SchemeBuilder s) (\<lambda>s.
     res_bind (os_certmanager X s) (\<lambda>s.
     os_gateway X s)))"

section \<open>The flags of the operator\<close>

definition default_options :: options where
  "default_options =
     \<lparr> op_metricsAddr = ''0'', op_probeAddr = '':8081'', op_secureMetrics = True, op_enableHTTP2 = False,
       op_leaderElection = False, op_watchNamespaces = [], op_credentialMode = CredentialWorkloadIdentity,
       op_allowedVaults = [], op_azureCloud = CloudPublic \<rparr>"

definition manager_flags :: "options flag list" where
  "manager_flags =
     [StringVar ''metrics-bind-address'' (\<lambda>v o'. o'\<lparr>op_metricsAddr := v\<rparr>),
      StringVar ''health-probe-bind-address'' (\<lambda>v o'. o'\<lparr>op_probeAddr := v\<rparr>),
      BoolVar ''metrics-secure'' (\<lambda>v o'. o'\<lparr>op_secureMetrics := v\<rparr>),
      BoolVar ''enable-http2'' (\<lambda>v o'. o'\<lparr>op_enableHTTP2 := v\<rparr>),
      BoolVar ''leader-elect'' (\<lambda>v o'. o'\<lparr>op_leaderElection := v\<rparr>),
      StringVar ''watch-namespaces'' (\<lambda>v o'. o'\<lparr>op_watchNamespaces := v\<rparr>),
      StringVar ''allowed-vaults'' (\<lambda>v o'. o'\<lparr>op_allowedVaults := v\<rparr>),
      StringVar ''azure-cloud'' (\<lambda>v o'. o'\<lparr>op_azureCloud := v\<rparr>),
      StringVar ''azure-credential'' (\<lambda>v o'. o'\<lparr>op_credentialMode := v\<rparr>)]"

definition command_line :: "'z flag list \<Rightarrow> (options \<times> 'z) flag list" where
  "command_line others = map on_fst manager_flags @ map on_snd others"

section \<open>The process of the operator\<close>

text \<open>\<open>flag.Parse\<close> exits with 0 after a request for help, and with 2 after an error.\<close>

definition parse_exit :: "go_error \<Rightarrow> nat" where
  "parse_exit err = (if err = ErrHelp then 0 else 2)"

definition operator_main ::
  "library \<Rightarrow> x509_lib \<Rightarrow> ('a, ('c, 'w) repo_world) azidentity \<Rightarrow> ('a, 'c, 'w) controller_runtime \<Rightarrow> other_schemes \<Rightarrow>
     'z flag list \<Rightarrow> 'z \<Rightarrow> string list \<Rightarrow> (('c, 'w) repo_world, nat) io" where
  "operator_main G L A K X others z args =
     (case scheme_init X of
        Inl err \<Rightarrow> io_return 2
      | Inr s \<Rightarrow>
          (case parse_flags (command_line others) args (default_options, z) of
             Inl err \<Rightarrow> io_return (parse_exit err)
           | Inr ((opts, _), _) \<Rightarrow> io_case (run_operator G L A K opts) (\<lambda>err. io_return 1) (\<lambda>_. io_return 0)))"

section \<open>The process of the generator\<close>

record helm_flags =
  hf_out :: string
  hf_crds :: bool
  hf_verify :: string

definition helmgen_flags :: "helm_flags flag list" where
  "helmgen_flags =
     [StringVar ''o'' (\<lambda>v f. f\<lparr>hf_out := v\<rparr>), BoolVar ''crds'' (\<lambda>v f. f\<lparr>hf_crds := v\<rparr>),
      StringVar ''verify'' (\<lambda>v f. f\<lparr>hf_verify := v\<rparr>)]"

definition helmgen_main :: "platform \<Rightarrow> 'w helm_lib \<Rightarrow> string list \<Rightarrow> ('w, nat) io" where
  "helmgen_main P L args =
     (case parse_flags helmgen_flags args \<lparr>hf_out = [], hf_crds = False, hf_verify = []\<rparr> of
        Inl err \<Rightarrow> io_return (parse_exit err)
      | Inr (f, _) \<Rightarrow>
          io_case (helm_main P L (hf_out f) (hf_crds f) (hf_verify f)) (\<lambda>err. io_return 1) (\<lambda>_. io_return 0))"

section \<open>Lemmas\<close>

lemma scheme_init_kinds:
  assumes "scheme_init X = Inr s"
    and "\<And>s s'. os_certmanager X s = Inr s' \<Longrightarrow> set s \<subseteq> set s'" and "\<And>s s'. os_gateway X s = Inr s' \<Longrightarrow> set s \<subseteq> set s'"
  shows "Pair SchemeGroupVersion ` {''KeyVaultCertificateSync'', ''KeyVaultCertificateSyncList'',
    ''WildcardCertificatePolicy'', ''WildcardCertificatePolicyList''} \<subseteq> set s"
proof -
  obtain s0 s1 s2 where "AddToScheme SchemeBuilder s0 = Inr s1" "os_certmanager X s1 = Inr s2" "os_gateway X s2 = Inr s"
    using assms(1) by (auto simp: scheme_init_def res_bind_Inr_iff)
  moreover have "set s1 \<supseteq> Pair SchemeGroupVersion ` {''KeyVaultCertificateSync'', ''KeyVaultCertificateSyncList'',
    ''WildcardCertificatePolicy'', ''WildcardCertificatePolicyList''}"
  proof -
    have "s1 = AddToGroupVersion SchemeGroupVersion s0 @ map (Pair SchemeGroupVersion) [''KeyVaultCertificateSync'',
        ''KeyVaultCertificateSyncList'', ''WildcardCertificatePolicy'', ''WildcardCertificatePolicyList'']"
      using calculation(1)
      by (simp add: SchemeBuilder_def register_policy_def register_sync_def first_builder_def AddKnownTypes_def)
    then show ?thesis by simp
  qed
  ultimately show ?thesis using assms(2,3) by (meson subset_trans)
qed

text \<open>The arguments that say every option.\<close>

definition args_of :: "options \<Rightarrow> string list" where
  "args_of o' =
     [flag_arg ''metrics-bind-address'' (op_metricsAddr o'), flag_arg ''health-probe-bind-address'' (op_probeAddr o'),
      flag_arg ''metrics-secure'' (bool_text (op_secureMetrics o')), flag_arg ''enable-http2'' (bool_text (op_enableHTTP2 o')),
      flag_arg ''leader-elect'' (bool_text (op_leaderElection o')), flag_arg ''watch-namespaces'' (op_watchNamespaces o'),
      flag_arg ''allowed-vaults'' (op_allowedVaults o'), flag_arg ''azure-cloud'' (op_azureCloud o'),
      flag_arg ''azure-credential'' (op_credentialMode o')]"

lemma parse_command_line_arg:
  assumes "name \<noteq> []" and "hd name \<noteq> CHR ''-''" and "CHR ''='' \<notin> set name"
    and "lookup_flag manager_flags name = Some f" and "fg_Set f v (fst s) = Inr x"
  shows "parse_flags (command_line others) (flag_arg name v # args) s = parse_flags (command_line others) args (x, snd s)"
proof (rule parse_flag_arg [OF assms(1-3)])
  have "find (\<lambda>f. fg_Name f = name) (map on_fst fs @ ys) = Some (on_fst f)"
    if "find (\<lambda>f. fg_Name f = name) fs = Some f" for fs and ys :: "(options \<times> 'a) flag list"
    using that by (induction fs) (auto simp: on_fst_def)
  then show "lookup_flag (command_line others) name = Some (on_fst f)"
    using assms(4) by (simp add: lookup_flag_def command_line_def)
  show "fg_Set (on_fst f) v s = Inr (x, snd s)" using assms(5) by (simp add: on_fst_def)
qed

text \<open>
  C39. The command line can say every configuration: given the arguments that set each option,
  whatever has been set before, and in particular with the defaults, exactly these options are in
  force, and the arguments that follow are parsed as if they stood alone.
\<close>
theorem command_line_roundtrip:
  "parse_flags (command_line others) (args_of opts @ args) (before, z) = parse_flags (command_line others) args (opts, z)"
proof -
  note step = parse_command_line_arg [where others = others]
  show ?thesis unfolding args_of_def append.simps
    by (subst step, simp, simp, simp, simp add: manager_flags_def lookup_flag_def StringVar_def BoolVar_def,
      simp add: StringVar_def BoolVar_def)+ (cases before, cases opts, simp)
qed

text \<open>
  C38. A misconfigured operator does not start: when the cloud, the credential mode or an entry of the
  allowlist given on the command line is not valid, the process exits with a failure, and what it
  did does not depend on how controllers are registered or the manager is started; neither is called.
\<close>
theorem operator_main_misconfigured:
  assumes "scheme_init X = Inr s" and "parse_flags (command_line others) args (default_options, z) = Inr ((opts, z'), rest)"
    and "isl (ParseCloud (lb_Platform G) (op_azureCloud opts)) \<or>
      op_credentialMode opts \<notin> {[], CredentialWorkloadIdentity, CredentialDefault} \<or>
      (\<exists>cloud. ParseCloud (lb_Platform G) (op_azureCloud opts) = Inr cloud \<and>
        isl (parseAllowedVaults (lb_Platform G) (lb_ParseAddr G) (op_allowedVaults opts) cloud))"
  shows "fst (operator_main G L A K X others z args w) = Inr 1 \<and>
    operator_main G L A (K\<lparr>cr_Manager := m, cr_Client := c, cr_Start := start\<rparr>) X others z args w =
      operator_main G L A K X others z args w"
proof -
  obtain r1 w1 where made: "cr_NewManager K (managerOptions (lb_Platform G) opts) w = (r1, w1)" by (metis surj_pair)
  show ?thesis
  proof (cases r1)
    case (Inl e)
    with made assms(1,2) show ?thesis by (simp add: operator_main_def run_operator_def io_simps Let_def)
  next
    case (Inr u)
    note made = made [unfolded Inr]
    show ?thesis
    proof (cases "ParseCloud (lb_Platform G) (op_azureCloud opts)")
      case (Inl e)
      with made assms(1,2) show ?thesis by (simp add: operator_main_def run_operator_def io_simps Let_def)
    next
      case cloud: (Inr cloud)
      obtain r2 w2 where cr: "NewCredential A (op_credentialMode opts) w1 = (r2, w2)" by (metis surj_pair)
      show ?thesis
      proof (cases r2)
        case (Inl e)
        with made cloud cr assms(1,2) show ?thesis by (simp add: operator_main_def run_operator_def io_simps Let_def)
      next
        case (Inr credential)
        with cr have "op_credentialMode opts \<in> {[], CredentialWorkloadIdentity, CredentialDefault}"
          by (auto simp: NewCredential_def io_fail_def split: if_splits)
        with assms(3) cloud obtain e where "parseAllowedVaults (lb_Platform G) (lb_ParseAddr G) (op_allowedVaults opts) cloud = Inl e"
          by (auto simp: isl_def)
        with made cloud cr Inr assms(1,2) show ?thesis
          by (simp add: operator_main_def run_operator_def NewRepository_def io_simps Let_def)
      qed
    qed
  qed
qed

definition plain_schemes :: other_schemes where
  "plain_schemes = \<lparr>os_clientgo = Inr, os_certmanager = Inr, os_gateway = Inr\<rparr>"

lemma operator_main_misconfigured_witness:
  "\<forall>L A K w. fst (operator_main toy_library L A K plain_schemes ([] :: unit flag list) ()
     [''--leader-elect'', ''--azure-cloud=AzureMoonCloud''] w) = Inr 1"
proof (intro allI)
  fix L A K w
  obtain s where s: "scheme_init plain_schemes = Inr s"
    by (simp add: scheme_init_def plain_schemes_def SchemeBuilder_def register_policy_def register_sync_def first_builder_def)
  have p: "parse_flags (command_line ([] :: unit flag list)) [''--leader-elect'', ''--azure-cloud=AzureMoonCloud''] (default_options, ()) =
      Inr ((default_options\<lparr>op_leaderElection := True, op_azureCloud := ''AzureMoonCloud''\<rparr>, ()), [])"
    by code_simp
  have "isl (ParseCloud (lb_Platform toy_library) ''AzureMoonCloud'')" by code_simp
  then show "fst (operator_main toy_library L A K plain_schemes ([] :: unit flag list) ()
     [''--leader-elect'', ''--azure-cloud=AzureMoonCloud''] w) = Inr 1"
    by (intro operator_main_misconfigured [OF s p, THEN conjunct1] disjI1) simp
qed

end
