(* ===== verification/Loops.thy ===== *)
theory Loops
  imports Chain WildcardProps "HOL-Library.While_Combinator"
begin

text \<open>
  The \<open>for\<close> loops of the domain that are not over a range, as loops: each takes its variables
  through the statements of its body, and the loop is \<^const>\<open>while_option\<close>, which is \<open>None\<close> where it runs
  forever. They end, with the results of the recursive functions of \<open>Certificate\<close>, \<open>Chain\<close> and
  \<open>Wildcard\<close>, which the other theories work with.
\<close>

section \<open>The endless loop\<close>

text \<open>
  \<^verbatim>\<open>for { ... }\<close>: the body goes on with new variables (\<open>Inl\<close>, also for \<^verbatim>\<open>continue\<close>) or leaves
  the loop (\<open>Inr\<close>, for \<^verbatim>\<open>break\<close> and \<^verbatim>\<open>return\<close>).
\<close>

definition for_ever :: "('s \<Rightarrow> 's + 'r) \<Rightarrow> 's \<Rightarrow> 'r option" where
  "for_ever body s = map_option projr (while_option isl (\<lambda>v. body (projl v)) (Inl s))"

lemma for_ever_unfold:
  "for_ever body s = (case body s of Inl s' \<Rightarrow> for_ever body s' | Inr r \<Rightarrow> Some r)"
proof (cases "body s")
  case (Inl s')
  then show ?thesis unfolding for_ever_def by (subst while_option_unfold) simp
next
  case (Inr r)
  then show ?thesis unfolding for_ever_def by (subst while_option_unfold, simp, subst while_option_unfold) simp
qed

text \<open>A loop that goes round without a change never ends.\<close>

lemma for_ever_stuck: "body s = Inl s \<Longrightarrow> for_ever body s = None"
proof -
  assume b: "body s = Inl s"
  have "while_option isl (\<lambda>v. body (projl v)) (Inl s) = None"
  proof (rule ccontr)
    assume "while_option isl (\<lambda>v. body (projl v)) (Inl s) \<noteq> None"
    then obtain t where t: "while_option isl (\<lambda>v. body (projl v)) (Inl s) = Some t" by blast
    from while_option_rule [where P = "\<lambda>v. v = Inl s", OF _ t] b while_option_stop [OF t]
    show False by auto
  qed
  then show ?thesis by (simp add: for_ever_def)
qed

section \<open>The PEM loops\<close>

text \<open>\<open>pem.Decode\<close> with its two results: without a block, the rest is all of the input.\<close>

definition pem_Decode :: "x509_lib \<Rightarrow> bytes \<Rightarrow> pem_block option \<times> bytes" where
  "pem_Decode L data =
     (if data = [] then (None, [])
      else (case pem_next L data of None \<Rightarrow> (None, data) | Some (block, k) \<Rightarrow> (Some block, drop (Suc k) data)))"

definition parse_certs_body ::
  "x509_lib \<Rightarrow> x509_cert list \<times> bytes \<Rightarrow> (x509_cert list \<times> bytes) + x509_cert list go_result" where
  "parse_certs_body L = (\<lambda>(certs, rest).
     let (block, rest) = pem_Decode L rest in
     case block of
       None \<Rightarrow> Inr (Inr certs)
     | Some block \<Rightarrow>
         if pb_Type block \<noteq> ''CERTIFICATE'' then Inl (certs, rest)
         else (case ParseCertificate L (pb_Bytes block) of
                 Inl err \<Rightarrow> Inr (Inl (Errorf ''parsing certificate: %w'' [AErr err]))
               | Inr cert \<Rightarrow> Inl (certs @ [cert], rest)))"

definition parseCertificates_for :: "x509_lib \<Rightarrow> bytes \<Rightarrow> x509_cert list go_result option" where
  "parseCertificates_for L certPEM =
     map_option
       (\<lambda>r. case r of Inl err \<Rightarrow> Inl err
          | Inr certs \<Rightarrow> if certs = [] then Inl (EDomain ErrNoCertificates) else Inr certs)
       (for_ever (parse_certs_body L) ([], certPEM))"

definition parse_key_body :: "x509_lib \<Rightarrow> bytes \<Rightarrow> bytes + private_key go_result" where
  "parse_key_body L rest =
     (let (block, rest) = pem_Decode L rest in
      case block of
        None \<Rightarrow> Inr (Inl (EDomain ErrNoPrivateKey))
      | Some block \<Rightarrow>
          if pb_Type block = ''CERTIFICATE'' then Inl rest
          else (case tryParseKey L (pb_Bytes block) of
                  None \<Rightarrow> Inl rest
                | Some (OtherKey t b) \<Rightarrow> Inr (Inl (Errorf ''%w: %T'' [AErr (EDomain ErrUnsupportedKey), AStr t]))
                | Some key \<Rightarrow> Inr (Inr key)))"

definition ParsePrivateKey_for :: "x509_lib \<Rightarrow> bytes \<Rightarrow> private_key go_result option" where
  "ParsePrivateKey_for L keyPEM = for_ever (parse_key_body L) keyPEM"

lemma parse_certs_loop_ends:
  "for_ever (parse_certs_body L) (certs, rest) = Some (parse_certs_loop L certs rest)"
proof (induction L certs rest rule: parse_certs_loop.induct)
  case (1 L certs rest)
  show ?case
  proof (cases "rest = [] \<or> pem_next L rest = None")
    case True
    then show ?thesis
      by (subst for_ever_unfold, subst parse_certs_loop.simps) (auto simp: parse_certs_body_def pem_Decode_def)
  next
    case False
    then obtain block k where b: "rest \<noteq> []" "pem_next L rest = Some (block, k)" by auto
    show ?thesis using "1.IH" [OF b(1,2) refl] b
      by (subst for_ever_unfold, subst parse_certs_loop.simps)
        (auto simp: parse_certs_body_def pem_Decode_def split: sum.split)
  qed
qed

lemma parseCertificates_ends: "parseCertificates_for L certPEM = Some (parseCertificates L certPEM)"
  by (simp add: parseCertificates_for_def parseCertificates_def parse_certs_loop_ends)

lemma ParsePrivateKey_ends: "ParsePrivateKey_for L keyPEM = Some (ParsePrivateKey L keyPEM)"
  unfolding ParsePrivateKey_for_def
proof (induction L keyPEM rule: ParsePrivateKey.induct)
  case (1 L rest)
  show ?case
  proof (cases "rest = [] \<or> pem_next L rest = None")
    case True
    then show ?thesis
      by (subst for_ever_unfold, subst ParsePrivateKey.simps) (auto simp: parse_key_body_def pem_Decode_def)
  next
    case False
    then obtain block k where b: "rest \<noteq> []" "pem_next L rest = Some (block, k)" by auto
    have "parse_key_body L rest =
        (if pb_Type block = ''CERTIFICATE'' then Inl (drop (Suc k) rest)
         else (case tryParseKey L (pb_Bytes block) of
                 None \<Rightarrow> Inl (drop (Suc k) rest)
               | Some (OtherKey t b) \<Rightarrow> Inr (Inl (Errorf ''%w: %T'' [AErr (EDomain ErrUnsupportedKey), AStr t]))
               | Some key \<Rightarrow> Inr (Inr key)))"
      using b by (simp add: parse_key_body_def pem_Decode_def)
    with "1.IH" [OF b(1,2) refl] b show ?thesis
      by (subst for_ever_unfold, subst ParsePrivateKey.simps) (auto split: option.split private_key.split)
  qed
qed

section \<open>The loop over the issuers\<close>

definition order_body ::
  "x509_lib \<Rightarrow> x509_cert list \<Rightarrow> x509_cert \<times> bool list \<times> x509_cert list \<Rightarrow>
   (x509_cert \<times> bool list \<times> x509_cert list) + (bool list \<times> x509_cert list)" where
  "order_body L rest = (\<lambda>(current, used, ordered).
     case findIssuer L current rest used of
       None \<Rightarrow> Inr (used, ordered)
     | Some idx \<Rightarrow>
         let used = used[idx := True];
             ordered = ordered @ [rest ! idx]
         in if isSelfSigned L (rest ! idx) then Inr (used, ordered)
            else Inl (rest ! idx, used, ordered))"

definition orderChain_for :: "x509_lib \<Rightarrow> x509_cert \<Rightarrow> x509_cert list \<Rightarrow> x509_cert list option" where
  "orderChain_for L leaf rest =
     (if rest = [] then Some []
      else map_option
        (\<lambda>(used, ordered).
           let orphans = map fst (filter (\<lambda>(cert, u). \<not> u) (zip rest used))
           in ordered @ sort_key x_Raw orphans)
        (for_ever (order_body L rest) (leaf, replicate (length rest) False, [])))"

lemma walk_ends_loop:
  "length used = length rest \<Longrightarrow>
     for_ever (order_body L rest) (current, used, ordered) =
       (case walk L current rest used of (chain, used') \<Rightarrow> Some (used', ordered @ chain))"
proof (induction L current rest used arbitrary: ordered rule: walk.induct)
  case (1 L current rest used)
  show ?case
  proof (cases "findIssuer L current rest used")
    case None
    with "1.prems" show ?thesis by (subst for_ever_unfold, subst walk.simps) (simp add: order_body_def)
  next
    case (Some idx)
    show ?thesis
    proof (cases "isSelfSigned L (rest ! idx)")
      case True
      with Some "1.prems" show ?thesis by (subst for_ever_unfold, subst walk.simps) (simp add: order_body_def)
    next
      case False
      show ?thesis using "1.IH" [OF _ Some False, of "ordered @ [rest ! idx]"] "1.prems" Some False
        by (subst for_ever_unfold, subst walk.simps) (simp add: order_body_def split: prod.split)
    qed
  qed
qed

lemma orderChain_ends: "orderChain_for L leaf rest = Some (orderChain L leaf rest)"
  by (simp add: orderChain_for_def orderChain_def walk_ends_loop split: prod.split)

section \<open>The bundle\<close>

definition ParseBundle_for :: "x509_lib \<Rightarrow> bytes \<Rightarrow> bytes \<Rightarrow> cert_bundle go_result option" where
  "ParseBundle_for L certPEM keyPEM =
     Option.bind (parseCertificates_for L certPEM) (\<lambda>r. case r of
       Inl err \<Rightarrow> Some (Inl err)
     | Inr certs \<Rightarrow> Option.bind (ParsePrivateKey_for L keyPEM) (\<lambda>r. case r of
         Inl err \<Rightarrow> Some (Inl err)
       | Inr key \<Rightarrow> (case selectLeaf L certs key of
           Inl err \<Rightarrow> Some (Inl err)
         | Inr (leaf, rest) \<Rightarrow>
             map_option (\<lambda>chain. Inr \<lparr>bd_Leaf = leaf, bd_Chain = chain, bd_PrivateKey = key\<rparr>)
               (orderChain_for L leaf rest))))"

text \<open>
  C11. Parsing a bundle ends, on any two inputs and with any parsers: the loops over the PEM blocks
  and the walk over the issuers leave after finitely many rounds, also when the certificates issue
  each other in a circle, and the bundle is that of the recursive functions.
\<close>
theorem ParseBundle_terminates:
  "ParseBundle_for L certPEM keyPEM = Some (ParseBundle L certPEM keyPEM)"
  by (auto simp: ParseBundle_for_def ParseBundle_def parseCertificates_ends ParsePrivateKey_ends orderChain_ends res_bind_def
    split: sum.split)

section \<open>The loop over the listeners\<close>

text \<open>\<^verbatim>\<open>for start := 0; start < len(names); start += MaxListenerHostnames\<close>.\<close>

definition split_body ::
  "string list \<Rightarrow> nat \<times> string list list \<Rightarrow> (nat \<times> string list list) + string list list" where
  "split_body names = (\<lambda>(start, out).
     if start < length names
     then let stop = min (start + MaxListenerHostnames) (length names)
          in Inl (start + MaxListenerHostnames, out @ [take (stop - start) (drop start names)])
     else Inr out)"

definition SplitListenerHostnames_for :: "string list \<Rightarrow> string list list option" where
  "SplitListenerHostnames_for names = for_ever (split_body names) (0, [])"

lemma split_loop_ends:
  "for_ever (split_body names) (start, out) = Some (out @ SplitListenerHostnames (drop start names))"
proof (induction "drop start names" arbitrary: start out rule: SplitListenerHostnames.induct)
  case 1
  then show ?case by (subst for_ever_unfold) (simp add: split_body_def)
next
  case (2 n ns)
  have d: "drop MaxListenerHostnames (n # ns) = drop (start + MaxListenerHostnames) names"
    by (simp add: "2.hyps"(2) add.commute)
  have "start < length names" using "2.hyps"(2) by (metis drop_all leI list.distinct(1))
  moreover have "take (min (start + MaxListenerHostnames) (length names) - start) (drop start names) =
      take MaxListenerHostnames (drop start names)"
    by (simp add: min_def)
  ultimately show ?case using "2.hyps"(1) [OF d] SplitListenerHostnames.simps(2) [of n ns] d "2.hyps"(2)
    by (subst for_ever_unfold) (simp add: split_body_def)
qed

lemma SplitListenerHostnames_ends: "SplitListenerHostnames_for names = Some (SplitListenerHostnames names)"
  by (simp add: SplitListenerHostnames_for_def split_loop_ends)

end
