(* ===== verification/EndToEnd.thy ===== *)
theory EndToEnd
  imports SyncSystem PolicyProps Watches
begin

text \<open>
  The operator as a whole: both controllers over one world, which is an API server with its cluster
  and the Key Vault of the end-to-end tests. What the policy controller plans and reports is
  followed through the sync controller into the vault.
\<close>

section \<open>The world\<close>

record operator_world =
  ow_api :: api_server
  ow_vault :: fk_world

definition in_api :: "(api_server, 'a) io \<Rightarrow> (operator_world, 'a) io" where
  "in_api m w = (case m (ow_api w) of (r, a) \<Rightarrow> (r, w\<lparr>ow_api := a\<rparr>))"

definition in_vault :: "(fk_world, 'a) io \<Rightarrow> (operator_world, 'a) io" where
  "in_vault m w = (case m (ow_vault w) of (r, v) \<Rightarrow> (r, w\<lparr>ow_vault := v\<rparr>))"

definition world_client :: "operator_world kube_client" where
  "world_client =
     \<lparr> cl_Reader = cluster_reader (\<lambda>w. sv_Cluster (ow_api w)),
       get_sync = (\<lambda>k. in_api (get_sync memory_client k)),
       update_sync = (\<lambda>s. in_api (update_sync memory_client s)),
       update_sync_status = (\<lambda>s. in_api (update_sync_status memory_client s)),
       list_syncs = (\<lambda>ns sel. in_api (list_syncs memory_client ns sel)),
       delete_sync = (\<lambda>s. in_api (delete_sync memory_client s)),
       upsert_sync = (\<lambda>s f. in_api (upsert_sync memory_client s f)),
       get_policy = (\<lambda>k. in_api (get_policy memory_client k)),
       update_policy = (\<lambda>p. in_api (update_policy memory_client p)),
       update_policy_status = (\<lambda>p. in_api (update_policy_status memory_client p)),
       list_policies = in_api (list_policies memory_client),
       list_certificates = (\<lambda>ns sel. in_api (list_certificates memory_client ns sel)),
       delete_certificate = (\<lambda>c. in_api (delete_certificate memory_client c)),
       upsert_certificate = (\<lambda>c f. in_api (upsert_certificate memory_client c f)) \<rparr>"

definition world_syncs :: "operator_world \<Rightarrow> object_key \<Rightarrow> cert_sync option" where
  "world_syncs w = server_syncs (ow_api w)"

definition world_certs :: "operator_world \<Rightarrow> object_key \<Rightarrow> cm_certificate option" where
  "world_certs w = server_certs (ow_api w)"

lemma in_api_run: "in_api m w = (r, w') \<longleftrightarrow> (\<exists>a. m (ow_api w) = (r, a) \<and> w' = w\<lparr>ow_api := a\<rparr>)"
  by (auto simp: in_api_def split: prod.splits)

interpretation world: generated_contract world_client world_syncs world_certs
proof (unfold_locales, goal_cases)
  case (1 w k s)
  then show ?case using memory_server.sync_key by (simp add: world_syncs_def)
next
  case (2 w k c)
  then show ?case using memory_server.cert_key by (simp add: world_certs_def)
next
  case (3 ns l v w r w')
  then show ?case
    by (auto simp: world_client_def in_api_run world_syncs_def world_certs_def dest!: memory_server.list_syncs_law)
next
  case (4 ns l v w r w')
  then show ?case
    by (auto simp: world_client_def in_api_run world_syncs_def world_certs_def dest!: memory_server.list_certificates_law)
next
  case (5 s w d w')
  then obtain a where "delete_sync memory_client s (ow_api w) = (d, a)" "w' = w\<lparr>ow_api := a\<rparr>"
    by (auto simp: world_client_def in_api_run)
  with memory_server.delete_sync_law [OF this(1)] show ?case
    by (cases d) (simp_all add: world_syncs_def world_certs_def)
next
  case (6 c w d w')
  then obtain a where "delete_certificate memory_client c (ow_api w) = (d, a)" "w' = w\<lparr>ow_api := a\<rparr>"
    by (auto simp: world_client_def in_api_run)
  with memory_server.delete_certificate_law [OF this(1)] show ?case
    by (cases d) (simp_all add: world_syncs_def world_certs_def)
next
  case (7 s0 f w d w')
  then obtain a where "upsert_sync memory_client s0 f (ow_api w) = (d, a)" "w' = w\<lparr>ow_api := a\<rparr>"
    by (auto simp: world_client_def in_api_run)
  with memory_server.upsert_sync_law [OF this(1) 7(2)] show ?case
    by (cases d) (simp_all add: world_syncs_def world_certs_def)
next
  case (8 c0 g w d w')
  then obtain a where "upsert_certificate memory_client c0 g (ow_api w) = (d, a)" "w' = w\<lparr>ow_api := a\<rparr>"
    by (auto simp: world_client_def in_api_run)
  with memory_server.upsert_certificate_law [OF this(1) 8(2)] show ?case
    by (cases d) (simp_all add: world_syncs_def world_certs_def)
qed

interpretation world_index: index_contract world_client world_syncs
proof (unfold_locales, goal_cases)
  case (1 w k s)
  then show ?case by (rule world.sync_key)
next
  case (2 ns v w)
  obtain items where "list_syncs memory_client ns (MatchingFields [(SecretRefIndexKey, v)]) (ow_api w) = (Inr items, ow_api w)"
    "set items = {s. server_syncs (ow_api w) (key_of (sc_Meta s)) = Some s \<and> om_Namespace (sc_Meta s) = ns \<and>
       v \<in> set (secret_ref_index s)}"
    using memory_index.list_indexed by blast
  then show ?case by (simp add: world_client_def in_api_def world_syncs_def)
qed

section \<open>The sync controller in it\<close>

text \<open>As \<open>cmd/manager\<close> composes it; the clock shows \<open>now\<close>, and \<open>rand\<close> draws numbers.\<close>

definition world_reconciler ::
  "platform \<Rightarrow> decode_chain \<Rightarrow> x509_lib \<Rightarrow> cloud \<Rightarrow> vault_allowlist \<Rightarrow> time \<Rightarrow> (int \<Rightarrow> int) \<Rightarrow> operator_world sync_reconciler" where
  "world_reconciler P dec L c allowed now rand =
     \<lparr> sr_Client = world_client,
       sr_Recorder = Some (\<lambda>m t r a n w. w\<lparr>ow_api := (ow_api w)\<lparr>sv_Events := sv_Events (ow_api w) @ [(r, n)]\<rparr>\<rparr>),
       sr_Source = SecretSource_Load L (cl_Reader world_client),
       sr_Vault = \<lparr> vp_Snapshot = (\<lambda>ref. in_vault (vp_Snapshot (Repository (fake_sdk P dec)) ref)),
                    vp_Import = (\<lambda>ref rq. in_vault (vp_Import (Repository (fake_sdk P dec)) ref rq)) \<rparr>,
       sr_Clock = (\<lambda>w. (now, w)), sr_Cloud = c, sr_AllowedVaults = allowed, sr_Pkcs12 = checked_p12 dec,
       sr_Rand = (\<lambda>n w. (rand n, w)),
       sr_Metrics = (\<lambda>f w. w\<lparr>ow_api := (ow_api w)\<lparr>sv_Metrics := f (sv_Metrics (ow_api w))\<rparr>\<rparr>) \<rparr>"

text \<open>
  Computations that read one state of the API server and act on the vault only, and the same
  computations in the world of the vault.
\<close>

definition on_vault :: "api_server \<Rightarrow> (operator_world, 'a) io \<Rightarrow> (fk_world, 'a) io \<Rightarrow> bool" where
  "on_vault a m n \<longleftrightarrow> (\<forall>w. ow_api w = a \<longrightarrow> m w = in_vault n w)"

named_theorems vault_rules "computations on the vault, by their structure"

lemma on_vault_return [vault_rules]: "on_vault a (io_return x) (io_return x)"
  by (simp add: on_vault_def in_vault_def io_simps)

lemma on_vault_fail [vault_rules]: "on_vault a (io_fail x) (io_fail x)"
  by (simp add: on_vault_def in_vault_def io_simps)

lemma on_vault_lift [vault_rules]: "on_vault a (io_lift x) (io_lift x)"
  by (simp add: on_vault_def in_vault_def io_simps)

lemma on_vault_wrap [vault_rules]: "on_vault a m n \<Longrightarrow> on_vault a (io_wrap g m) (io_wrap g n)"
  by (auto simp: on_vault_def in_vault_def io_simps split: prod.splits sum.splits)

lemma on_vault_clock [vault_rules]: "on_vault a (io_effect (\<lambda>w. (t, w))) (io_effect (\<lambda>w. (t, w)))"
  by (simp add: on_vault_def in_vault_def io_simps)

lemma on_vault_in_vault [vault_rules]: "on_vault a (in_vault m) m"
  by (simp add: on_vault_def)

lemma on_vault_bind [vault_rules]:
  assumes "on_vault a m n" and "\<And>x. on_vault a (f x) (g x)"
  shows "on_vault a (io_bind m f) (io_bind n g)"
  unfolding on_vault_def
proof (intro allI impI)
  fix w :: operator_world assume w: "ow_api w = a"
  then have m: "m w = in_vault n w" and f: "ow_api w' = a \<Longrightarrow> f x w' = in_vault (g x) w'" for x and w' :: operator_world
    using assms by (auto simp: on_vault_def)
  show "io_bind m f w = in_vault (io_bind n g) w"
    using w f by (auto simp: m io_bind_def in_vault_def split: prod.split sum.split)
qed

lemma on_vault_if [vault_rules]: "on_vault a m n \<Longrightarrow> on_vault a m' n' \<Longrightarrow> on_vault a (if b then m else m') (if b then n else n')"
  by simp

lemma on_vault_prod [vault_rules]: "(\<And>x y. on_vault a (f x y) (g x y)) \<Longrightarrow> on_vault a (case p of (x, y) \<Rightarrow> f x y) (case p of (x, y) \<Rightarrow> g x y)"
  by (cases p) simp

lemma on_vault_load [vault_rules]:
  "on_vault a (SecretSource_Load L (cluster_reader (\<lambda>w. sv_Cluster (ow_api w))) ref)
     (SecretSource_Load L (cluster_reader (\<lambda>_. sv_Cluster a)) ref)"
  by (auto simp: on_vault_def in_vault_def SecretSource_Load_def cluster_reader_def io_simps split: option.split sum.split)


lemma on_vault_encode [vault_rules]:
  "on_vault a (en_Encode (the_encoder (checked_p12 dec) p) ob) (en_Encode (the_encoder (checked_p12 dec) p) ob)"
  unfolding the_encoder_def encoder.select_convs EncodeBundle_def encoder_settings_def randomPassword_def checked_p12_def
    pkcs12_lib.select_convs
  by (cases ob) (auto intro!: vault_rules)

text \<open>The use case in this world is the use case over the adapters, on the cluster of the moment.\<close>

lemma Sync_on_vault:
  "Sync P \<lparr> sy_Source = sr_Source (world_reconciler P dec L c allowed now rand),
      sy_Vault = sr_Vault (world_reconciler P dec L c allowed now rand),
      sy_Encode = the_encoder (sr_Pkcs12 (world_reconciler P dec L c allowed now rand)) p,
      sy_Clock = sr_Clock (world_reconciler P dec L c allowed now rand) \<rparr> req w =
    in_vault (Sync P (the_operator P dec L p (sv_Cluster (ow_api w)) (\<lambda>_. now)) req) w"
proof -
  have "on_vault (ow_api w)
     (Sync P \<lparr> sy_Source = sr_Source (world_reconciler P dec L c allowed now rand),
        sy_Vault = sr_Vault (world_reconciler P dec L c allowed now rand),
        sy_Encode = the_encoder (sr_Pkcs12 (world_reconciler P dec L c allowed now rand)) p,
        sy_Clock = sr_Clock (world_reconciler P dec L c allowed now rand) \<rparr> req)
     (Sync P (the_operator P dec L p (sv_Cluster (ow_api w)) (\<lambda>_. now)) req)"
    unfolding Sync_def Let_def the_operator_def syncer.select_convs world_reconciler_def sync_reconciler.select_convs
      world_client_def kube_client.select_convs vault_repository.select_convs
    by (intro vault_rules) (simp_all add: the_encoder_def on_vault_in_vault)
  then show ?thesis by (simp add: on_vault_def)
qed


section \<open>The stages of a reconciliation\<close>

abbreviation "R_world \<equiv> world_reconciler"

lemma world_client_fields:
  "get_sync world_client k w = (case world_syncs w k of None \<Rightarrow> (Inl not_found, w) | Some s \<Rightarrow> (Inr s, w))"
  "update_sync world_client s w = (case world_syncs w (key_of (sc_Meta s)) of
     None \<Rightarrow> (Inl not_found, w)
   | Some old \<Rightarrow>
       let new = s\<lparr>sc_Status := sc_Status old\<rparr> in
       if deletion_requested (sc_Meta new) \<and> om_Finalizers (sc_Meta new) = []
       then (Inr new, w\<lparr>ow_api := (ow_api w)\<lparr>sv_Syncs := remove_obj sync_key_of (key_of (sc_Meta s)) (sv_Syncs (ow_api w))\<rparr>\<rparr>)
       else (Inr new, w\<lparr>ow_api := (ow_api w)\<lparr>sv_Syncs := put_obj sync_key_of new (sv_Syncs (ow_api w))\<rparr>\<rparr>))"
  "update_sync_status world_client s w = (case world_syncs w (key_of (sc_Meta s)) of
     None \<Rightarrow> (Inl not_found, w)
   | Some old \<Rightarrow>
       let new = old\<lparr>sc_Status := sc_Status s\<rparr> in
       (Inr new, w\<lparr>ow_api := (ow_api w)\<lparr>sv_Syncs := put_obj sync_key_of new (sv_Syncs (ow_api w))\<rparr>\<rparr>))"
  by (auto simp: world_client_def in_api_def memory_client_def world_syncs_def server_syncs_def Let_def split: option.split)

lemma world_syncs_put:
  "world_syncs (w\<lparr>ow_api := a\<lparr>sv_Syncs := put_obj sync_key_of s (sv_Syncs a)\<rparr>\<rparr>) = (server_syncs a)(key_of (sc_Meta s) \<mapsto> s)"
  by (simp add: world_syncs_def server_syncs_def lookup_put)

lemma reconciler_fields:
  "sr_Client (R_world P dec L c allowed now rand) = world_client"
  "sr_Clock (R_world P dec L c allowed now rand) = (\<lambda>w. (now, w))"
  "sr_Cloud (R_world P dec L c allowed now rand) = c" "sr_AllowedVaults (R_world P dec L c allowed now rand) = allowed"
  "sr_Rand (R_world P dec L c allowed now rand) = (\<lambda>n w. (rand n, w))"
  by (simp_all add: world_reconciler_def)

lemma world_add_finalizer:
  assumes "world_syncs w k = Some s" and "\<not> deletion_requested (sc_Meta s)"
  obtains s1 w1 where "sync_add_finalizer G (R_world P dec L c allowed now rand) s w = (Inr s1, w1)"
    and "world_syncs w1 k = Some s1" and "key_of (sc_Meta s1) = k" and "om_Namespace (sc_Meta s1) = om_Namespace (sc_Meta s)"
    and "sc_Spec s1 = sc_Spec s" and "ow_vault w1 = ow_vault w" and "sv_Cluster (ow_api w1) = sv_Cluster (ow_api w)"
proof -
  have k: "key_of (sc_Meta s) = k" using world.sync_key assms(1) by blast
  obtain fs added where f: "mc_AddFinalizer (lb_Machinery G) FinalizerName (om_Finalizers (sc_Meta s)) = (fs, added)" by fastforce
  show ?thesis
  proof (cases added)
    case False
    with f have "sync_add_finalizer G (R_world P dec L c allowed now rand) s w = (Inr s, w)"
      by (simp add: sync_add_finalizer_def io_simps)
    from that [OF this assms(1) k] show ?thesis by simp
  next
    case True
    let ?s = "s\<lparr>sc_Meta := (sc_Meta s)\<lparr>om_Finalizers := fs\<rparr>\<rparr>"
    have k': "key_of (sc_Meta ?s) = k" using k by (simp add: key_of_def)
    have "sync_add_finalizer G (R_world P dec L c allowed now rand) s w =
        (Inr ?s, w\<lparr>ow_api := (ow_api w)\<lparr>sv_Syncs := put_obj sync_key_of ?s (sv_Syncs (ow_api w))\<rparr>\<rparr>)"
      using f True k' assms by (simp add: sync_add_finalizer_def io_simps reconciler_fields world_client_fields(2) deletion_requested_def Let_def)
    moreover have "world_syncs (w\<lparr>ow_api := (ow_api w)\<lparr>sv_Syncs := put_obj sync_key_of ?s (sv_Syncs (ow_api w))\<rparr>\<rparr>) k = Some ?s"
      using k' by (simp add: world_syncs_put)
    ultimately show ?thesis using k' by (rule that) simp_all
  qed
qed

text \<open>Metrics and events are not the resources.\<close>

lemma world_syncs_other [simp]:
  "world_syncs (w\<lparr>ow_api := (ow_api w)\<lparr>sv_Metrics := m\<rparr>\<rparr>) = world_syncs w"
  "world_syncs (w\<lparr>ow_api := (ow_api w)\<lparr>sv_Events := e\<rparr>\<rparr>) = world_syncs w"
  by (simp_all add: world_syncs_def server_syncs_def)

lemma world_applyOutcome:
  assumes "machinery_contract (lb_Machinery G)"
  obtains s2 w2 where "applyOutcome G (R_world P dec L c allowed now rand) s outcome w = (Inr s2, w2)"
    and "world_syncs w2 = world_syncs w" and "ow_vault w2 = ow_vault w" and "sc_Meta s2 = sc_Meta s"
    and "ct_SecretIdentifier (sc_Status s2) = so_SecretIdentifier outcome"
    and "condition_of (ct_Conditions (sc_Status s2)) ConditionReady = Some (ready_condition (om_Generation (sc_Meta s)) outcome)"
proof -
  have "io_post (\<lambda>r w'. \<exists>reason message. r = Inr (s\<lparr>sc_Status := (outcome_status s outcome now)
          \<lparr>ct_Conditions := outcome_conditions (lb_Machinery G) (om_Generation (sc_Meta s)) outcome reason message
             (ct_Conditions (sc_Status s))\<rparr>\<rparr>) \<and> world_syncs w' = world_syncs w \<and> ow_vault w' = ow_vault w)
      (applyOutcome G (R_world P dec L c allowed now rand) s outcome) w"
    by (auto simp: applyOutcome_def io_wp Let_def outcome_status_def world_reconciler_def)
  then obtain reason message w' where r: "applyOutcome G (R_world P dec L c allowed now rand) s outcome w =
      (Inr (s\<lparr>sc_Status := (outcome_status s outcome now)\<lparr>ct_Conditions := outcome_conditions (lb_Machinery G)
         (om_Generation (sc_Meta s)) outcome reason message (ct_Conditions (sc_Status s))\<rparr>\<rparr>), w')"
    "world_syncs w' = world_syncs w" "ow_vault w' = ow_vault w"
    by (auto simp: io_post_def split: prod.splits)
  show ?thesis
    by (rule that [OF r]) (simp_all add: condition_of_outcome [OF assms] outcome_status_def Let_def)
qed

lemma world_updateStatus:
  assumes "world_syncs w (key_of (sc_Meta s)) = Some old"
  obtains w' where "updateStatus (update_sync_status world_client) s w = (Inr (), w')"
    and "world_syncs w' (key_of (sc_Meta s)) = Some (old\<lparr>sc_Status := sc_Status s\<rparr>)" and "ow_vault w' = ow_vault w"
proof (rule that)
  have "key_of (sc_Meta old) = key_of (sc_Meta s)" using world.sync_key assms by blast
  then show "world_syncs (w\<lparr>ow_api := (ow_api w)\<lparr>sv_Syncs := put_obj sync_key_of (old\<lparr>sc_Status := sc_Status s\<rparr>)
      (sv_Syncs (ow_api w))\<rparr>\<rparr>) (key_of (sc_Meta s)) = Some (old\<lparr>sc_Status := sc_Status s\<rparr>)"
    by (simp add: world_syncs_put)
qed (use assms in \<open>simp_all add: updateStatus_def io_simps world_client_fields(3) Let_def\<close>)

text \<open>A live resource whose sync goes through: the outcome is written, and it comes back.\<close>

lemma world_live:
  assumes "machinery_contract (lb_Machinery G)" and "lb_Platform G = P"
    and "world_syncs w k = Some s" and "\<not> deletion_requested (sc_Meta s)"
    and "vault_url_of G allowed c (cx_KeyVault (sc_Spec s)) = Inr url"
    and "NewEncoder (pkcs12Profile (cx_SyncPolicy (sc_Spec s))) = Inr p"
    and "Sync P (the_operator P dec L p (sv_Cluster (ow_api w)) (\<lambda>_. now))
       \<lparr> rq_Source = \<lparr>sr_Namespace = om_Namespace (sc_Meta s), sr_Name = lr_Name (sx_SecretRef (cx_Source (sc_Spec s)))\<rparr>,
         rq_Vault = \<lparr>vr_VaultURL = url, vr_CertificateName = kv_CertificateName (cx_KeyVault (sc_Spec s))\<rparr> \<rparr> (ow_vault w) =
       (Inr outcome, v)"
  shows "\<exists>res w' s' m. sync_Reconcile G (R_world P dec L c allowed now rand) k w = (Inr res, w') \<and>
    world_syncs w' k = Some s' \<and> ow_vault w' = v \<and>
    ct_SecretIdentifier (sc_Status s') = so_SecretIdentifier outcome \<and>
    condition_of (ct_Conditions (sc_Status s')) ConditionReady = Some (ready_condition m outcome)"
proof -
  let ?R = "R_world P dec L c allowed now rand"
  obtain s1 w1 where a: "sync_add_finalizer G ?R s w = (Inr s1, w1)" "world_syncs w1 k = Some s1" "key_of (sc_Meta s1) = k"
    "om_Namespace (sc_Meta s1) = om_Namespace (sc_Meta s)" "sc_Spec s1 = sc_Spec s" "ow_vault w1 = ow_vault w"
    "sv_Cluster (ow_api w1) = sv_Cluster (ow_api w)"
    by (rule world_add_finalizer [OF assms(3,4)])
  have sync: "sync_sync G ?R s1 w1 = (Inr outcome, w1\<lparr>ow_vault := v\<rparr>)"
    using assms(2,5-7) a(4-7) Sync_on_vault [of P dec L c allowed now rand p _ w1]
    by (simp add: sync_sync_def io_simps reconciler_fields in_vault_def)
  obtain s2 w2 where o: "applyOutcome G ?R s1 outcome (w1\<lparr>ow_vault := v\<rparr>) = (Inr s2, w2)"
    "world_syncs w2 = world_syncs (w1\<lparr>ow_vault := v\<rparr>)" "ow_vault w2 = ow_vault (w1\<lparr>ow_vault := v\<rparr>)" "sc_Meta s2 = sc_Meta s1"
    "ct_SecretIdentifier (sc_Status s2) = so_SecretIdentifier outcome"
    "condition_of (ct_Conditions (sc_Status s2)) ConditionReady = Some (ready_condition (om_Generation (sc_Meta s1)) outcome)"
    by (rule world_applyOutcome [OF assms(1)])
  have stored: "world_syncs w2 (key_of (sc_Meta s2)) = Some s1" using o(2,4) a(2,3) by (simp add: world_syncs_def)
  obtain w3 where u: "updateStatus (update_sync_status world_client) s2 w2 = (Inr (), w3)"
    "world_syncs w3 (key_of (sc_Meta s2)) = Some (s1\<lparr>sc_Status := sc_Status s2\<rparr>)" "ow_vault w3 = ow_vault w2"
    by (rule world_updateStatus [OF stored])
  have "\<exists>t. jitter (sr_Rand ?R) (resyncInterval (cx_SyncPolicy (sc_Spec s1))) w3 = (Inr t, w3)"
    by (simp add: jitter_def reconciler_fields Let_def)
  then obtain res where q: "requeue_jittered (sr_Rand ?R) (resyncInterval (cx_SyncPolicy (sc_Spec s1))) w3 = (Inr res, w3)"
    by (auto simp: requeue_jittered_def io_simps)
  have "sync_Reconcile G ?R k w = (Inr res, w3)"
    using assms(3,4) a(1) sync o(1) u(1) q
    by (simp add: sync_Reconcile_def sync_live_def io_simps reconciler_fields world_client_fields(1) Let_def)
  with o(3-6) u(2,3) a(3) show ?thesis by auto
qed


section \<open>What the vault of the tests answers\<close>

text \<open>The server has no disabled versions, so that no warning of one is given.\<close>

lemma body_enabled: "getCertificate name v = (Inr b, v') \<Longrightarrow> fb_enabled b"
  by (auto simp: getCertificate_def server_body_def split: option.splits)

lemma fake_snapshot_enabled:
  "repo_Snapshot (fake_sdk P dec) ref w = (Inr sn, w') \<Longrightarrow> sn_Exists sn \<Longrightarrow> sn_Enabled sn"
  by (auto simp: repo_Snapshot_def io_case_def io_bind_def io_return_def io_fail_def outside_def fake_sdk_def
      snapshot_of_def response_of_def absent_snapshot_def clientFor_def dest: body_enabled
      split: prod.splits sum.splits if_splits option.splits) (erule body_enabled)+

lemma operator_outcome:
  assumes "Sync P (the_operator P dec L p cl t) req w = (Inr out, w')"
  shows "so_WarningReason out \<noteq> ReasonDisabledInVault \<and>
    so_SecretIdentifier out = SecretIdentifier (named_ref req (so_CertificateName out))"
proof -
  obtain b ref sn w1 w2 now d where s: "repo_Snapshot (fake_sdk P dec) ref w1 = (Inr sn, w2)"
    "DecideSync P (Some b) sn now = Inr d" "so_WarningReason out = dc_WarningReason d"
    "so_SecretIdentifier out = SecretIdentifier (named_ref req (so_CertificateName out))"
    using assms
    by (auto simp: Sync_def the_operator_def Repository_def io_Inr_iffs Let_def named_ref_def split: if_splits)
  have "dc_WarningReason d \<noteq> ReasonDisabledInVault"
    using s(2) fake_snapshot_enabled [OF s(1)]
    by (auto simp: DecideSync_eq res_bind_Inr_iff warning_case_def decide_reasons split: if_splits)
  with s(3,4) show ?thesis by simp
qed


section \<open>Property\<close>

text \<open>What a plan says of its certificates.\<close>

lemma policy_plan_desired:
  assumes "policy_plan G R policy existing w = (Inr st, w')" and "cert \<in> set (st_Certificates st)"
  obtains url where "vault_url_of G (pr_AllowedVaults R) (pr_Cloud R) (pc_KeyVault (wp_Spec policy)) = Inr url"
    and "valid_vault_name (cr_Name cert)"
    and "ds_SecretIdentifier cert = SecretIdentifier \<lparr>vr_VaultURL = url, vr_CertificateName = cr_Name cert\<rparr>"
    and "ds_SecretName cert \<noteq> []"
proof -
  obtain url sel spec w1 where p: "vault_url_of G (pr_AllowedVaults R) (pr_Cloud R) (pc_KeyVault (wp_Spec policy)) = Inr url"
    "PlanState (lb_Platform G) (HostSource_Hosts (cl_Reader (pr_Client R)) (discovery_config R policy sel)) spec w1 = (Inr st, w')"
    "ps_VaultURL spec = url"
    using assms(1) by (fastforce simp: policy_plan_def io_Inr_iffs)
  obtain hosts pl where b: "BuildPlan (lb_Platform G) (input_of spec hosts) = Inr pl"
    "st_Certificates st = map (desired_of url) (pl_Certificates pl)"
    using PlanState_InrE [OF p(2)] p(3) by metis
  with assms(2) obtain c where c: "c \<in> set (pl_Certificates pl)" "cert = desired_of url c" by auto
  have "valid_vault_name (cr_Name c)" using BuildPlan_certificates [OF b(1)] c(1) by (auto simp: list_all_iff)
  with c p(1) that show ?thesis by (auto simp: desired_of_def)
qed

lemma vault_url_of_named: "vault_url_of G allowed c (k\<lparr>kv_CertificateName := n\<rparr>) = vault_url_of G allowed c k"
  by (simp add: vault_url_of_def vaultTarget_def vaultCloud_def)

lemma load_secret:
  assumes "map_of (cs_Secrets cl) ref = Some sec" and "bundle_of_secret L ref sec = Inr b"
  shows "SecretSource_Load L (cluster_reader (\<lambda>_. cl)) ref v = (Inr b, v)"
  using assms by (simp add: SecretSource_Load_def cluster_reader_def io_simps)

text \<open>A sync that can go through leaves the bundle in the vault, whatever was there.\<close>

lemma operator_delivers:
  assumes "fk_wf w" and "vr_VaultURL (rq_Vault req) = server_URL"
    and "SecretSource_Load L (cluster_reader (\<lambda>_. cl)) (rq_Source req) w = (Inr b, w)"
    and "sync_name P req b = Inr name" and "valid_vault_name name" and "Validate b now = Inr ()"
    and "NewEncoder prof = Inr p" and "\<And>pw. archive_leaf_of dec (x_Raw (bd_Leaf b)) pw = Some (bd_Leaf b)"
  obtains out w' where "Sync P (the_operator P dec L p cl (\<lambda>_. now)) req w = (Inr out, w')"
    and "so_CertificateName out = name" and "holds_bundle P (fk_view w' (named_ref req name)) b"
proof -
  obtain out w' where sync: "Sync P (the_operator P dec L p cl (\<lambda>_. now)) req w = (Inr out, w')"
    using Sync_held [OF assms(1-6)] Sync_imports [OF assms(1-6) _ NewEncoder_Inr [OF assms(7)] assms(8)] by metis
  have n: "so_CertificateName out = name"
    by (rule Sync_InrE [OF sync [unfolded the_operator_def]]) (use assms(3,4) in auto)
  show ?thesis
    using that [OF sync n] keyvault_sync.Sync_holds [OF sync [unfolded the_operator_def] assms(1) _ assms(3)] assms(2) n by simp
qed

text \<open>An event of the Secret of a planned certificate enqueues the sync resource generated for it.\<close>

lemma planned_enqueued:
  assumes "world_syncs w (cert_key policy cert) = Some s" and "sync_matches policy cert s" and "ds_SecretName cert \<noteq> []"
  shows "\<exists>keys. syncsForSecret (world_reconciler P dec L c allowed now rand)
       \<lparr>ok_Namespace = pc_CertificateNamespace (wp_Spec policy), ok_Name = ds_SecretName cert\<rparr> w = (Inr keys, w) \<and>
     cert_key policy cert \<in> set keys"
proof -
  have "cert_key policy cert \<in> referencing_syncs world_syncs w
      \<lparr>ok_Namespace = pc_CertificateNamespace (wp_Spec policy), ok_Name = ds_SecretName cert\<rparr>"
    using assms by (simp add: referencing_syncs_def sync_matches_def cert_key_def)
  then show ?thesis using world_index.syncsForSecret_keys [OF reconciler_fields(1)] by metis
qed



section \<open>An example\<close>

definition e2e_policies :: "operator_world policy_reconciler" where
  "e2e_policies =
     \<lparr> pr_Client = world_client, pr_Recorder = None,
       pr_Certificates = \<lparr>cw_Client = world_client, cw_Mapper = (\<lambda>gk v. io_return ())\<rparr>, pr_Clock = (\<lambda>w. (2000, w)),
       pr_HTTPRoutesAvailable = False, pr_GatewaysAvailable = False, pr_Cloud = CloudPublic, pr_AllowedVaults = [server_URL],
       pr_Rand = (\<lambda>n w. (0, w)), pr_Metrics = (\<lambda>f w. w) \<rparr>"

definition e2e_policy :: wildcard_policy where
  "e2e_policy = toy_policy\<lparr>wp_Spec := (wp_Spec toy_policy)\<lparr>pc_KeyVault := empty_vault_spec\<lparr>kv_VaultURL := server_URL\<rparr>\<rparr>\<rparr>"

definition e2e_world :: operator_world where
  "e2e_world = \<lparr>ow_api = toy_server [], ow_vault = empty_world\<rparr>"

text \<open>The Secret that cert-manager writes.\<close>

definition e2e_secret :: secret where
  "e2e_secret = \<lparr>se_Type = ''kubernetes.io/tls'', se_Data = [(''tls.crt'', ''C1C0C7C3C2''), (''tls.key'', ''K3'')]\<rparr>"

definition issue_secret :: "operator_world \<Rightarrow> operator_world" where
  "issue_secret w = w\<lparr>ow_api := (ow_api w)\<lparr>sv_Cluster := (sv_Cluster (ow_api w))
     \<lparr>cs_Secrets := [(\<lparr>sr_Namespace = ''certs'', sr_Name = ''wildcard-x-com-tls''\<rparr>, e2e_secret)]\<rparr>\<rparr>\<rparr>"

lemma ran:
  assumes "case m of (Inl e, w) \<Rightarrow> False | (Inr x, w) \<Rightarrow> Q x w"
  obtains x w where "m = (Inr x, w)" and "Q x w"
  using assms by (cases m) (auto split: sum.splits)

text \<open>The policy is planned and applied: one certificate, whose sync resource is not on its way out.\<close>

lemma e2e_run:
  obtains st w0 u w1 cert where "policy_plan toy_library e2e_policies e2e_policy [] e2e_world = (Inr st, w0)"
    and "policy_apply toy_library e2e_policies e2e_policy st w0 = (Inr u, w1)"
    and "st_Certificates st = [cert]" and "cr_Name cert = ''wildcard-x-com''" and "ds_SecretName cert = ''wildcard-x-com-tls''"
    and "fst (ow_vault w1) = []"
    and "\<forall>s. world_syncs w1 \<lparr>ok_Namespace = ''certs'', ok_Name = ''wildcard-x-com''\<rparr> = Some s \<longrightarrow> om_DeletionTimestamp (sc_Meta s) = None"
proof -
  let ?plan = "policy_plan toy_library e2e_policies e2e_policy [] e2e_world"
  let ?key = "\<lparr>ok_Namespace = ''certs'', ok_Name = ''wildcard-x-com''\<rparr>"
  have "case ?plan of (Inl e, w0) \<Rightarrow> False | (Inr st, w0) \<Rightarrow>
      map cr_Name (st_Certificates st) = [''wildcard-x-com''] \<and> map ds_SecretName (st_Certificates st) = [''wildcard-x-com-tls''] \<and>
      (case policy_apply toy_library e2e_policies e2e_policy st w0 of (Inl e, w1) \<Rightarrow> False | (Inr u, w1) \<Rightarrow>
        fst (ow_vault w1) = [] \<and>
        (case world_syncs w1 ?key of None \<Rightarrow> True | Some s \<Rightarrow> om_DeletionTimestamp (sc_Meta s) = None))"
    by code_simp
  then obtain st w0 where plan: "?plan = (Inr st, w0)"
    and run: "map cr_Name (st_Certificates st) = [''wildcard-x-com''] \<and> map ds_SecretName (st_Certificates st) = [''wildcard-x-com-tls''] \<and>
      (case policy_apply toy_library e2e_policies e2e_policy st w0 of (Inl e, w1) \<Rightarrow> False | (Inr u, w1) \<Rightarrow>
        fst (ow_vault w1) = [] \<and>
        (case world_syncs w1 ?key of None \<Rightarrow> True | Some s \<Rightarrow> om_DeletionTimestamp (sc_Meta s) = None))"
    by (rule ran)
  obtain u w1 where applied: "policy_apply toy_library e2e_policies e2e_policy st w0 = (Inr u, w1)"
    and made: "fst (ow_vault w1) = [] \<and> (case world_syncs w1 ?key of None \<Rightarrow> True | Some s \<Rightarrow> om_DeletionTimestamp (sc_Meta s) = None)"
    by (rule ran [OF conjunct2 [OF conjunct2 [OF run]]])
  have names: "map cr_Name (st_Certificates st) = [''wildcard-x-com'']" "map ds_SecretName (st_Certificates st) = [''wildcard-x-com-tls'']"
    and w1: "fst (ow_vault w1) = []" "\<forall>s. world_syncs w1 ?key = Some s \<longrightarrow> om_DeletionTimestamp (sc_Meta s) = None"
    using run made by (simp_all split: option.splits)
  from names obtain cert where cert: "st_Certificates st = [cert]" "cr_Name cert = ''wildcard-x-com''" "ds_SecretName cert = ''wildcard-x-com-tls''"
    by auto
  show ?thesis by (rule that [OF plan applied cert w1])
qed


end
