(* ===== verification/SyncRuns.thy ===== *)
theory SyncRuns
  imports SyncSystem
begin

text \<open>
  Runs of the sync use case: the Secrets of the cluster change, somebody edits the vault, and
  syncs are attempted, in any order. What holds after every run is proved by induction over the
  steps: where the imported certificates come from, and how many versions are made.
\<close>

section \<open>Runs\<close>

datatype sync_step =
    Edit cluster
  | Tamper fk_server
  | Attempt profile sync_request time

text \<open>
  An edit of the vault that is not an import leaves the log of the imports alone. All requests are
  for the vault of the server.
\<close>

inductive sync_runs ::
  "platform \<Rightarrow> decode_chain \<Rightarrow> x509_lib \<Rightarrow> cluster \<times> fk_world \<Rightarrow> sync_step list \<Rightarrow> cluster \<times> fk_world \<Rightarrow> bool"
  for P dec L where
  runs_start: "sync_runs P dec L s [] s"
| runs_edit: "sync_runs P dec L s es (c, w) \<Longrightarrow> sync_runs P dec L s (es @ [Edit c']) (c', w)"
| runs_tamper: "sync_runs P dec L s es (c, w) \<Longrightarrow> fs_imports v = fs_imports (snd w) \<Longrightarrow>
    sync_runs P dec L s (es @ [Tamper v]) (c, (fst w, v))"
| runs_attempt: "sync_runs P dec L s es (c, w) \<Longrightarrow> vr_VaultURL (rq_Vault req) = server_URL \<Longrightarrow>
    Sync P (the_operator P dec L p c (\<lambda>_. now)) req w = (r, w') \<Longrightarrow>
    sync_runs P dec L s (es @ [Attempt p req now]) (c, w')"

section \<open>One attempt\<close>

text \<open>The bundle of a Secret, if there is one and it can be parsed.\<close>

definition secret_bundle :: "x509_lib \<Rightarrow> cluster \<Rightarrow> secret_ref \<Rightarrow> cert_bundle option" where
  "secret_bundle L c ref =
     (case fst (SecretSource_Load L (cluster_reader (\<lambda>_. c)) ref ()) of Inl _ \<Rightarrow> None | Inr b \<Rightarrow> Some b)"

lemma Load_secret:
  "\<exists>r. SecretSource_Load L (cluster_reader (\<lambda>_. c)) ref w = (r, w) \<and>
     secret_bundle L c ref = (case r of Inl _ \<Rightarrow> None | Inr b \<Rightarrow> Some b)"
  by (auto simp: secret_bundle_def SecretSource_Load_def cluster_reader_def io_simps split: option.splits sum.splits)

lemma secret_bundle_Some:
  assumes "secret_bundle L c ref = Some b"
  shows "SecretSource_Load L (cluster_reader (\<lambda>_. c)) ref w = (Inr b, w)"
proof -
  obtain r where "SecretSource_Load L (cluster_reader (\<lambda>_. c)) ref w = (r, w)"
    "secret_bundle L c ref = (case r of Inl _ \<Rightarrow> None | Inr b \<Rightarrow> Some b)"
    using Load_secret [of L c ref w] by blast
  then show ?thesis using assms by (cases r) simp_all
qed

lemma encode_pure: "snd (en_Encode (the_encoder (checked_p12 dec) p) ob w) = (w :: 'a)"
proof -
  have "io_keeps (id :: 'a \<Rightarrow> 'a) (EncodeBundle (checked_p12 dec) p ob)"
    by (rule EncodeBundle_keeps) (auto simp: checked_p12_def intro!: io_keep)
  then show ?thesis by (simp add: io_keeps_def the_encoder_def)
qed

text \<open>
  An attempt leaves the server as it was, unless it succeeds with an import; then it has stored
  exactly one import, of the leaf of the bundle of the Secret, which is valid then and which the
  vault did not hold. A request for any other vault leaves the server alone.
\<close>

definition attempted ::
  "platform \<Rightarrow> x509_lib \<Rightarrow> cluster \<Rightarrow> sync_request \<Rightarrow> time \<Rightarrow> fk_world \<Rightarrow> sync_outcome go_result \<Rightarrow> fk_world \<Rightarrow> bool" where
  "attempted P L c req now w r w' \<longleftrightarrow> fk_wf w' \<and> (snd w' = snd w \<or>
     (\<exists>out b rq chain. vr_VaultURL (rq_Vault req) = server_URL \<and> r = Inr out \<and> so_Action out = ActionImport \<and>
        secret_bundle L c (rq_Source req) = Some b \<and> Validate b now = Inr () \<and>
        sync_name P req b = Inr (so_CertificateName out) \<and> valid_vault_name (so_CertificateName out) \<and>
        ir_Tags rq = tagsFor P req b \<and> \<not> holds_bundle P (fk_view w (named_ref req (so_CertificateName out))) b \<and>
        snd w' = store_import P (so_CertificateName out) rq (bd_Leaf b) chain (snd w)))"

lemma attempted_kept: "fk_wf w' \<Longrightarrow> snd w' = snd w \<Longrightarrow> attempted P L c req now w r w'"
  by (simp add: attempted_def)

lemma attempted_import:
  assumes "vr_VaultURL (rq_Vault req) = server_URL"
    and "secret_bundle L c (rq_Source req) = Some b" and "DecideSync P (Some b) (fk_view w (named_ref req n)) now = Inr d"
    and "dc_Action d = ActionImport" and "sync_name P req b = Inr n" and "valid_vault_name n" and "ir_Tags rq = tagsFor P req b"
    and "so_CertificateName out = n" and "so_Action out = ActionImport" and "cached_by id clients" and "v = snd w"
  shows "attempted P L c req now w (Inr out) (clients, store_import P n rq (bd_Leaf b) chain v)"
proof -
  have "Validate b now = Inr ()" using assms(3) DecideSync_Inr by blast
  moreover have "\<not> holds_bundle P (fk_view w (named_ref req n)) b" using DecideSync_action [OF assms(3)] assms(4) by simp
  ultimately show ?thesis using assms by (fastforce simp: attempted_def fk_wf_def)
qed

text \<open>The ports of the operator, by what they do to the postcondition.\<close>

lemma post_load:
  "(\<And>e. Q (Inl e) w) \<Longrightarrow> (\<And>b. secret_bundle L c ref = Some b \<Longrightarrow> Q (Inr b) w) \<Longrightarrow>
     io_post Q (SecretSource_Load L (cluster_reader (\<lambda>_. c)) ref) w"
  using Load_secret [of L c ref w] by (force simp: io_post_def split: sum.splits)

lemma snapshot_elsewhere:
  assumes "fk_wf w" and "vr_VaultURL ref \<noteq> server_URL"
  shows "\<exists>e w'. repo_Snapshot (fake_sdk P dec) ref w = (Inl e, w') \<and> fk_wf w' \<and> snd w' = snd w"
proof -
  obtain clients where "clientFor (fake_sdk P dec) (vr_VaultURL ref) w = (Inr (vr_VaultURL ref), (clients, snd w))"
    "cached_by id clients" using fk_clientFor [OF assms(1)] by blast
  with assms(2) show ?thesis
    by (simp add: repo_Snapshot_def io_simps outside_def fake_sdk_def isNotFound_def fk_wf_def)
qed

lemma post_snapshot:
  assumes "fk_wf w"
    and "\<And>w'. vr_VaultURL (rq_Vault req) = server_URL \<Longrightarrow> fk_wf w' \<Longrightarrow> snd w' = snd w \<Longrightarrow> Q (Inr (fk_view w (named_ref req n))) w'"
    and "\<And>e w'. fk_wf w' \<Longrightarrow> snd w' = snd w \<Longrightarrow> Q (Inl e) w'"
  shows "io_post Q (repo_Snapshot (fake_sdk P dec) (named_ref req n)) w"
proof (cases "vr_VaultURL (rq_Vault req) = server_URL")
  case True
  then show ?thesis using fk_snapshot [OF assms(1), of "named_ref req n" P dec] assms(2) by (auto simp: io_post_def)
next
  case False
  then have "vr_VaultURL (named_ref req n) \<noteq> server_URL" by (simp add: named_ref_def)
  from snapshot_elsewhere [OF assms(1) this, of P dec] show ?thesis using assms(3) by (auto simp: io_post_def)
qed

lemma post_encode:
  assumes "\<And>e. Q (Inl e) w" and "\<And>blob pw. archive_leaf_of dec blob pw = Some (bd_Leaf b) \<Longrightarrow> Q (Inr (blob, pw)) w"
  shows "io_post Q (en_Encode (the_encoder (checked_p12 dec) p) (Some b)) w"
proof (rule io_postI)
  fix r w' assume e: "en_Encode (the_encoder (checked_p12 dec) p) (Some b) w = (r, w')"
  then have "w' = w" using encode_pure by (metis snd_conv)
  with e assms pkcs12_encoder.encode_leaf show "Q r w'" by (cases r) force+
qed

lemma post_import:
  assumes "fk_wf w" and "vr_VaultURL (rq_Vault req) = server_URL" and "archive_leaf_of dec (ir_Blob rq) (ir_Password rq) = Some leaf"
    and "\<And>clients chain res. cached_by id clients \<Longrightarrow> Q (Inr res) (clients, store_import P n rq leaf chain (snd w))"
  shows "io_post Q (repo_Import (fake_sdk P dec) (named_ref req n) rq) w"
  using fk_import_cases [OF assms(1), where ref="named_ref req n" and dec=dec and rq=rq and P=P] assms(2-4)
  by (auto simp: io_post_def named_ref_def fk_served_def)

lemma attempt_step:
  assumes "fk_wf w" and "Sync P (the_operator P dec L p c (\<lambda>_. now)) req w = (r, w')"
  shows "attempted P L c req now w r w'"
proof -
  let ?op = "the_operator P dec L p c (\<lambda>_. now)"
  have ports: "sy_Source ?op = SecretSource_Load L (cluster_reader (\<lambda>_. c))"
    "vp_Snapshot (sy_Vault ?op) = repo_Snapshot (fake_sdk P dec)" "vp_Import (sy_Vault ?op) = repo_Import (fake_sdk P dec)"
    "sy_Encode ?op = the_encoder (checked_p12 dec) p" "sy_Clock ?op v = (now, v)" for v
    by (simp_all add: the_operator_def Repository_def)
  have "io_post (attempted P L c req now w) (Sync P ?op req) w"
    unfolding Sync_def Let_def
    using assms(1)
    by (auto simp: io_wp ports Validate_Inr_iff named_ref_def [symmetric]
       intro!: post_load post_snapshot post_encode post_import intro: attempted_kept intro!: attempted_import split: sum.split prod.split)
  from io_post_run [OF this assms(2)] show ?thesis .
qed

lemma attemptedE:
  assumes "attempted P L c req now w r w'"
  obtains (kept) "snd w' = snd w"
    | (stored) out b rq chain where "vr_VaultURL (rq_Vault req) = server_URL" and "r = Inr out" and "so_Action out = ActionImport"
      and "secret_bundle L c (rq_Source req) = Some b" and "Validate b now = Inr ()"
      and "sync_name P req b = Inr (so_CertificateName out)" and "valid_vault_name (so_CertificateName out)"
      and "ir_Tags rq = tagsFor P req b" and "\<not> holds_bundle P (fk_view w (named_ref req (so_CertificateName out))) b"
      and "snd w' = store_import P (so_CertificateName out) rq (bd_Leaf b) chain (snd w)"
  using assms unfolding attempted_def by blast

lemma store_imports: "fs_imports (store_import P name rq leaf chain s) = fs_imports s @
    [\<lparr> fi_Name = name, fi_ContentType = ir_ContentType rq, fi_Tags = ir_Tags rq, fi_Leaf = leaf,
       fi_Chain = chain, fi_Thumbprint = sha1_Sum P (x_Raw leaf), fi_Version = version_of (Suc (fs_counter s)) \<rparr>]"
  by (simp add: store_import_def Let_def)

lemma ImportCount_store:
  "ImportCount (store_import P name' rq leaf chain s) name = ImportCount s name + (if name' = name then 1 else 0)"
  by (simp add: ImportCount_def store_imports)

section \<open>Runs keep the cache sound\<close>

lemma runs_wf: "sync_runs P dec L s es s' \<Longrightarrow> fk_wf (snd s) \<Longrightarrow> fk_wf (snd s')"
proof (induction rule: sync_runs.induct)
  case (runs_attempt s es c w req p now r w')
  then show ?case using attempt_step [OF _ runs_attempt.hyps(3)] unfolding attempted_def by (metis snd_conv)
qed (auto simp: fk_wf_def)

section \<open>Where the imports come from\<close>

definition clusters_of :: "cluster \<Rightarrow> sync_step list \<Rightarrow> cluster set" where
  "clusters_of c es = insert c {c'. Edit c' \<in> set es}"

lemma runs_cluster: "sync_runs P dec L s es s' \<Longrightarrow> fst s' \<in> clusters_of (fst s) es"
  by (induction rule: sync_runs.induct) (auto simp: clusters_of_def)

text \<open>An import that an attempt of the run has made.\<close>

definition imported_in :: "platform \<Rightarrow> x509_lib \<Rightarrow> cluster \<Rightarrow> sync_step list \<Rightarrow> fk_import \<Rightarrow> bool" where
  "imported_in P L c es i \<longleftrightarrow>
     (\<exists>p req now c' b. Attempt p req now \<in> set es \<and> c' \<in> clusters_of c es \<and>
        secret_bundle L c' (rq_Source req) = Some b \<and> Validate b now = Inr () \<and>
        sync_name P req b = Inr (fi_Name i) \<and> fi_Leaf i = bd_Leaf b)"

lemma imported_in_mono: "imported_in P L c es i \<Longrightarrow> imported_in P L c (es @ es') i"
  by (force simp: imported_in_def clusters_of_def)

lemma attempt_adds:
  assumes "fk_wf w" and "Sync P (the_operator P dec L p c (\<lambda>_. now)) req w = (r, w')" and "c \<in> clusters_of c0 es"
  shows "\<exists>news. fs_imports (snd w') = fs_imports (snd w) @ news \<and>
     list_all (imported_in P L c0 (es @ [Attempt p req now])) news"
  using attempt_step [OF assms(1,2)]
proof (cases rule: attemptedE)
  case kept
  then show ?thesis by (intro exI [of _ "[]"]) simp
next
  case (stored out b rq chain)
  let ?es = "es @ [Attempt p req now]"
  have "imported_in P L c0 ?es i" if "fi_Name i = so_CertificateName out" "fi_Leaf i = bd_Leaf b" for i
    unfolding imported_in_def
    by (rule exI [of _ p], rule exI [of _ req], rule exI [of _ now], rule exI [of _ c], rule exI [of _ b])
      (use stored assms(3) that in \<open>auto simp: clusters_of_def\<close>)
  with stored(10) show ?thesis by (simp add: store_imports)
qed

text \<open>
  Whatever happens to the Secrets and to the vault, and whatever is attempted in between, each
  version that is added to Key Vault is the leaf of a bundle that the Secret of an attempted
  request held at some time, which was valid when it was attempted, under the name that this
  request gives it; and no version is ever taken back.
\<close>
theorem imports_provenance:
  assumes "sync_runs P dec L (c, w) es (c', w')" and "fk_wf w"
  shows "\<exists>news. fs_imports (snd w') = fs_imports (snd w) @ news \<and> list_all (imported_in P L c es) news"
proof -
  have "\<exists>news. fs_imports (snd (snd s')) = fs_imports (snd (snd s)) @ news \<and> list_all (imported_in P L (fst s) es) news"
    if "sync_runs P dec L s es s'" "fk_wf (snd s)" for s s'
    using that
  proof (induction rule: sync_runs.induct)
    case (runs_start s)
    then show ?case by simp
  next
    case (runs_edit s es c w c')
    then show ?case using imported_in_mono by (fastforce simp: list_all_iff)
  next
    case (runs_tamper s es c w v)
    then show ?case using imported_in_mono by (fastforce simp: list_all_iff)
  next
    case (runs_attempt s es c w req p now r w')
    obtain news where n: "fs_imports (snd w) = fs_imports (snd (snd s)) @ news" "list_all (imported_in P L (fst s) es) news"
      using runs_attempt.IH [OF runs_attempt.prems] by auto
    have wf: "fk_wf w" using runs_wf [OF runs_attempt.hyps(1) runs_attempt.prems] by simp
    have c: "c \<in> clusters_of (fst s) es" using runs_cluster [OF runs_attempt.hyps(1)] by simp
    obtain more where "fs_imports (snd w') = fs_imports (snd w) @ more"
      "list_all (imported_in P L (fst s) (es @ [Attempt p req now])) more"
      using attempt_adds [OF wf runs_attempt.hyps(3) c] by blast
    with n imported_in_mono show ?case
      by (intro exI [of _ "news @ more"]) (force simp: list_all_iff)
  qed
  from this [OF assms(1)] assms(2) show ?thesis by simp
qed

section \<open>How many versions are made\<close>

fun cluster_after :: "cluster \<Rightarrow> sync_step list \<Rightarrow> cluster" where
  "cluster_after c [] = c"
| "cluster_after c (Edit c' # es) = cluster_after c' es"
| "cluster_after c (Tamper v # es) = cluster_after c es"
| "cluster_after c (Attempt p req now # es) = cluster_after c es"

text \<open>The edits that change the bundle of a Secret, and the edits of the vault.\<close>

fun disturbances :: "x509_lib \<Rightarrow> secret_ref \<Rightarrow> cluster \<Rightarrow> sync_step list \<Rightarrow> nat" where
  "disturbances L ref c [] = 0"
| "disturbances L ref c (Edit c' # es) =
     (if secret_bundle L c' ref = secret_bundle L c ref then 0 else 1) + disturbances L ref c' es"
| "disturbances L ref c (Tamper v # es) = 1 + disturbances L ref c es"
| "disturbances L ref c (Attempt p req now # es) = disturbances L ref c es"

lemma cluster_after_append: "cluster_after c (es @ fs) = cluster_after (cluster_after c es) fs"
  by (induction c es rule: cluster_after.induct) simp_all

lemma disturbances_append:
  "disturbances L ref c (es @ fs) = disturbances L ref c es + disturbances L ref (cluster_after c es) fs"
  by (induction L ref c es rule: disturbances.induct) simp_all

lemma runs_cluster_after: "sync_runs P dec L s es s' \<Longrightarrow> fst s' = cluster_after (fst s) es"
  by (induction rule: sync_runs.induct) (simp_all add: cluster_after_append)

text \<open>Whether the next sync has something to import.\<close>

definition due :: "platform \<Rightarrow> x509_lib \<Rightarrow> sync_request \<Rightarrow> cluster \<Rightarrow> fk_world \<Rightarrow> nat" where
  "due P L req c w =
     (case secret_bundle L c (rq_Source req) of
        None \<Rightarrow> 1
      | Some b \<Rightarrow> if holds_bundle P (fk_view w (rq_Vault req)) b then 0 else 1)"

lemma due_le: "due P L req c w \<le> 1"
  by (simp add: due_def split: option.split)

lemma due_view:
  "fk_view w' (rq_Vault req) = fk_view w (rq_Vault req) \<Longrightarrow> due P L req c w' = due P L req c w"
  by (simp add: due_def split: option.split)

text \<open>An import of the request was due, and afterwards none is.\<close>

lemma attempt_due:
  assumes "fk_wf w" and "vr_VaultURL (rq_Vault req) = server_URL" and "vr_CertificateName (rq_Vault req) \<noteq> []"
    and "Sync P (the_operator P dec L p c (\<lambda>_. now)) req w = (Inr out, w')" and "so_Action out = ActionImport"
    and "secret_bundle L c (rq_Source req) = Some b"
    and "sync_name P req b = Inr (so_CertificateName out)"
  shows "due P L req c w = 1 \<and> due P L req c w' = 0 \<and> so_CertificateName out = vr_CertificateName (rq_Vault req)"
proof -
  have n: "so_CertificateName out = vr_CertificateName (rq_Vault req)"
    using assms(3,7) by (simp add: sync_name_def)
  then have ref: "named_ref req (so_CertificateName out) = rq_Vault req" by (simp add: named_ref_def)
  note l = secret_bundle_Some [OF assms(6), of w]
  note run = assms(4) [unfolded the_operator_def]
  have served: "fk_served (named_ref req (so_CertificateName out))" using assms(2) by simp
  have "\<not> holds_bundle P (fk_view w (rq_Vault req)) b"
    using keyvault_sync.Sync_idle [OF run assms(1) served l] assms(5) ref by auto
  moreover have "holds_bundle P (fk_view w' (rq_Vault req)) b"
    using keyvault_sync.Sync_holds [OF run assms(1) served l] ref by simp
  ultimately show ?thesis using n assms(6) by (simp add: due_def)
qed

lemma attempt_count:
  assumes "fk_wf w" and "Sync P (the_operator P dec L p c (\<lambda>_. now)) rq w = (r, w')"
    and "vr_VaultURL (rq_Vault req) = server_URL" and "vr_CertificateName (rq_Vault req) = name" and "name \<noteq> []"
    and "\<And>b. rq \<noteq> req \<Longrightarrow> sync_name P rq b \<noteq> Inr name"
  shows "ImportCount (snd w') name + due P L req c w' \<le> ImportCount (snd w) name + due P L req c w"
  using attempt_step [OF assms(1,2)]
proof (cases rule: attemptedE)
  case kept
  show ?thesis unfolding due_view [OF fk_view_snd [OF kept, THEN fun_cong]] unfolding kept by (rule order_refl)
next
  case (stored out b rq' chain)
  show ?thesis
  proof (cases "rq = req")
    case True
    have ne: "vr_CertificateName (rq_Vault req) \<noteq> []" using assms(4,5) by simp
    have "due P L req c w = 1 \<and> due P L req c w' = 0 \<and> so_CertificateName out = name"
      using attempt_due [OF assms(1,3) ne assms(2) [unfolded True stored(2)] stored(3) stored(4,6) [unfolded True]]
      unfolding assms(4) .
    with stored(10) show ?thesis by (simp add: ImportCount_store)
  next
    case False
    then have n: "so_CertificateName out \<noteq> name" using assms(6) stored(6) by fastforce
    then have v: "fk_view w' (rq_Vault req) = fk_view w (rq_Vault req)"
      using stored(10) fk_view_store_other [of "rq_Vault req" "so_CertificateName out" "fst w'" P rq' "bd_Leaf b" chain w] assms(4)
      by (metis prod.collapse)
    show ?thesis unfolding due_view [OF v] stored(10) using n by (simp add: ImportCount_store)
  qed
qed

text \<open>The imports under a name, and whether one is due, after a run.\<close>

lemma versions_runs:
  fixes P L req name
  defines "made \<equiv> \<lambda>s. ImportCount (snd (snd s)) name + due P L req (fst s) (snd s) :: nat"
  assumes "sync_runs P dec L s es s'" and "fk_wf (snd s)"
    and "vr_VaultURL (rq_Vault req) = server_URL" and "vr_CertificateName (rq_Vault req) = name" and "name \<noteq> []"
    and "\<And>p rq now b. Attempt p rq now \<in> set es \<Longrightarrow> rq \<noteq> req \<Longrightarrow> sync_name P rq b \<noteq> Inr name"
  shows "made s' \<le> made s + disturbances L (rq_Source req) (fst s) es"
  using assms(2,3,7)
proof (induction rule: sync_runs.induct)
  case (runs_start s)
  then show ?case by simp
next
  case (runs_edit s es c w c')
  have ih: "made (c, w) \<le> made s + disturbances L (rq_Source req) (fst s) es"
    using runs_edit.IH runs_edit.prems by auto
  have c: "cluster_after (fst s) es = c" using runs_cluster_after [OF runs_edit.hyps] by simp
  show ?case
  proof (cases "secret_bundle L c' (rq_Source req) = secret_bundle L c (rq_Source req)")
    case True
    then have "due P L req c' w = due P L req c w" by (simp add: due_def)
    with ih show ?thesis by (simp add: made_def disturbances_append)
  next
    case False
    with ih due_le [of P L req c' w] show ?thesis by (simp add: made_def disturbances_append c)
  qed
next
  case (runs_tamper s es c w v)
  have ih: "made (c, w) \<le> made s + disturbances L (rq_Source req) (fst s) es"
    using runs_tamper.IH runs_tamper.prems by auto
  have "ImportCount v name = ImportCount (snd w) name" using runs_tamper.hyps(2) by (simp add: ImportCount_def)
  with ih due_le [of P L req c "(fst w, v)"] show ?case by (simp add: made_def disturbances_append)
next
  case (runs_attempt s es c w rq p now r w')
  have ih: "made (c, w) \<le> made s + disturbances L (rq_Source req) (fst s) es"
    using runs_attempt.IH runs_attempt.prems by auto
  have wf: "fk_wf w" using runs_wf [OF runs_attempt.hyps(1) runs_attempt.prems(1)] by simp
  have "ImportCount (snd w') name + due P L req c w' \<le> ImportCount (snd w) name + due P L req c w"
  proof (rule attempt_count [OF wf runs_attempt.hyps(3) assms(4-6)])
    show "sync_name P rq b \<noteq> Inr name" if "rq \<noteq> req" for b
      using runs_attempt.prems(2) [of p rq now] that by simp
  qed
  with ih show ?case by (simp add: made_def disturbances_append)
qed

text \<open>
  C17. Versions do not pile up. While no other request writes under the name of a request, however
  often it is attempted, and at whatever times, the number of versions made under its name is at
  most the number of times that the bundle of its Secret changed or somebody edited the vault,
  plus one if the vault did not hold the bundle in the beginning.
\<close>
theorem versions_bounded:
  assumes "sync_runs P dec L (c, w) es (c', w')" and "fk_wf w"
    and "vr_VaultURL (rq_Vault req) = server_URL" and "vr_CertificateName (rq_Vault req) = name" and "name \<noteq> []"
    and "\<And>p rq now b. Attempt p rq now \<in> set es \<Longrightarrow> rq \<noteq> req \<Longrightarrow> sync_name P rq b \<noteq> Inr name"
  shows "ImportCount (snd w') name + due P L req c' w' \<le>
     ImportCount (snd w) name + due P L req c w + disturbances L (rq_Source req) c es"
  using versions_runs [where name = name, OF assms(1) _ assms(3-5)] assms(2,6) by simp

text \<open>
  The hypothesis on the writers is needed. A second request under the same name for another
  certificate imports whenever the first one has synced, and so in turn without end: nothing
  marks the name as taken.
\<close>

lemma rival_request_imports:
  assumes "Sync P (the_operator P dec L p c t) req w = (Inr out, w')" and "fk_wf w"
    and "vr_VaultURL (rq_Vault req) = server_URL" and "vr_VaultURL (rq_Vault rival) = server_URL"
    and "secret_bundle L c (rq_Source req) = Some b" and "secret_bundle L c (rq_Source rival) = Some b'"
    and "Thumbprint P b' \<noteq> Thumbprint P b" and "Validate b' now = Inr ()"
    and "sync_name P rival b' = Inr (so_CertificateName out)"
    and "p' = ProfileLegacy \<or> p' = ProfilePasswordless \<or> p' = ProfileModern"
    and "\<And>pw. archive_leaf_of dec (x_Raw (bd_Leaf b')) pw = Some (bd_Leaf b')"
  shows "\<exists>out' w''. Sync P (the_operator P dec L p' c (\<lambda>_. now)) rival w' = (Inr out', w'') \<and>
     so_Action out' = ActionImport \<and> so_CertificateName out' = so_CertificateName out"
proof -
  note run = assms(1) [unfolded the_operator_def]
  note load = secret_bundle_Some
  have served: "fk_served (named_ref req (so_CertificateName out))" using assms(3) by simp
  have h: "fk_wf w'" "holds_bundle P (fk_view w' (named_ref req (so_CertificateName out))) b"
    using keyvault_sync.Sync_holds [OF run assms(2) served load [OF assms(5)]] by simp_all
  have "named_ref rival (so_CertificateName out) = named_ref req (so_CertificateName out)"
    using assms(3,4) by (simp add: named_ref_def)
  then have n: "\<not> holds_bundle P (fk_view w' (named_ref rival (so_CertificateName out))) b'"
    using h(2) assms(7) by (auto simp: holds_bundle_def)
  have "valid_vault_name (so_CertificateName out)" by (rule Sync_InrE [OF run]) auto
  from Sync_succeeds [OF h(1) assms(4) load [OF assms(6)] assms(9) this assms(8,10,11)] n show ?thesis by blast
qed

section \<open>An example run\<close>

lemma toy_runs:
  "\<exists>w'. sync_runs sample_platform toy_decode toy_x509 (toy_cluster, empty_world)
     [Attempt ProfileLegacy toy_request 2000, Attempt ProfileModern toy_request 3000] (toy_cluster, w')"
proof -
  let ?op = "\<lambda>p t. the_operator sample_platform toy_decode toy_x509 p toy_cluster (\<lambda>_. t)"
  obtain r1 w1 where w1: "Sync sample_platform (?op ProfileLegacy 2000) toy_request empty_world = (r1, w1)" by (metis surj_pair)
  obtain r2 w2 where w2: "Sync sample_platform (?op ProfileModern 3000) toy_request w1 = (r2, w2)" by (metis surj_pair)
  note step = runs_attempt [OF _ toy_facts(2)]
  from step [OF step [OF runs_start w1] w2] show ?thesis unfolding append.simps by (rule exI)
qed

lemma imports_provenance_witness:
  "\<exists>w'. sync_runs sample_platform toy_decode toy_x509 (toy_cluster, empty_world)
     [Attempt ProfileLegacy toy_request 2000, Attempt ProfileModern toy_request 3000] (toy_cluster, w') \<and>
     list_all (imported_in sample_platform toy_x509 toy_cluster
       [Attempt ProfileLegacy toy_request 2000, Attempt ProfileModern toy_request 3000]) (fs_imports (snd w'))"
proof -
  obtain w' where r: "sync_runs sample_platform toy_decode toy_x509 (toy_cluster, empty_world)
     [Attempt ProfileLegacy toy_request 2000, Attempt ProfileModern toy_request 3000] (toy_cluster, w')"
    using toy_runs by blast
  have "list_all (imported_in sample_platform toy_x509 toy_cluster
      [Attempt ProfileLegacy toy_request 2000, Attempt ProfileModern toy_request 3000]) (fs_imports (snd w'))"
    using imports_provenance [OF r toy_facts(1)] by (auto simp: empty_world_def)
  with r show ?thesis by blast
qed

lemma versions_bounded_witness:
  "\<exists>w'. sync_runs sample_platform toy_decode toy_x509 (toy_cluster, empty_world)
     [Attempt ProfileLegacy toy_request 2000, Attempt ProfileModern toy_request 3000] (toy_cluster, w') \<and>
     ImportCount (snd w') ''x-com'' \<le> 1"
proof -
  obtain w' where r: "sync_runs sample_platform toy_decode toy_x509 (toy_cluster, empty_world)
     [Attempt ProfileLegacy toy_request 2000, Attempt ProfileModern toy_request 3000] (toy_cluster, w')"
    using toy_runs by blast
  have n: "vr_CertificateName (rq_Vault toy_request) = ''x-com''" by (simp add: toy_request_def)
  have "ImportCount (snd w') ''x-com'' + due sample_platform toy_x509 toy_request toy_cluster w' \<le>
      ImportCount (snd empty_world) ''x-com'' + due sample_platform toy_x509 toy_request toy_cluster empty_world +
      disturbances toy_x509 (rq_Source toy_request) toy_cluster
        [Attempt ProfileLegacy toy_request 2000, Attempt ProfileModern toy_request 3000]"
    by (rule versions_bounded [OF r toy_facts(1,2) n]) auto
  moreover have "ImportCount (snd empty_world) ''x-com'' = 0" by (simp add: ImportCount_def empty_world_def)
  ultimately have "ImportCount (snd w') ''x-com'' \<le> 1"
    using due_le [of sample_platform toy_x509 toy_request toy_cluster empty_world] by simp
  with r show ?thesis by blast
qed

end
