(* ===== verification/OperatorRuns.thy ===== *)
theory OperatorRuns
  imports EndToEnd SyncRuns
begin

text \<open>
  Runs of the operator: reconciliations of both controllers, in any order and at any times, among
  changes of the cluster and of the vault by others and restarts of the process. What holds after
  every run is proved by induction over its steps.
\<close>

section \<open>What a reconciliation does to the world\<close>

text \<open>The request that the sync controller makes for a resource.\<close>

definition request_of :: "cert_sync \<Rightarrow> string \<Rightarrow> sync_request" where
  "request_of s url =
     \<lparr> rq_Source = \<lparr>sr_Namespace = om_Namespace (sc_Meta s), sr_Name = lr_Name (sx_SecretRef (cx_Source (sc_Spec s)))\<rparr>,
       rq_Vault = \<lparr>vr_VaultURL = url, vr_CertificateName = kv_CertificateName (cx_KeyVault (sc_Spec s))\<rparr> \<rparr>"

text \<open>
  The Secrets are the same, and so are the sync resources up to metadata and status; only resources
  that are being deleted may be gone. Of the resources other than \<open>k\<close>, nothing at all has changed.
\<close>

definition spec_view :: "operator_world \<Rightarrow> object_key \<Rightarrow> (cert_sync_spec \<times> bool) option" where
  "spec_view w k = map_option (\<lambda>s. (sc_Spec s, deletion_requested (sc_Meta s))) (world_syncs w k)"

definition same_specs :: "operator_world \<Rightarrow> operator_world \<Rightarrow> bool" where
  "same_specs w w' \<longleftrightarrow> sv_Cluster (ow_api w') = sv_Cluster (ow_api w) \<and>
     (\<forall>k. spec_view w' k = spec_view w k \<or> spec_view w' k = None \<and> (\<exists>sp. spec_view w k = Some (sp, True)))"

definition touches :: "object_key \<Rightarrow> operator_world \<Rightarrow> operator_world \<Rightarrow> bool" where
  "touches k w w' \<longleftrightarrow> same_specs w w' \<and> (\<forall>k'. k' \<noteq> k \<longrightarrow> world_syncs w' k' = world_syncs w k')"

lemma same_specs_refl [simp]: "same_specs w w"
  by (simp add: same_specs_def)

lemma same_specs_trans [trans]:
  assumes "same_specs u v" and "same_specs v w"
  shows "same_specs u w"
proof -
  have "spec_view w k = spec_view u k \<or> spec_view w k = None \<and> (\<exists>sp. spec_view u k = Some (sp, True))" for k
    using assms unfolding same_specs_def by metis
  then show ?thesis using assms unfolding same_specs_def by simp
qed

lemma touches_refl [simp]: "touches k w w"
  by (simp add: touches_def)

lemma touches_trans: "touches k u v \<Longrightarrow> touches k v w \<Longrightarrow> touches k u w"
  unfolding touches_def using same_specs_trans by metis

text \<open>The vault, the metrics and the events are not the resources.\<close>

lemma touches_after:
  "touches k w v \<Longrightarrow> sv_Cluster (ow_api v') = sv_Cluster (ow_api v) \<Longrightarrow> sv_Syncs (ow_api v') = sv_Syncs (ow_api v) \<Longrightarrow>
     touches k w v'"
  by (simp add: touches_def same_specs_def spec_view_def world_syncs_def server_syncs_def)

lemma touches_put:
  assumes "world_syncs w (key_of (sc_Meta s)) = Some old" and "sc_Spec s = sc_Spec old"
    and "deletion_requested (sc_Meta s) \<longleftrightarrow> deletion_requested (sc_Meta old)" and "key_of (sc_Meta s) = k"
  shows "touches k w (w\<lparr>ow_api := (ow_api w)\<lparr>sv_Syncs := put_obj sync_key_of s (sv_Syncs (ow_api w))\<rparr>\<rparr>)"
proof -
  have "world_syncs (w\<lparr>ow_api := (ow_api w)\<lparr>sv_Syncs := put_obj sync_key_of s (sv_Syncs (ow_api w))\<rparr>\<rparr>) =
      (world_syncs w)(key_of (sc_Meta s) \<mapsto> s)"
    by (simp add: world_syncs_def server_syncs_def lookup_put)
  then show ?thesis using assms by (auto simp: touches_def same_specs_def spec_view_def)
qed

lemma touches_remove:
  assumes "world_syncs w k = Some old" and "deletion_requested (sc_Meta old)"
  shows "touches k w (w\<lparr>ow_api := (ow_api w)\<lparr>sv_Syncs := remove_obj sync_key_of k (sv_Syncs (ow_api w))\<rparr>\<rparr>)"
proof -
  have "world_syncs (w\<lparr>ow_api := (ow_api w)\<lparr>sv_Syncs := remove_obj sync_key_of k (sv_Syncs (ow_api w))\<rparr>\<rparr>) =
      (world_syncs w)(k := None)"
    by (simp add: world_syncs_def server_syncs_def lookup_remove)
  then show ?thesis using assms by (auto simp: touches_def same_specs_def spec_view_def)
qed

text \<open>A resource with other finalizers is the same resource.\<close>

lemma with_finalizers:
  "key_of ((sc_Meta s)\<lparr>om_Finalizers := fs\<rparr>) = key_of (sc_Meta s)"
  "deletion_requested ((sc_Meta s)\<lparr>om_Finalizers := fs\<rparr>) = deletion_requested (sc_Meta s)"
  by (simp_all add: key_of_def deletion_requested_def)

lemma touches_finalizers:
  assumes "world_syncs w k = Some s"
  shows "touches k w (w\<lparr>ow_api := (ow_api w)\<lparr>sv_Syncs :=
     put_obj sync_key_of (s\<lparr>sc_Meta := (sc_Meta s)\<lparr>om_Finalizers := fs\<rparr>\<rparr>) (sv_Syncs (ow_api w))\<rparr>\<rparr>)"
  using assms world.sync_key [OF assms] by (intro touches_put) (simp_all add: with_finalizers)

section \<open>The calls of a reconciliation, by what they do to the postcondition\<close>

lemma post_client [io_wp]:
  "io_post Q (get_sync world_client k) w =
     (case world_syncs w k of None \<Rightarrow> Q (Inl not_found) w | Some s \<Rightarrow> Q (Inr s) w)"
  "io_post Q (update_sync world_client s) w =
     (case world_syncs w (key_of (sc_Meta s)) of None \<Rightarrow> Q (Inl not_found) w
      | Some old \<Rightarrow>
          let new = s\<lparr>sc_Status := sc_Status old\<rparr> in
          if deletion_requested (sc_Meta new) \<and> om_Finalizers (sc_Meta new) = []
          then Q (Inr new) (w\<lparr>ow_api := (ow_api w)\<lparr>sv_Syncs := remove_obj sync_key_of (key_of (sc_Meta s)) (sv_Syncs (ow_api w))\<rparr>\<rparr>)
          else Q (Inr new) (w\<lparr>ow_api := (ow_api w)\<lparr>sv_Syncs := put_obj sync_key_of new (sv_Syncs (ow_api w))\<rparr>\<rparr>))"
  "io_post Q (update_sync_status world_client s) w =
     (case world_syncs w (key_of (sc_Meta s)) of None \<Rightarrow> Q (Inl not_found) w
      | Some old \<Rightarrow>
          let new = old\<lparr>sc_Status := sc_Status s\<rparr> in
          Q (Inr new) (w\<lparr>ow_api := (ow_api w)\<lparr>sv_Syncs := put_obj sync_key_of new (sv_Syncs (ow_api w))\<rparr>\<rparr>))"
  by (auto simp: io_post_def world_client_fields Let_def split: option.split)

lemma post_status:
  assumes "touches k w v" and "key_of (sc_Meta s) = k"
    and "\<And>r v'. touches k w v' \<Longrightarrow> ow_vault v' = ow_vault v \<Longrightarrow> Q r v'"
  shows "io_post Q (updateStatus (update_sync_status world_client) s) v"
proof (cases "world_syncs v k")
  case None
  then show ?thesis using assms by (simp add: updateStatus_def io_wp)
next
  case (Some old)
  have "key_of (sc_Meta old) = k" using world.sync_key Some by blast
  then have "touches k v (v\<lparr>ow_api := (ow_api v)\<lparr>sv_Syncs := put_obj sync_key_of (old\<lparr>sc_Status := sc_Status s\<rparr>)
      (sv_Syncs (ow_api v))\<rparr>\<rparr>)"
    using Some by (intro touches_put) simp_all
  from assms(3) [OF touches_trans [OF assms(1) this]] Some assms(2) show ?thesis
    by (simp add: updateStatus_def io_wp Let_def)
qed

lemma post_add_finalizer:
  assumes "world_syncs w k = Some s" and "\<not> deletion_requested (sc_Meta s)"
    and "\<And>s1 w1. sc_Spec s1 = sc_Spec s \<Longrightarrow> key_of (sc_Meta s1) = k \<Longrightarrow>
      touches k w w1 \<Longrightarrow> ow_vault w1 = ow_vault w \<Longrightarrow> Q (Inr s1) w1"
  shows "io_post Q (sync_add_finalizer G (R_world P dec L c allowed now rand) s) w"
  using assms touches_finalizers [OF assms(1)] world.sync_key [OF assms(1)]
  by (auto simp: sync_add_finalizer_def io_wp reconciler_fields with_finalizers Let_def split: prod.split)

lemma post_finalize:
  assumes "world_syncs w k = Some s" and "deletion_requested (sc_Meta s)"
    and "\<And>r w1. touches k w w1 \<Longrightarrow> ow_vault w1 = ow_vault w \<Longrightarrow> Q r w1"
  shows "io_post Q (sync_finalize G (R_world P dec L c allowed now rand) s) w"
proof -
  have metrics: "Q r (v\<lparr>ow_api := (ow_api v)\<lparr>sv_Metrics := m\<rparr>\<rparr>)"
    if "touches k w v" "ow_vault v = ow_vault w" for r v m
    using that assms(3) touches_after [OF that(1)] by simp
  show ?thesis
    using assms(1,2) world.sync_key [OF assms(1)] metrics [OF touches_refl refl] metrics [OF touches_finalizers [OF assms(1)]]
      metrics [OF touches_remove [OF assms(1,2)]]
    by (auto simp: sync_finalize_def io_wp world_reconciler_def with_finalizers Let_def split: prod.split)
qed

lemma post_sync_sync:
  assumes "\<And>e. Q (Inl e) w"
    and "\<And>url p r v. vault_url_of G allowed c (cx_KeyVault (sc_Spec s)) = Inr url \<Longrightarrow>
      Sync (lb_Platform G) (the_operator (lb_Platform G) dec L p (sv_Cluster (ow_api w)) (\<lambda>_. now)) (request_of s url) (ow_vault w) = (r, v) \<Longrightarrow>
      Q r (w\<lparr>ow_vault := v\<rparr>)"
  shows "io_post Q (sync_sync G (R_world (lb_Platform G) dec L c allowed now rand) s) w"
proof (rule io_postI)
  fix r w' assume run: "sync_sync G (R_world (lb_Platform G) dec L c allowed now rand) s w = (r, w')"
  show "Q r w'"
  proof (cases "\<exists>url p. vault_url_of G allowed c (cx_KeyVault (sc_Spec s)) = Inr url \<and>
      NewEncoder (pkcs12Profile (cx_SyncPolicy (sc_Spec s))) = Inr p")
    case False
    then have "w' = w \<and> (\<exists>e. r = Inl e)"
      using run by (auto simp: sync_sync_def io_simps reconciler_fields split: sum.splits)
    with assms(1) show ?thesis by auto
  next
    case True
    then obtain url p where u: "vault_url_of G allowed c (cx_KeyVault (sc_Spec s)) = Inr url"
      "NewEncoder (pkcs12Profile (cx_SyncPolicy (sc_Spec s))) = Inr p" by blast
    obtain r' v where v: "Sync (lb_Platform G) (the_operator (lb_Platform G) dec L p (sv_Cluster (ow_api w)) (\<lambda>_. now))
        (request_of s url) (ow_vault w) = (r', v)" by (metis surj_pair)
    have "r = r' \<and> w' = w\<lparr>ow_vault := v\<rparr>"
      using run u v Sync_on_vault [of "lb_Platform G" dec L c allowed now rand p "request_of s url" w]
      by (simp add: sync_sync_def io_simps reconciler_fields in_vault_def request_of_def)
    with assms(2) [OF u(1) v] show ?thesis by simp
  qed
qed

lemma post_applyOutcome:
  assumes "touches k w v"
    and "\<And>s' v'. sc_Meta s' = sc_Meta s \<Longrightarrow> touches k w v' \<Longrightarrow> ow_vault v' = ow_vault v \<Longrightarrow> Q (Inr s') v'"
  shows "io_post Q (applyOutcome G (R_world P dec L c allowed now rand) s outcome) v"
  by (auto simp: applyOutcome_def io_wp Let_def world_reconciler_def intro!: assms(2) touches_after [OF assms(1)])

lemma post_requeue:
  assumes "\<And>res. Q (Inr res) w"
  shows "io_post Q (requeue_jittered (\<lambda>n w. (rand n, w)) d) w"
  using assms by (simp add: requeue_jittered_def io_post_bind io_post_return)
    (simp add: io_post_def jitter_def io_return_def Let_def)

lemma post_sync_failed:
  assumes "touches k w v" and "key_of (sc_Meta s) = k"
    and "\<And>r v'. touches k w v' \<Longrightarrow> ow_vault v' = ow_vault v \<Longrightarrow> Q r v'"
  shows "io_post Q (sync_failed G (R_world P dec L c allowed now rand) s resync err) v"
  by (auto simp: sync_failed_def count_sync_def io_wp Let_def world_reconciler_def assms(2)
      intro!: post_status [where w = w and k = k] post_requeue assms(3) touches_after [OF assms(1)] split: prod.split sum.split)

text \<open>
  Reconciling a sync resource: the vault changes by the sync of its request at most, the
  specifications and the Secrets do not change, and the other resources not at all.
\<close>

definition synced ::
  "library \<Rightarrow> decode_chain \<Rightarrow> x509_lib \<Rightarrow> cloud \<Rightarrow> vault_allowlist \<Rightarrow> time \<Rightarrow> object_key \<Rightarrow> operator_world \<Rightarrow> fk_world \<Rightarrow> bool" where
  "synced G dec L c allowed now k w v \<longleftrightarrow>
     (\<exists>s url p res. world_syncs w k = Some s \<and> \<not> deletion_requested (sc_Meta s) \<and>
        vault_url_of G allowed c (cx_KeyVault (sc_Spec s)) = Inr url \<and>
        Sync (lb_Platform G) (the_operator (lb_Platform G) dec L p (sv_Cluster (ow_api w)) (\<lambda>_. now)) (request_of s url) (ow_vault w) =
          (res, v))"

text \<open>What follows when the finalizer is there.\<close>

lemma post_sync_rest:
  fixes G dec L c allowed now rand
  defines "R \<equiv> R_world (lb_Platform G) dec L c allowed now rand"
  assumes s: "world_syncs w k = Some s" "\<not> deletion_requested (sc_Meta s)"
    and 1: "sc_Spec s1 = sc_Spec s" "key_of (sc_Meta s1) = k" "touches k w w1" "ow_vault w1 = ow_vault w"
    and Q: "\<And>r w'. touches k w w' \<Longrightarrow> ow_vault w' = ow_vault w \<or> synced G dec L c allowed now k w (ow_vault w') \<Longrightarrow> Q r w'"
  shows "io_post Q (io_case (sync_sync G R s1) (sync_failed G R s1 resync)
     (\<lambda>outcome. io_bind (applyOutcome G R s1 outcome) (\<lambda>sync.
        io_bind (updateStatus (update_sync_status world_client) sync) (\<lambda>_. requeue_jittered (\<lambda>n w. (rand n, w)) resync)))) w1"
  unfolding io_post_case R_def
proof (rule post_sync_sync)
  fix e show "case Inl e of Inl e \<Rightarrow> io_post Q (sync_failed G (R_world (lb_Platform G) dec L c allowed now rand) s1 resync e) w1
    | Inr outcome \<Rightarrow> io_post Q (io_bind (applyOutcome G (R_world (lb_Platform G) dec L c allowed now rand) s1 outcome) (\<lambda>sync.
       io_bind (updateStatus (update_sync_status world_client) sync) (\<lambda>_. requeue_jittered (\<lambda>n w. (rand n, w)) resync))) w1"
    using 1(2-4) by (auto intro!: post_sync_failed [where w = w and k = k] Q)
next
  fix url p r v
  assume url: "vault_url_of G allowed c (cx_KeyVault (sc_Spec s1)) = Inr url"
    and run: "Sync (lb_Platform G) (the_operator (lb_Platform G) dec L p (sv_Cluster (ow_api w1)) (\<lambda>_. now)) (request_of s1 url)
      (ow_vault w1) = (r, v)"
  have "om_Namespace (sc_Meta s1) = om_Namespace (sc_Meta s)"
    using 1(2) world.sync_key [OF s(1)] by (auto simp: key_of_def)
  then have req: "request_of s1 url = request_of s url" using 1(1) by (simp add: request_of_def)
  have cl: "sv_Cluster (ow_api w1) = sv_Cluster (ow_api w)" using 1(3) by (simp add: touches_def same_specs_def)
  have "synced G dec L c allowed now k w v"
    unfolding synced_def using s 1(1,4) req cl url run by auto
  moreover have "touches k w (w1\<lparr>ow_vault := v\<rparr>)" by (rule touches_after [OF 1(3)]) simp_all
  ultimately show "case r of Inl e \<Rightarrow> io_post Q (sync_failed G (R_world (lb_Platform G) dec L c allowed now rand) s1 resync e) (w1\<lparr>ow_vault := v\<rparr>)
    | Inr outcome \<Rightarrow> io_post Q (io_bind (applyOutcome G (R_world (lb_Platform G) dec L c allowed now rand) s1 outcome) (\<lambda>sync.
       io_bind (updateStatus (update_sync_status world_client) sync) (\<lambda>_. requeue_jittered (\<lambda>n w. (rand n, w)) resync)))
         (w1\<lparr>ow_vault := v\<rparr>)"
    using 1(2) by (auto simp: io_post_bind intro!: post_sync_failed [where w = w and k = k] post_applyOutcome [where w = w and k = k]
        post_status [where w = w and k = k] post_requeue Q split: sum.split)
qed

lemma sync_Reconcile_touches:
  assumes "sync_Reconcile G (R_world (lb_Platform G) dec L c allowed now rand) k w = (r, w')"
  shows "touches k w w' \<and> (ow_vault w' = ow_vault w \<or> synced G dec L c allowed now k w (ow_vault w'))"
proof -
  let ?Q = "\<lambda>(r :: ctrl_result go_result) w'. touches k w w' \<and> (ow_vault w' = ow_vault w \<or> synced G dec L c allowed now k w (ow_vault w'))"
  let ?R = "R_world (lb_Platform G) dec L c allowed now rand"
  have live: "io_post ?Q (sync_live G ?R s) w" if s: "world_syncs w k = Some s" "\<not> deletion_requested (sc_Meta s)" for s
    unfolding sync_live_def io_post_bind [of _ "sync_add_finalizer G ?R s"]
    by (rule post_add_finalizer [OF s])
      (auto simp: reconciler_fields Let_def intro!: post_sync_rest [OF s])
  have "io_post ?Q (sync_Reconcile G ?R k) w"
    using live post_finalize [where Q = ?Q]
    by (cases "world_syncs w k") (auto simp: sync_Reconcile_def io_wp reconciler_fields split: sum.split)
  from io_post_run [OF this assms] show ?thesis .
qed

section \<open>The policy controller and the vault\<close>

text \<open>What is fixed when the process starts: its libraries, its flags, and which kinds the API server serves.\<close>

record operator_setup =
  os_Library :: library
  os_X509 :: x509_lib
  os_Decode :: decode_chain
  os_Cloud :: cloud
  os_AllowedVaults :: vault_allowlist
  os_HTTPRoutes :: bool
  os_Gateways :: bool
  os_Mapper :: "group_kind \<Rightarrow> string \<Rightarrow> unit go_result"

text \<open>Both controllers as \<open>cmd/manager\<close> composes them; the clock shows \<open>now\<close>, and \<open>rand\<close> draws numbers.\<close>

definition sync_controller :: "operator_setup \<Rightarrow> time \<Rightarrow> (int \<Rightarrow> int) \<Rightarrow> operator_world sync_reconciler" where
  "sync_controller S now rand =
     world_reconciler (lb_Platform (os_Library S)) (os_Decode S) (os_X509 S) (os_Cloud S) (os_AllowedVaults S) now rand"

definition policy_controller :: "operator_setup \<Rightarrow> time \<Rightarrow> (int \<Rightarrow> int) \<Rightarrow> operator_world policy_reconciler" where
  "policy_controller S now rand =
     \<lparr> pr_Client = world_client,
       pr_Recorder = Some (\<lambda>m t r a n w. w\<lparr>ow_api := (ow_api w)\<lparr>sv_Events := sv_Events (ow_api w) @ [(r, n)]\<rparr>\<rparr>),
       pr_Certificates = \<lparr>cw_Client = world_client, cw_Mapper = (\<lambda>gk v. io_lift (os_Mapper S gk v))\<rparr>,
       pr_Clock = (\<lambda>w. (now, w)), pr_HTTPRoutesAvailable = os_HTTPRoutes S, pr_GatewaysAvailable = os_Gateways S,
       pr_Cloud = os_Cloud S, pr_AllowedVaults = os_AllowedVaults S, pr_Rand = (\<lambda>n w. (rand n, w)),
       pr_Metrics = (\<lambda>f w. w\<lparr>ow_api := (ow_api w)\<lparr>sv_Metrics := f (sv_Metrics (ow_api w))\<rparr>\<rparr>) \<rparr>"

lemma in_api_keeps [io_keep]: "io_keeps ow_vault (in_api m)"
  by (simp add: io_keeps_def in_api_def split: prod.split)

lemma iterate_keeps [io_keep]: "(\<And>x. io_keeps v (f x)) \<Longrightarrow> io_keeps v (io_iterate f xs)"
  by (induction xs) (auto intro!: io_keep)

lemma do_keeps [io_keep]: "(\<And>w. v (f w) = v w) \<Longrightarrow> io_keeps v (io_do f)"
  by (simp add: io_keeps_def io_do_def)

lemma effect_keeps [io_keep]: "(\<And>w. v (snd (m w)) = v w) \<Longrightarrow> io_keeps v (io_effect m)"
  unfolding io_keeps_def io_effect_def by (auto split: prod.split) (metis snd_conv)

lemma requeue_keeps [io_keep]: "(\<And>n w. v (snd (rand n w)) = v w) \<Longrightarrow> io_keeps v (requeue_jittered rand d)"
  by (auto simp: io_keeps_def requeue_jittered_def jitter_def io_simps Let_def split: prod.split sum.split)
    (metis snd_conv)+

lemma status_keeps [io_keep]: "io_keeps v (update obj) \<Longrightarrow> io_keeps v (updateStatus update obj)"
  unfolding updateStatus_def by (intro io_keep) 

lemma event_keeps [io_keep]:
  "(\<And>f w. rc = Some f \<Longrightarrow> v (f obj t r a n w) = v w) \<Longrightarrow> io_keeps v (record_event rc obj t r a n)"
  by (cases rc) (auto simp: record_event_def intro!: io_keep)

lemma hosts_keep [io_keep]: "io_keeps v (HostSource_Hosts (cluster_reader c) h)"
  unfolding io_keeps_def using HostSource_cluster [of c h] by (metis snd_conv)

lemma prod_keeps [io_keep]: "(\<And>x y. io_keeps v (f x y)) \<Longrightarrow> io_keeps v (case p of (x, y) \<Rightarrow> f x y)"
  by (cases p) simp

lemma sum_keeps [io_keep]:
  "(\<And>e. io_keeps v (f e)) \<Longrightarrow> (\<And>x. io_keeps v (g x)) \<Longrightarrow> io_keeps v (case r of Inl e \<Rightarrow> f e | Inr x \<Rightarrow> g x)"
  by (cases r) simp_all

lemma policy_fields:
  "get_policy world_client k = in_api (get_policy memory_client k)"
  "update_policy world_client p = in_api (update_policy memory_client p)"
  "update_policy_status world_client p = in_api (update_policy_status memory_client p)"
  "list_syncs world_client ns sel = in_api (list_syncs memory_client ns sel)"
  "delete_sync world_client s = in_api (delete_sync memory_client s)"
  "upsert_sync world_client s g = in_api (upsert_sync memory_client s g)"
  "list_certificates world_client ns sel = in_api (list_certificates memory_client ns sel)"
  "delete_certificate world_client ct = in_api (delete_certificate memory_client ct)"
  "upsert_certificate world_client ct h = in_api (upsert_certificate memory_client ct h)"
  "cl_Reader world_client = cluster_reader (\<lambda>w. sv_Cluster (ow_api w))"
  by (simp_all add: world_client_def)

text \<open>Whatever a policy says, reconciling it never touches the vault.\<close>

lemma policy_Reconcile_vault: "io_keeps ow_vault (policy_Reconcile G (policy_controller S now rand) k)"
  unfolding policy_Reconcile_def policy_finalize_def policy_live_def policy_add_finalizer_def generatedCertificateNames_def
    policy_plan_def discovery_failed_def policy_planned_def recordPlan_def Available_def issue_degraded_def policy_issue_def
    policy_apply_def EnsureCertificate_def ensureSync_def issuance_failed_def handleOrphans_def prune_item_def policy_done_def
    PlanState_def Let_def policy_controller_def policy_reconciler.select_convs certificate_writer.select_convs policy_fields
  by (intro io_keep conjI impI) (auto intro!: io_keep)

section \<open>Runs\<close>

datatype operator_step =
    ReconcileSync object_key time
  | ReconcilePolicy object_key time
  | ClusterChange
  | VaultChange
  | Restart

text \<open>
  Others may change anything in the cluster at any time, and in the vault everything but the log of
  the imports. A restart loses what the process holds in memory, which is the cache of its clients.
\<close>

inductive operator_runs :: "operator_setup \<Rightarrow> operator_world \<Rightarrow> operator_step list \<Rightarrow> operator_world \<Rightarrow> bool" for S where
  run_start: "operator_runs S w [] w"
| run_sync: "operator_runs S w0 es w \<Longrightarrow> sync_Reconcile (os_Library S) (sync_controller S now rand) k w = (r, w') \<Longrightarrow>
    operator_runs S w0 (es @ [ReconcileSync k now]) w'"
| run_policy: "operator_runs S w0 es w \<Longrightarrow> policy_Reconcile (os_Library S) (policy_controller S now rand) k w = (r, w') \<Longrightarrow>
    operator_runs S w0 (es @ [ReconcilePolicy k now]) w'"
| run_cluster: "operator_runs S w0 es w \<Longrightarrow> operator_runs S w0 (es @ [ClusterChange]) (w\<lparr>ow_api := a\<rparr>)"
| run_vault: "operator_runs S w0 es w \<Longrightarrow> fs_imports v = fs_imports (snd (ow_vault w)) \<Longrightarrow>
    operator_runs S w0 (es @ [VaultChange]) (w\<lparr>ow_vault := (fst (ow_vault w), v)\<rparr>)"
| run_restart: "operator_runs S w0 es w \<Longrightarrow> operator_runs S w0 (es @ [Restart]) (w\<lparr>ow_vault := ([], snd (ow_vault w))\<rparr>)"

text \<open>
  Why a version is there: at the time of a reconciliation there was a resource for it, not being
  deleted, for a vault that it may use, whose Secret held the bundle, valid at that time, which the
  vault did not hold under the name that the resource gives it.
\<close>

definition justified :: "operator_setup \<Rightarrow> operator_world \<Rightarrow> object_key \<Rightarrow> time \<Rightarrow> fk_import \<Rightarrow> bool" where
  "justified S w k now i \<longleftrightarrow>
     (\<exists>s b. world_syncs w k = Some s \<and> \<not> deletion_requested (sc_Meta s) \<and>
        vault_url_of (os_Library S) (os_AllowedVaults S) (os_Cloud S) (cx_KeyVault (sc_Spec s)) = Inr server_URL \<and>
        secret_bundle (os_X509 S) (sv_Cluster (ow_api w)) (rq_Source (request_of s server_URL)) = Some b \<and>
        Validate b now = Inr () \<and> sync_name (lb_Platform (os_Library S)) (request_of s server_URL) b = Inr (fi_Name i) \<and>
        valid_vault_name (fi_Name i) \<and> fi_Leaf i = bd_Leaf b \<and>
        fi_Tags i = tagsFor (lb_Platform (os_Library S)) (request_of s server_URL) b \<and>
        \<not> holds_bundle (lb_Platform (os_Library S))
            (fk_view (ow_vault w) \<lparr>vr_VaultURL = server_URL, vr_CertificateName = fi_Name i\<rparr>) b)"

lemma reconcile_adds:
  assumes "fk_wf (ow_vault w)" and "sync_Reconcile (os_Library S) (sync_controller S now rand) k w = (r, w')"
  shows "fk_wf (ow_vault w') \<and> (snd (ow_vault w') = snd (ow_vault w) \<or>
     (\<exists>i. fs_imports (snd (ow_vault w')) = fs_imports (snd (ow_vault w)) @ [i] \<and> justified S w k now i))"
proof -
  note step = sync_Reconcile_touches [OF assms(2) [unfolded sync_controller_def]]
  show ?thesis
  proof (cases "ow_vault w' = ow_vault w")
    case True
    with assms(1) show ?thesis by simp
  next
    case False
    with step obtain s url p res where s: "world_syncs w k = Some s" "\<not> deletion_requested (sc_Meta s)"
      "vault_url_of (os_Library S) (os_AllowedVaults S) (os_Cloud S) (cx_KeyVault (sc_Spec s)) = Inr url"
      and run: "Sync (lb_Platform (os_Library S)) (the_operator (lb_Platform (os_Library S)) (os_Decode S) (os_X509 S) p
        (sv_Cluster (ow_api w)) (\<lambda>_. now)) (request_of s url) (ow_vault w) = (res, ow_vault w')"
      unfolding synced_def by blast
    note att = attempt_step [OF assms(1) run]
    from att show ?thesis
    proof (cases rule: attemptedE)
      case kept
      with att show ?thesis by (simp add: attempted_def)
    next
      case (stored out b rq chain)
      then have url: "url = server_URL" by (simp add: request_of_def)
      have "justified S w k now i" if "fi_Name i = so_CertificateName out" "fi_Leaf i = bd_Leaf b" "fi_Tags i = ir_Tags rq" for i
        unfolding justified_def
        by (rule exI [of _ s], rule exI [of _ b]) (use s stored that url in \<open>simp add: request_of_def named_ref_def\<close>)
      with stored(10) att show ?thesis by (auto simp: store_imports attempted_def)
    qed
  qed
qed

lemma operator_runs_wf: "operator_runs S w es w' \<Longrightarrow> fk_wf (ow_vault w) \<Longrightarrow> fk_wf (ow_vault w')"
proof (induction rule: operator_runs.induct)
  case (run_sync w0 es w now rand k r w')
  then show ?case using reconcile_adds by blast
next
  case (run_policy w0 es w now rand k r w')
  then show ?case using io_keepsD [OF policy_Reconcile_vault] by metis
qed (auto simp: fk_wf_def cached_by_def)

text \<open>An import that a reconciliation in the run has made.\<close>

definition explained :: "operator_setup \<Rightarrow> operator_world \<Rightarrow> operator_step list \<Rightarrow> fk_import \<Rightarrow> bool" where
  "explained S w es i \<longleftrightarrow>
     (\<exists>before k now after v. es = before @ ReconcileSync k now # after \<and> operator_runs S w before v \<and> justified S v k now i)"

lemma explained_append: "explained S w es i \<Longrightarrow> explained S w (es @ fs) i"
  by (fastforce simp: explained_def)

lemma explained_more:
  assumes "\<exists>news. fs_imports u = fs_imports v @ news \<and> list_all (explained S w es) news" and "fs_imports u' = fs_imports u"
  shows "\<exists>news. fs_imports u' = fs_imports v @ news \<and> list_all (explained S w (es @ fs)) news"
  using assms explained_append by (fastforce simp: list_all_iff)

text \<open>
  C32. Why a version is in Key Vault. However the two controllers are scheduled, whatever others do to
  the cluster and to the vault in between, and whenever the process is restarted: each version that
  is added was added by the reconciliation of a resource that existed then, for a vault that the
  operator may write to, with the bundle that its Secret held then, valid at that time, and it was
  needed, as the vault did not hold that bundle. The policy controller adds none, and none is ever
  taken back.
\<close>
theorem operator_provenance:
  assumes "operator_runs S w es w'" and "fk_wf (ow_vault w)"
  shows "\<exists>news. fs_imports (snd (ow_vault w')) = fs_imports (snd (ow_vault w)) @ news \<and>
    list_all (explained S w es) news"
  using assms
proof (induction rule: operator_runs.induct)
  case (run_start w)
  then show ?case by simp
next
  case (run_sync w0 es w now rand k r w')
  note ih = run_sync.IH [OF run_sync.prems]
  from reconcile_adds [OF operator_runs_wf [OF run_sync.hyps(1) run_sync.prems] run_sync.hyps(2)]
  consider "snd (ow_vault w') = snd (ow_vault w)"
    | i where "fs_imports (snd (ow_vault w')) = fs_imports (snd (ow_vault w)) @ [i]" "justified S w k now i" by blast
  then show ?case
  proof cases
    case 1
    with ih show ?thesis by (intro explained_more) simp_all
  next
    case 2
    then have "explained S w0 (es @ [ReconcileSync k now]) i" using run_sync.hyps(1) unfolding explained_def by blast
    moreover obtain news where "fs_imports (snd (ow_vault w)) = fs_imports (snd (ow_vault w0)) @ news"
      "list_all (explained S w0 (es @ [ReconcileSync k now])) news"
      using explained_more [OF ih refl, of "[ReconcileSync k now]"] by blast
    ultimately show ?thesis using 2(1) by (intro exI [of _ "news @ [i]"]) simp
  qed
next
  case (run_policy w0 es w now rand k r w')
  then show ?case using io_keepsD [OF policy_Reconcile_vault run_policy.hyps(2)] by (intro explained_more) simp_all
qed (auto intro: explained_more)

section \<open>Convergence\<close>

text \<open>
  A resource that can be delivered: it is live, names the vault of the tests, which the operator may
  use, under a known profile, and its Secret holds a bundle that is valid, is given a valid name and
  whose archive can be read.
\<close>

definition deliverable :: "operator_setup \<Rightarrow> operator_world \<Rightarrow> time \<Rightarrow> object_key \<Rightarrow> string \<Rightarrow> cert_bundle \<Rightarrow> bool" where
  "deliverable S w now k name b \<longleftrightarrow>
     (\<exists>s p. world_syncs w k = Some s \<and> \<not> deletion_requested (sc_Meta s) \<and>
        vault_url_of (os_Library S) (os_AllowedVaults S) (os_Cloud S) (cx_KeyVault (sc_Spec s)) = Inr server_URL \<and>
        NewEncoder (pkcs12Profile (cx_SyncPolicy (sc_Spec s))) = Inr p \<and>
        secret_bundle (os_X509 S) (sv_Cluster (ow_api w)) (rq_Source (request_of s server_URL)) = Some b \<and>
        Validate b now = Inr () \<and> sync_name (lb_Platform (os_Library S)) (request_of s server_URL) b = Inr name \<and>
        valid_vault_name name \<and> (\<forall>pw. archive_leaf_of (os_Decode S) (x_Raw (bd_Leaf b)) pw = Some (bd_Leaf b)))"

definition vault_holds :: "operator_setup \<Rightarrow> operator_world \<Rightarrow> string \<Rightarrow> cert_bundle \<Rightarrow> bool" where
  "vault_holds S w name b =
     holds_bundle (lb_Platform (os_Library S)) (fk_view (ow_vault w) \<lparr>vr_VaultURL = server_URL, vr_CertificateName = name\<rparr>) b"

definition reported_ready :: "operator_world \<Rightarrow> object_key \<Rightarrow> bool" where
  "reported_ready w k \<longleftrightarrow>
     (\<exists>s ready. world_syncs w k = Some s \<and>
        condition_of (ct_Conditions (sc_Status s)) ConditionReady = Some ready \<and> cd_Status ready = ''True'')"

lemma same_specs_view:
  "same_specs w w' \<Longrightarrow> spec_view w' k = spec_view w k \<or> spec_view w' k = None \<and> (\<exists>sp. spec_view w k = Some (sp, True))"
  by (simp add: same_specs_def)

lemma same_specs_Some:
  assumes "same_specs w w'" and "world_syncs w' k = Some s'"
  obtains s where "world_syncs w k = Some s" and "sc_Spec s' = sc_Spec s"
    and "deletion_requested (sc_Meta s') = deletion_requested (sc_Meta s)" and "request_of s' = request_of s"
proof -
  have "spec_view w' k \<noteq> None" using assms(2) by (simp add: spec_view_def)
  then have "spec_view w' k = spec_view w k" using same_specs_view [OF assms(1), of k] by auto
  with assms(2) obtain s where s: "world_syncs w k = Some s" "sc_Spec s' = sc_Spec s"
    "deletion_requested (sc_Meta s') = deletion_requested (sc_Meta s)"
    by (cases "world_syncs w k") (auto simp: spec_view_def)
  have "om_Namespace (sc_Meta s') = om_Namespace (sc_Meta s)"
    using world.sync_key [OF s(1)] world.sync_key [OF assms(2)] by (auto simp: key_of_def)
  with s show ?thesis by (intro that) (simp_all add: request_of_def fun_eq_iff)
qed

lemma deliverable_keeps:
  assumes "deliverable S w now k name b" and "same_specs w w'"
  shows "deliverable S w' now k name b"
proof -
  obtain s where s: "world_syncs w k = Some s" "\<not> deletion_requested (sc_Meta s)"
    using assms(1) unfolding deliverable_def by blast
  then have "spec_view w k = Some (sc_Spec s, False)" by (simp add: spec_view_def)
  then have "spec_view w' k \<noteq> None" using same_specs_view [OF assms(2), of k] by auto
  then obtain s' where s': "world_syncs w' k = Some s'" by (auto simp: spec_view_def)
  obtain s0 where "world_syncs w k = Some s0" and eq: "sc_Spec s' = sc_Spec s0"
    "deletion_requested (sc_Meta s') = deletion_requested (sc_Meta s0)" "request_of s' = request_of s0"
    by (rule same_specs_Some [OF assms(2) s'])
  with s(1) have "s0 = s" by simp
  have "sv_Cluster (ow_api w') = sv_Cluster (ow_api w)" using assms(2) by (simp add: same_specs_def)
  with assms(1) s(1) s' eq \<open>s0 = s\<close> show ?thesis unfolding deliverable_def by auto
qed

lemma named_ref_inj [simp]: "named_ref req n = named_ref req m \<longleftrightarrow> n = m"
  by (metis vr_named)

lemma reconcile_delivers:
  assumes "machinery_contract (lb_Machinery (os_Library S))" and "fk_wf (ow_vault w)" and "deliverable S w now k name b"
    and "sync_Reconcile (os_Library S) (sync_controller S now rand) k w = (r, w')"
  shows "vault_holds S w' name b \<and> reported_ready w' k \<and> (n \<noteq> name \<longrightarrow> vault_holds S w' n b' = vault_holds S w n b')"
proof -
  let ?P = "lb_Platform (os_Library S)"
  obtain s p where s: "world_syncs w k = Some s" "\<not> deletion_requested (sc_Meta s)"
    "vault_url_of (os_Library S) (os_AllowedVaults S) (os_Cloud S) (cx_KeyVault (sc_Spec s)) = Inr server_URL"
    "NewEncoder (pkcs12Profile (cx_SyncPolicy (sc_Spec s))) = Inr p"
    and b: "secret_bundle (os_X509 S) (sv_Cluster (ow_api w)) (rq_Source (request_of s server_URL)) = Some b"
    "Validate b now = Inr ()" "sync_name ?P (request_of s server_URL) b = Inr name" "valid_vault_name name"
    "\<And>pw. archive_leaf_of (os_Decode S) (x_Raw (bd_Leaf b)) pw = Some (bd_Leaf b)"
    using assms(3) unfolding deliverable_def by blast
  have url: "vr_VaultURL (rq_Vault (request_of s server_URL)) = server_URL" by (simp add: request_of_def)
  note load = secret_bundle_Some [OF b(1), where w = "ow_vault w"]
  obtain out v where run: "Sync ?P (the_operator ?P (os_Decode S) (os_X509 S) p (sv_Cluster (ow_api w)) (\<lambda>_. now))
      (request_of s server_URL) (ow_vault w) = (Inr out, v)"
    and out: "so_CertificateName out = name" "holds_bundle ?P (fk_view v (named_ref (request_of s server_URL) name)) b"
    by (rule operator_delivers [OF assms(2) url load b(3,4,2) s(4) b(5)])
  obtain s' m where r: "world_syncs w' k = Some s'" "ow_vault w' = v"
    "condition_of (ct_Conditions (sc_Status s')) ConditionReady = Some (ready_condition m out)"
    using world_live [OF assms(1) refl s run [unfolded request_of_def], of rand] assms(4) unfolding sync_controller_def by auto
  have "cd_Status (ready_condition m out) = ''True''" using operator_outcome [OF run] by (simp add: ready_condition_def)
  moreover have "named_ref (request_of s server_URL) n = \<lparr>vr_VaultURL = server_URL, vr_CertificateName = n\<rparr>" for n
    by (simp add: named_ref_def request_of_def)
  moreover have "n \<noteq> name \<Longrightarrow> fk_view v (named_ref (request_of s server_URL) n) = fk_view (ow_vault w) (named_ref (request_of s server_URL) n)"
    using keyvault_sync.Sync_frame [OF run [unfolded the_operator_def] assms(2)] url out(1) by simp
  ultimately show ?thesis using out(2) r by (auto simp: vault_holds_def reported_ready_def)
qed

text \<open>A round of reconciliations, one for each resource.\<close>

inductive_cases run_nilE: "operator_runs S w [] w'"
inductive_cases run_syncE: "operator_runs S w (es @ [ReconcileSync k now]) w'"

abbreviation round :: "object_key list \<Rightarrow> time \<Rightarrow> operator_step list" where
  "round ks now \<equiv> map (\<lambda>k. ReconcileSync k now) ks"

lemma round_exists: "\<exists>w'. operator_runs S w (round ks now) w'"
proof (induction ks rule: rev_induct)
  case (snoc k ks)
  then obtain v where v: "operator_runs S w (round ks now) v" by blast
  obtain r w' where "sync_Reconcile (os_Library S) (sync_controller S now id) k v = (r, w')" by fastforce
  from run_sync [OF v this] show ?case by auto
qed (auto intro: run_start)

lemma round_delivers:
  assumes "machinery_contract (lb_Machinery (os_Library S))" and "fk_wf (ow_vault w)"
    and "\<And>k. k \<in> set ks \<Longrightarrow> deliverable S w now k (name k) (b k)" and "inj_on name (set ks)"
    and "operator_runs S w (round ks now) w'"
  shows "same_specs w w' \<and> fk_wf (ow_vault w') \<and> (\<forall>k \<in> set ks. vault_holds S w' (name k) (b k) \<and> reported_ready w' k)"
  using assms(3-5)
proof (induction ks arbitrary: w' rule: rev_induct)
  case Nil
  then show ?case using assms(2) by (auto elim: run_nilE)
next
  case (snoc k ks)
  have "operator_runs S w (round ks now @ [ReconcileSync k now]) w'" using snoc.prems(3) by simp
  then obtain v rand r where v: "operator_runs S w (round ks now) v"
    and r: "sync_Reconcile (os_Library S) (sync_controller S now rand) k v = (r, w')"
    by (rule run_syncE) auto
  have ih: "same_specs w v" "fk_wf (ow_vault v)" "\<And>k'. k' \<in> set ks \<Longrightarrow> vault_holds S v (name k') (b k') \<and> reported_ready v k'"
    using snoc.IH [OF _ _ v] snoc.prems(1,2) by (auto simp: inj_on_def)
  have t: "touches k v w'" using sync_Reconcile_touches [OF r [unfolded sync_controller_def]] by blast
  have d: "deliverable S v now k (name k) (b k)" using deliverable_keeps [OF _ ih(1)] snoc.prems(1) by simp
  have "vault_holds S w' (name k') (b k') \<and> reported_ready w' k'" if "k' \<in> set (ks @ [k])" for k'
  proof (cases "k' = k")
    case True
    then show ?thesis using reconcile_delivers [OF assms(1) ih(2) d r] by blast
  next
    case False
    then have "k' \<in> set ks" "name k' \<noteq> name k" using that snoc.prems(2) by (auto simp: inj_on_def)
    moreover have "world_syncs w' k' = world_syncs v k'" using t False by (simp add: touches_def)
    ultimately show ?thesis
      using ih(3) reconcile_delivers [OF assms(1) ih(2) d r] by (simp add: reported_ready_def)
  qed
  moreover have "same_specs w w'" using same_specs_trans [OF ih(1)] t by (simp add: touches_def)
  moreover have "fk_wf (ow_vault w')" using reconcile_adds [OF ih(2) r] by blast
  ultimately show ?case by blast
qed

text \<open>Steps of an operator that is left alone.\<close>

fun undisturbed :: "operator_step \<Rightarrow> bool" where
  "undisturbed (ReconcileSync k now) = True"
| "undisturbed Restart = True"
| "undisturbed _ = False"

lemma undisturbed_run:
  assumes "\<And>k s b n. world_syncs w k = Some s \<Longrightarrow> \<not> deletion_requested (sc_Meta s) \<Longrightarrow>
      secret_bundle (os_X509 S) (sv_Cluster (ow_api w)) (rq_Source (request_of s server_URL)) = Some b \<Longrightarrow>
      sync_name (lb_Platform (os_Library S)) (request_of s server_URL) b = Inr n \<Longrightarrow> vault_holds S w n b"
    and "operator_runs S w es w'" and "fk_wf (ow_vault w)" and "list_all undisturbed es"
  shows "same_specs w w' \<and> snd (ow_vault w') = snd (ow_vault w)"
  using assms(2,3,4,1)
proof (induction rule: operator_runs.induct)
  case (run_sync w0 es w now rand k r w')
  have ih: "same_specs w0 w" "snd (ow_vault w) = snd (ow_vault w0)" using run_sync by auto
  have t: "same_specs w0 w'"
    using same_specs_trans [OF ih(1)] sync_Reconcile_touches [OF run_sync.hyps(2) [unfolded sync_controller_def]]
    by (simp add: touches_def)
  have "\<not> justified S w k now i" for i
  proof
    assume "justified S w k now i"
    then obtain s b where s: "world_syncs w k = Some s" "\<not> deletion_requested (sc_Meta s)"
      "secret_bundle (os_X509 S) (sv_Cluster (ow_api w)) (rq_Source (request_of s server_URL)) = Some b"
      "sync_name (lb_Platform (os_Library S)) (request_of s server_URL) b = Inr (fi_Name i)" "\<not> vault_holds S w (fi_Name i) b"
      unfolding justified_def vault_holds_def by blast
    obtain s0 where "world_syncs w0 k = Some s0" "deletion_requested (sc_Meta s) = deletion_requested (sc_Meta s0)"
      "request_of s = request_of s0" by (rule same_specs_Some [OF ih(1) s(1)])
    moreover have "sv_Cluster (ow_api w) = sv_Cluster (ow_api w0)" using ih(1) by (simp add: same_specs_def)
    ultimately have "vault_holds S w0 (fi_Name i) b" using run_sync.prems(3) s(2-4) by simp
    with s(5) show False using fk_view_snd [OF ih(2)] by (simp add: vault_holds_def)
  qed
  with reconcile_adds [OF operator_runs_wf [OF run_sync.hyps(1) run_sync.prems(1)] run_sync.hyps(2)] ih t show ?case by auto
qed (auto simp: same_specs_def spec_view_def world_syncs_def)


section \<open>An example\<close>

text \<open>Two resources for one Secret, under two names, and a vault that is empty.\<close>

definition pair_setup :: operator_setup where
  "pair_setup =
     \<lparr> os_Library = toy_library, os_X509 = toy_x509, os_Decode = toy_decode, os_Cloud = CloudPublic,
       os_AllowedVaults = [server_URL], os_HTTPRoutes = True, os_Gateways = False, os_Mapper = (\<lambda>gk v. Inr ()) \<rparr>"

definition pair_sync :: "string \<Rightarrow> cert_sync" where
  "pair_sync name =
     (named_sync ''web'' name)\<lparr>sc_Spec :=
        \<lparr> cx_Source = \<lparr>sx_SecretRef = \<lparr>lr_Name = ''x-tls''\<rparr>\<rparr>,
          cx_KeyVault = empty_vault_spec\<lparr>kv_VaultURL := server_URL, kv_CertificateName := name\<rparr>, cx_SyncPolicy = None \<rparr>\<rparr>"

definition pair_key :: "string \<Rightarrow> object_key" where
  "pair_key name = \<lparr>ok_Namespace = ''web'', ok_Name = name\<rparr>"

definition pair_world :: operator_world where
  "pair_world =
     \<lparr> ow_api = (toy_server [pair_sync ''one'', pair_sync ''two''])\<lparr>sv_Cluster := toy_cluster\<rparr>, ow_vault = empty_world \<rparr>"

lemma pair_syncs: "world_syncs pair_world = [pair_key ''one'' \<mapsto> pair_sync ''one'', pair_key ''two'' \<mapsto> pair_sync ''two'']"
  by (rule ext) (auto simp: world_syncs_def pair_world_def server_syncs_def toy_server_def lookup_obj_def pair_sync_def
      named_sync_def named_meta_def key_of_def pair_key_def)

lemma pair_deliverable:
  assumes "name = ''one'' \<or> name = ''two''"
  shows "deliverable pair_setup pair_world 2000 (pair_key name) name toy_bundle"
proof -
  have v: "vault_url_of toy_library [server_URL] CloudPublic (cx_KeyVault (sc_Spec (pair_sync name))) = Inr server_URL"
    using assms by (elim disjE) (simp_all, code_simp+)
  have s: "world_syncs pair_world (pair_key name) = Some (pair_sync name)" using assms by (auto simp: pair_syncs pair_key_def)
  have b: "secret_bundle toy_x509 toy_cluster \<lparr>sr_Namespace = ''web'', sr_Name = ''x-tls''\<rparr> = Some toy_bundle"
    using toy_facts(3) [of "()"] by (simp add: secret_bundle_def toy_request_def)
  have r: "request_of (pair_sync name) server_URL =
      \<lparr> rq_Source = \<lparr>sr_Namespace = ''web'', sr_Name = ''x-tls''\<rparr>, rq_Vault = \<lparr>vr_VaultURL = server_URL, vr_CertificateName = name\<rparr> \<rparr>"
    "\<not> deletion_requested (sc_Meta (pair_sync name))" "cx_SyncPolicy (sc_Spec (pair_sync name)) = None"
    by (simp_all add: request_of_def pair_sync_def named_sync_def named_meta_def deletion_requested_def)
  have w: "sv_Cluster (ow_api pair_world) = toy_cluster" by (simp add: pair_world_def)
  have S: "os_Library pair_setup = toy_library" "os_AllowedVaults pair_setup = [server_URL]" "os_Cloud pair_setup = CloudPublic"
    "os_X509 pair_setup = toy_x509" "os_Decode pair_setup = toy_decode" by (simp_all add: pair_setup_def)
  have n: "valid_vault_name name" "name \<noteq> []" using assms by (elim disjE; simp; code_simp)+
  have "NewEncoder (pkcs12Profile None) = Inr ProfileLegacy" by (simp add: NewEncoder_def pkcs12Profile_def profile_defs)
  with v s b r w n toy_readable toy_valid show ?thesis
    unfolding deliverable_def S w by (auto simp: sync_name_def)
qed

lemma operator_provenance_witness:
  "let w' = snd (sync_Reconcile toy_library (sync_controller pair_setup 2000 id) (pair_key ''two'') pair_world) in
    operator_runs pair_setup pair_world [ReconcileSync (pair_key ''two'') 2000] w' \<and>
    map fi_Name (fs_imports (snd (ow_vault w'))) = [''two''] \<and>
    list_all (explained pair_setup pair_world [ReconcileSync (pair_key ''two'') 2000]) (fs_imports (snd (ow_vault w')))"
proof -
  define w' where "w' = snd (sync_Reconcile toy_library (sync_controller pair_setup 2000 id) (pair_key ''two'') pair_world)"
  then obtain r where step: "sync_Reconcile (os_Library pair_setup) (sync_controller pair_setup 2000 id) (pair_key ''two'') pair_world = (r, w')"
    by (metis pair_setup_def operator_setup.select_convs(1) prod.collapse)
  from run_sync [OF run_start step]
  have run: "operator_runs pair_setup pair_world [ReconcileSync (pair_key ''two'') 2000] w'" by simp
  have start: "fk_wf (ow_vault pair_world)" "fs_imports (snd (ow_vault pair_world)) = []"
    using toy_facts(1) by (simp_all add: pair_world_def) (simp add: empty_world_def)
  from operator_provenance [OF run] start
  have "list_all (explained pair_setup pair_world [ReconcileSync (pair_key ''two'') 2000]) (fs_imports (snd (ow_vault w')))"
    by auto
  moreover have "map fi_Name (fs_imports (snd (ow_vault w'))) = [''two'']"
  proof -
    from reconcile_adds [OF start(1) step]
    consider "snd (ow_vault w') = snd (ow_vault pair_world)"
      | i where "fs_imports (snd (ow_vault w')) = [i]" "justified pair_setup pair_world (pair_key ''two'') 2000 i"
      using start(2) by auto
    then show ?thesis
    proof cases
      case 1
      have "vault_holds pair_setup w' ''two'' toy_bundle"
        using reconcile_delivers [OF _ start(1) pair_deliverable step] toy_machinery by (simp add: pair_setup_def)
      with 1 have False by (simp add: vault_holds_def fk_view_def holds_bundle_def pair_world_def empty_world_def absent_snapshot_def)
      then show ?thesis ..
    next
      case 2
      then have "fi_Name i = ''two''"
        by (auto simp: justified_def pair_syncs pair_key_def pair_sync_def request_of_def sync_name_def split: if_splits)
      with 2(1) show ?thesis by simp
    qed
  qed
  ultimately show ?thesis using run unfolding Let_def w'_def by blast
qed


end
