(* ===== verification/Spec2Isabelle.thy ===== *)
theory Spec2Isabelle
  imports VaultNameProps SyncTrace VaultUrlProps FakeServer ClientCache OutputBuffer Schema DeepCopy CommandLine Loops OperatorRuns
begin

text \<open>
  A model of the keyvault-cert-operator, a Kubernetes operator that copies TLS certificates from
  Secrets into Azure Key Vault, from where an Application Gateway serves them.

  \<^bold>\<open>The program.\<close> It has two controllers. The sync controller reconciles a
  KeyVaultCertificateSync: it resolves the vault and checks it against the allowlist, loads the
  certificate of a Secret, compares it with what Key Vault holds, imports it if they differ, and
  writes the outcome into the status, the events and the metrics. The policy controller
  reconciles a WildcardCertificatePolicy: it discovers the host names that the cluster routes,
  plans wildcard certificates for those inside the allowed zones, creates a cert-manager
  Certificate and a KeyVaultCertificateSync for each, and deals with those no longer required.
  The domain layer (\<open>internal/domain\<close>) is pure; the use cases (\<open>internal/app\<close>) call it between
  calls of ports, which the adapters (\<open>internal/infra\<close>) implement; \<open>cmd/manager\<close> composes them.

  \<^bold>\<open>How code is modelled.\<close> A Go struct is a record, an enumeration a datatype (or the strings, where
  the code compares strings), a string or byte slice a list of characters, a pointer that may be
  nil an option, a map an association list or a function, a set a list without duplicates where
  its order is lost by sorting. A function that returns an error yields \<open>go_result\<close>, a sum whose
  left side is an error tree (\<open>Errors\<close>), so that every error of the source is a branch of the
  model and \<open>errors.Is\<close> searches the same chain. A function with effects is a function of the
  state of the world (\<open>GoIO\<close>): \<open>io_bind\<close> is the call followed by the test of its error,
  \<open>io_wrap\<close> the wrapping of an error, \<open>io_case\<close> the handling of both outcomes. Loops are structural
  recursions over what they range over; those that are not (over the blocks of a PEM file, the
  walk up the issuing chain, the listener groups, the occurrences of a string) have a measure, so
  that no fuel is needed anywhere and every function is total; \<open>Loops\<close> has those of the domain also
  as loops that could run forever, and shows that they end. Integers that can overflow have the
  wrap-around written out (\<open>int64\<close> for durations, \<open>int32\<close> for the counts in the status).

  \<^bold>\<open>Theories.\<close>
  \<^item> \<open>Prelude\<close>, \<open>GoStrings\<close>, \<open>GoTime\<close>, \<open>GoUrl\<close>, \<open>Base64\<close>, \<open>Errors\<close>, \<open>Platform\<close>, \<open>GoIO\<close>: results,
    generic lemmas, what the program uses of the standard library of Go, and calculi for code with
    effects: what it leaves unchanged, its events, its postconditions (\<open>io_post\<close>).
  \<^item> \<open>VaultName\<close>, \<open>VaultNameProps\<close>: \<open>internal/domain/name.go\<close>; the names that are accepted and derived.
  \<^item> \<open>Wildcard\<close> and its companions \<open>WildcardZones\<close>, \<open>WildcardPlan\<close>, \<open>WildcardLimit\<close>, \<open>WildcardOrder\<close>,
    \<open>WildcardProps\<close>: \<open>internal/domain/wildcard.go\<close>. The abstract specification of a plan judges each
    host on its own; the plan is proved to hold exactly what the hosts require, inside the zones,
    up to a cap that never evicts what exists, independently of the order of discovery.
  \<^item> \<open>Loops\<close>: the \<open>for\<close> loops of these files that are not over a range, as while loops.
  \<^item> \<open>Certificate\<close>, \<open>Chain\<close>: \<open>certificate.go\<close> and \<open>chain.go\<close>; the leaf is the certificate of the key,
    nothing is lost, and the chain is a maximal issuer path followed by the rest. \<open>ChainOrder\<close>: the
    bundle does not depend on the order of the file. \<open>TestPki\<close>: \<open>internal/testutil/pki.go\<close>, the
    authority of the tests; what it issues is parsed back.
  \<^item> \<open>Decide\<close>: \<open>decide.go\<close>; when to import, when to warn. \<open>VaultAllowlist\<close>: \<open>vault.go\<close>.
  \<^item> \<open>Ports\<close>: \<open>internal/app/ports.go\<close>, the interfaces as records and their contracts as locales.
    \<open>Syncer\<close> and \<open>SyncTrace\<close>: \<open>syncer.go\<close>, over every vault with the contract, and in any
    environment as a trace of calls. \<open>Planner\<close>: \<open>planner.go\<close>.
  \<^item> \<open>AzureVaultUrl\<close>, \<open>VaultUrlProps\<close>: \<open>internal/infra/azure/vaulturl.go\<close>. \<open>AzureRepository\<close>:
    \<open>keyvault.go\<close>; \<open>ClientCache\<close>: its cache of clients statement by statement, for goroutines that
    interleave, as a step relation that refines calls at once. \<open>Pkcs12\<close>: \<open>internal/infra/pkcs12/encoder.go\<close>. \<open>Kube\<close>: \<open>secretsource.go\<close> and
    \<open>hostsource.go\<close> of \<open>internal/infra/kube\<close>. \<open>CertManager\<close>: \<open>certmanager.go\<close>.
  \<^item> \<open>FakeKeyVault\<close>: \<open>test/e2e/fakekeyvault/server.go\<close>, the server the end-to-end tests use; the
    repository over it is proved to satisfy the contract of a vault. \<open>FakeServer\<close>: the HTTP server
    before it, with its routes, its challenge and its certificate. \<open>SyncSystem\<close>: the use case over
    these adapters; a sync installs the bundle of the Secret and doing it again changes nothing.
    \<open>SyncRuns\<close>: runs of syncs among changes of the Secrets and of the vault as a step relation;
    where the versions in the vault come from, and how many are made.
  \<^item> \<open>Api\<close>: \<open>api/v1alpha1\<close> and the calls of the Kubernetes client. \<open>ApiServer\<close>: the contract of the
    API for generated resources, and a server in memory that provides it. \<open>Schema\<close>: the validation
    markers of the types as predicates, and that what the policy controller writes satisfies them.
  \<^item> \<open>Memory\<close>, \<open>DeepCopy\<close>: \<open>zz_generated.deepcopy.go\<close> over an explicit memory of cells and addresses;
    a copy has the value of its original and shares nothing with it. The other theories work with
    values, as they may: what a controller changes is its own copy.
  \<^item> \<open>Conditions\<close>: \<open>internal/controller/conditions.go\<close> and \<open>metrics.go\<close>, and the
    libraries that both controllers use. \<open>SyncController\<close>, \<open>SyncCtlProps\<close>:
    \<open>certificatesync_controller.go\<close>; errors that are retried, deletion, the allowlist, the status,
    the next run, the metrics. \<open>PolicyController\<close>, \<open>PolicyProps\<close>: \<open>wildcardpolicy_controller.go\<close>; the
    desired resources are installed, pruning is safe, the status keeps its bounds.
    \<open>Watches\<close>: the registrations of both controllers, and which events wake which resources.
  \<^item> \<open>EndToEnd\<close>: both controllers over one world of an API server, its cluster and a vault; what a
    policy plans and announces is what the sync controller delivers. \<open>OperatorRuns\<close>: runs of the
    operator as a step relation, in which reconciliations of both controllers alternate in any
    order with changes of the cluster and of the vault by others and with restarts; why each version
    was made, and that an operator that is left alone converges and then stays still.
  \<^item> \<open>OutputBuffer\<close>: \<open>test/e2e/buffer.go\<close>, the buffer under a mutex for the output of the process
    that the end-to-end tests run; concurrent writes and reads happen one after the other.
  \<^item> \<open>Manager\<close>: \<open>cmd/manager/main.go\<close> and \<open>internal/infra/azure/credential.go\<close>.
  \<^item> \<open>HelmGen\<close>: \<open>hack/helmgen/main.go\<close>, the generator and the check of the Helm chart.
  \<^item> \<open>GoFlag\<close>, \<open>CommandLine\<close>: the flags package, the flags of both commands, the scheme
    (\<open>groupversion_info.go\<close> and the \<open>init\<close> functions), and the commands as processes with exit codes.

  \<^bold>\<open>Contracts.\<close> A client that relies on a provider is proved in a locale over the operations it calls,
  and the locale is interpreted on the provider of the repository: \<open>vault_contract\<close> on the
  repository over the test server, \<open>encoder_contract\<close>, \<open>reader_contract\<close> and \<open>host_contract\<close> on the
  adapters, \<open>sync_contract\<close> on their combination, \<open>generated_contract\<close>, \<open>index_contract\<close> and
  \<open>policies_contract\<close> on the API server in memory, \<open>machinery_contract\<close>, \<open>watch_contract\<close>,
  \<open>pki_contract\<close> and \<open>api_copiers\<close> on implementations of what the Kubernetes and the crypto libraries
  document; \<open>copier\<close> on every generated copy, and \<open>simulation\<close> on the cache of
  clients and on the buffer.

  \<^bold>\<open>Parameters.\<close> Third-party code is a parameter: \<open>platform\<close> (Public Suffix List, digests, Unicode
  tables), \<open>x509_lib\<close> (parsers and signature checks of crypto/x509), \<open>pkcs12_lib\<close>, \<open>azure_sdk\<close>,
  \<open>pki_lib\<close> (key generation, signing, PEM), \<open>azidentity\<close>, \<open>machinery\<close>, \<open>ctrl_manager\<close> and \<open>controller_runtime\<close> (Kubernetes libraries),
  \<open>helm_lib\<close> (files and YAML), \<open>copy_lib\<close> (copies of Kubernetes types), the flags and schemes of other
  packages, the listener and the JSON decoder of the test server. Nothing is assumed of them but what a theorem names.

  \<^bold>\<open>Not modelled.\<close> Logging and signal handling; registration with Prometheus; sockets and TLS of
  the test server, which are I/O. Of concurrency, the state in memory that is shared: the cache of
  clients and the buffer of the tests. A controller has one worker, so that
  its reconciliations do not overlap; in \<open>OperatorRuns\<close> a reconciliation is one step, so that one of
  the sync controller that overlaps with one of the policy controller is not covered there, while
  \<open>SyncTrace\<close> has the calls of a sync with arbitrary answers of its environment.
\<close>

end
